(* ===== verification/Prelude_Go.thy ===== *)
theory Prelude_Go
  imports Main "HOL-Library.Word"
begin

text \<open>
  What the components share: the values of the Go language the source computes with.

  A Go error is a value of \<open>go_error\<close>: \<open>Errorf\<close> is \<open>fmt.Errorf\<close> or
  \<open>errors.New\<close>, \<open>Wrapf\<close> an \<open>fmt.Errorf\<close> that renders another error; the string is
  the format text of the source, so that it names the branch that made the error.
  A function that may panic returns an \<open>outcome\<close>; a remote call that answers or fails
  returns a sum, with the error on the left. Slices are lists whose capacity is their
  length (the decoders of the client libraries allocate exactly), so a slice or index
  expression out of range is a panic. \<open>big.Int\<close> is \<open>int\<close>, its \<open>SetBytes\<close> and
  \<open>Bytes\<close> are the big-endian conversions; \<open>encoding/hex\<close> and \<open>bytes.Cut\<close> are
  modelled as documented. A Go string is a list of bytes, here a list of characters.
\<close>

section \<open>Results\<close>

datatype go_error = Errorf string | Wrapf string go_error

fun error_text :: "go_error \<Rightarrow> string" where
  "error_text (Errorf s) = s"
| "error_text (Wrapf s e) = s @ error_text e"

type_synonym 'a rpc = "go_error + 'a"

datatype 'a outcome = Ok 'a | Err go_error | Panic string

fun obind :: "'a outcome \<Rightarrow> ('a \<Rightarrow> 'b outcome) \<Rightarrow> 'b outcome" where
  "obind (Ok x) f = f x"
| "obind (Err e) f = Err e"
| "obind (Panic p) f = Panic p"

definition of_rpc :: "string \<Rightarrow> 'a rpc \<Rightarrow> 'a outcome" where
  "of_rpc ctx r = (case r of Inl e \<Rightarrow> Err (Wrapf ctx e) | Inr x \<Rightarrow> Ok x)"

fun is_ok :: "'a outcome \<Rightarrow> bool" where
  "is_ok (Ok x) = True"
| "is_ok _ = False"

fun is_panic :: "'a outcome \<Rightarrow> bool" where
  "is_panic (Panic p) = True"
| "is_panic _ = False"

named_theorems go_simps \<open>evaluation of slices, byte strings and big integers\<close>

lemma of_rpc_simps [simp]:
  "of_rpc c (Inl e) = Err (Wrapf c e)" "of_rpc c (Inr x) = Ok x"
  by (simp_all add: of_rpc_def)

lemma obind_Ok_conv: "obind r f = Ok y \<longleftrightarrow> (\<exists>x. r = Ok x \<and> f x = Ok y)"
  by (cases r) auto

lemma of_rpc_Ok_conv: "of_rpc c r = Ok y \<longleftrightarrow> r = Inr y"
  by (cases r) auto

lemma case_rpc_Ok_conv:
  "(case r of Inl e \<Rightarrow> Err e | Inr x \<Rightarrow> Ok x) = Ok y \<longleftrightarrow> r = Inr y"
  by (cases r) auto

lemma case_err_Ok_conv:
  "(case r of Inl e \<Rightarrow> Err (g e) | Inr x \<Rightarrow> f x) = Ok y \<longleftrightarrow> (\<exists>x. r = Inr x \<and> f x = Ok y)"
  by (cases r) auto

lemma case_panic_Ok_conv:
  "(case r of Inl e \<Rightarrow> Panic (p e) | Inr x \<Rightarrow> f x) = Ok y \<longleftrightarrow> (\<exists>x. r = Inr x \<and> f x = Ok y)"
  by (cases r) auto

text \<open>How a sequence of calls came to succeed.\<close>

lemmas ok_convs = obind_Ok_conv of_rpc_Ok_conv case_rpc_Ok_conv case_err_Ok_conv case_panic_Ok_conv

lemma of_rpc_not_Panic [simp]: "of_rpc c r \<noteq> Panic p"
  by (cases r) auto

text \<open>What holds of the value if there is one; the rules walk through a sequence of calls.\<close>

definition ok_all :: "('a \<Rightarrow> bool) \<Rightarrow> 'a outcome \<Rightarrow> bool" where
  "ok_all P r \<longleftrightarrow> (\<forall>x. r = Ok x \<longrightarrow> P x)"

lemma ok_all_simps [simp]:
  "ok_all P (Ok x) = P x" "ok_all P (Err e)" "ok_all P (Panic p)"
  "ok_all P (obind r f) = ok_all (\<lambda>x. ok_all P (f x)) r"
  by (cases r; auto simp: ok_all_def)+

lemma ok_allI [intro]: "(\<And>x. r = Ok x \<Longrightarrow> P x) \<Longrightarrow> ok_all P r"
  by (simp add: ok_all_def)

lemma ok_allD: "ok_all P r \<Longrightarrow> r = Ok x \<Longrightarrow> P x"
  by (simp add: ok_all_def)

lemma is_ok_conv: "is_ok r \<longleftrightarrow> (\<exists>x. r = Ok x)"
  by (cases r) auto

section \<open>Slices\<close>

type_synonym byte = "8 word"
type_synonym bytes = "byte list"
type_synonym u64 = "64 word"
type_synonym i64 = "64 word"   \<comment> \<open>read with \<open>sint\<close>\<close>

lemma unat_byte: "unat (b :: byte) < 256"
proof -
  have "unat b < 2 ^ LENGTH(8)" by (rule unsigned_less)
  then show ?thesis by simp
qed

definition slice_to :: "nat \<Rightarrow> 'a list \<Rightarrow> 'a list outcome" where
  "slice_to n xs = (if n \<le> length xs then Ok (take n xs)
                    else Panic ''slice bounds out of range'')"

definition slice_from :: "nat \<Rightarrow> 'a list \<Rightarrow> 'a list outcome" where
  "slice_from n xs = (if n \<le> length xs then Ok (drop n xs)
                      else Panic ''slice bounds out of range'')"

definition index_at :: "nat \<Rightarrow> 'a list \<Rightarrow> 'a outcome" where
  "index_at n xs = (if n < length xs then Ok (xs ! n) else Panic ''index out of range'')"

lemma slice_to_Ok [go_simps]: "n \<le> length xs \<Longrightarrow> slice_to n xs = Ok (take n xs)"
  by (simp add: slice_to_def)

lemma slice_from_Ok [go_simps]: "n \<le> length xs \<Longrightarrow> slice_from n xs = Ok (drop n xs)"
  by (simp add: slice_from_def)

lemma index_at_Ok [go_simps]: "n < length xs \<Longrightarrow> index_at n xs = Ok (xs ! n)"
  by (simp add: index_at_def)

lemma slice_to_Ok_conv: "slice_to n xs = Ok ys \<longleftrightarrow> n \<le> length xs \<and> ys = take n xs"
  by (auto simp: slice_to_def)

lemma slice_from_Ok_conv: "slice_from n xs = Ok ys \<longleftrightarrow> n \<le> length xs \<and> ys = drop n xs"
  by (auto simp: slice_from_def)

lemma index_at_Ok_conv: "index_at n xs = Ok y \<longleftrightarrow> n < length xs \<and> y = xs ! n"
  by (auto simp: index_at_def)

lemma slice_to_not_Err [simp]: "slice_to n xs \<noteq> Err e"
  by (simp add: slice_to_def)

lemma slice_from_not_Err [simp]: "slice_from n xs \<noteq> Err e"
  by (simp add: slice_from_def)

lemma index_at_not_Err [simp]: "index_at n xs \<noteq> Err e"
  by (simp add: index_at_def)

text \<open>\<open>bytes.Cut(s, []byte{0})\<close>: the parts around the first zero byte; when there is none,
  the whole slice, nil and false.\<close>

definition cut_zero :: "bytes \<Rightarrow> bytes \<times> bytes \<times> bool" where
  "cut_zero s = (let b = takeWhile (\<lambda>x. x \<noteq> 0) s in
     if length b < length s then (b, drop (Suc (length b)) s, True) else (s, [], False))"

lemma fst_cut_zero [simp]: "fst (cut_zero s) = takeWhile (\<lambda>x. x \<noteq> 0) s"
proof (cases "length (takeWhile (\<lambda>x. x \<noteq> 0) s) < length s")
  case True
  then show ?thesis by (simp add: cut_zero_def Let_def)
next
  case False
  then have "length (takeWhile (\<lambda>x. x \<noteq> 0) s) = length s"
    by (meson length_takeWhile_le linorder_not_less nle_le)
  then have eq: "takeWhile (\<lambda>x. x \<noteq> 0) s = s"
    by (metis takeWhile_eq_take take_all_iff order_refl)
  from False eq show ?thesis unfolding cut_zero_def Let_def by (simp only: if_False fst_conv)
qed

text \<open>A name is written into a 32-byte field followed by zeros; cutting at the first zero reads
  it back.\<close>

lemma cut_zero_padded:
  assumes "0 \<notin> set s"
  shows "fst (cut_zero (s @ replicate n 0)) = s"
proof -
  have "takeWhile (\<lambda>x. x \<noteq> 0) (s @ replicate n (0::byte)) = s"
    using assms by (subst takeWhile_append2) (auto simp: takeWhile_eq_Nil_iff)
  then show ?thesis by simp
qed

lemma cut_zero_cut:
  assumes "0 \<notin> set s"
  shows "cut_zero (s @ 0 # rest) = (s, rest, True)"
proof -
  have "takeWhile (\<lambda>x. x \<noteq> 0) (s @ 0 # rest) = s"
    using assms by (subst takeWhile_append2) auto
  then show ?thesis by (simp add: cut_zero_def)
qed

section \<open>Big integers\<close>

definition big_set_bytes :: "bytes \<Rightarrow> int" where
  "big_set_bytes bs = foldl (\<lambda>a b. a * 256 + uint b) 0 bs"

fun nat_bytes :: "nat \<Rightarrow> bytes" where
  "nat_bytes n = (if n = 0 then [] else nat_bytes (n div 256) @ [of_nat n])"

declare nat_bytes.simps [simp del]

definition big_bytes :: "int \<Rightarrow> bytes" where
  "big_bytes i = nat_bytes (nat \<bar>i\<bar>)"

lemma big_set_bytes_snoc: "big_set_bytes (bs @ [b]) = big_set_bytes bs * 256 + uint b"
  by (simp add: big_set_bytes_def)

lemma big_set_bytes_Nil [simp]: "big_set_bytes [] = 0"
  by (simp add: big_set_bytes_def)

lemma big_set_bytes_zeros [simp]: "big_set_bytes (replicate k 0 @ bs) = big_set_bytes bs"
proof (induction bs rule: rev_induct)
  case Nil
  have "big_set_bytes (replicate k 0) = 0"
    by (induction k) (simp_all add: big_set_bytes_def)
  then show ?case by simp
next
  case (snoc b bs)
  then show ?case by (simp add: big_set_bytes_snoc flip: append_assoc)
qed

lemma big_set_bytes_zero [simp]: "big_set_bytes (replicate k 0) = 0"
  using big_set_bytes_zeros [of k "[]"] by simp

lemma big_set_bytes_nonneg: "0 \<le> big_set_bytes bs"
  by (induction bs rule: rev_induct) (simp_all add: big_set_bytes_snoc)

lemma big_set_bytes_less: "big_set_bytes bs < 256 ^ length bs"
proof (induction bs rule: rev_induct)
  case (snoc b bs)
  have "uint b < 256" using uint_lt2p [of b] by simp
  with snoc show ?case by (simp add: big_set_bytes_snoc)
qed simp

lemma big_set_bytes_nat_bytes: "big_set_bytes (nat_bytes n) = int n"
proof (induction n rule: nat_bytes.induct)
  case (1 n)
  show ?case
  proof (cases "n = 0")
    case False
    have "uint (word_of_int (int n) :: byte) = int n mod 256"
      by (subst uint_word_of_int) simp
    then have "uint (of_nat n :: byte) = int n mod 256" by simp
    with False "1.IH" show ?thesis
      by (subst nat_bytes.simps) (simp add: big_set_bytes_snoc zdiv_int)
  qed (simp add: nat_bytes.simps)
qed

lemma big_set_bytes_big_bytes [simp]: "big_set_bytes (big_bytes i) = \<bar>i\<bar>"
  by (simp add: big_bytes_def big_set_bytes_nat_bytes)

lemma length_nat_bytes: "n < 256 ^ k \<Longrightarrow> length (nat_bytes n) \<le> k"
proof (induction k arbitrary: n)
  case 0
  then show ?case by (simp add: nat_bytes.simps)
next
  case (Suc k)
  then have "n div 256 < 256 ^ k" by (simp add: less_mult_imp_div_less mult.commute)
  then have "length (nat_bytes (n div 256)) \<le> k" by (rule Suc.IH)
  then show ?case by (subst nat_bytes.simps) simp
qed

lemma length_big_bytes: "\<bar>i\<bar> < 256 ^ k \<Longrightarrow> length (big_bytes i) \<le> k"
  unfolding big_bytes_def by (rule length_nat_bytes) (simp add: nat_less_iff)

text \<open>Go's \<open>%\<close> truncates towards zero; \<open>uint8(x)\<close> keeps the low eight bits.\<close>

definition go_rem :: "int \<Rightarrow> int \<Rightarrow> int" where
  "go_rem a b = sgn a * (\<bar>a\<bar> mod \<bar>b\<bar>)"

section \<open>Text\<close>

definition bytes_of_string :: "string \<Rightarrow> bytes" where
  "bytes_of_string s = map (\<lambda>c. of_nat (of_char c)) s"

definition string_of_bytes :: "bytes \<Rightarrow> string" where
  "string_of_bytes bs = map (\<lambda>b. char_of (unat b)) bs"

lemma string_of_bytes_of_string [simp]: "string_of_bytes (bytes_of_string s) = s"
proof -
  have "char_of (unat (of_nat (of_char c) :: byte)) = c" for c :: char
  proof -
    have "(of_char c :: nat) < 256" by simp
    then have "unat (of_nat (of_char c) :: byte) = of_char c"
      by (subst unat_of_nat) simp
    then show ?thesis by simp
  qed
  then show ?thesis by (simp add: bytes_of_string_def string_of_bytes_def map_idI)
qed

lemma bytes_of_string_of_bytes [simp]: "bytes_of_string (string_of_bytes bs) = bs"
proof -
  have "of_nat (of_char (char_of (unat b) :: char)) = b" for b :: byte
  proof -
    have "unat b < 256" by (rule unat_byte)
    then show ?thesis by simp
  qed
  then show ?thesis by (simp add: bytes_of_string_def string_of_bytes_def map_idI)
qed

definition hex_digit :: "nat \<Rightarrow> char" where
  "hex_digit n = ''0123456789abcdef'' ! n"

definition from_hex_char :: "char \<Rightarrow> nat option" where
  "from_hex_char c = (let n = of_char c in
     if 48 \<le> n \<and> n \<le> 57 then Some (n - 48)
     else if 97 \<le> n \<and> n \<le> 102 then Some (n - 87)
     else if 65 \<le> n \<and> n \<le> 70 then Some (n - 55)
     else None)"

definition hex_encode :: "bytes \<Rightarrow> string" where
  "hex_encode bs =
     concat (map (\<lambda>b. [hex_digit (unat b div 16), hex_digit (unat b mod 16)]) bs)"

fun hex_decode :: "string \<Rightarrow> bytes rpc" where
  "hex_decode [] = Inr []"
| "hex_decode [c] = (case from_hex_char c of
      None \<Rightarrow> Inl (Errorf ''encoding/hex: invalid byte'')
    | Some _ \<Rightarrow> Inl (Errorf ''encoding/hex: odd length hex string''))"
| "hex_decode (a # b # cs) = (case (from_hex_char a, from_hex_char b) of
      (Some x, Some y) \<Rightarrow> (case hex_decode cs of
          Inl e \<Rightarrow> Inl e
        | Inr bs \<Rightarrow> Inr (of_nat (16 * x + y) # bs))
    | _ \<Rightarrow> Inl (Errorf ''encoding/hex: invalid byte''))"

lemma from_hex_char_digit: "n < 16 \<Longrightarrow> from_hex_char (hex_digit n) = Some n"
proof -
  have "list_all (\<lambda>i. from_hex_char (hex_digit i) = Some i) [0..<16]"
    by (simp add: upt_rec from_hex_char_def hex_digit_def Let_def)
  then show "n < 16 \<Longrightarrow> ?thesis" by (simp add: list_all_iff)
qed

lemma hex_decode_encode [simp]: "hex_decode (hex_encode bs) = Inr bs"
proof (induction bs)
  case (Cons b bs)
  have lt: "unat b < 256" by (rule unat_byte)
  then have "unat b div 16 < 16" "unat b mod 16 < 16" by (simp_all add: less_mult_imp_div_less)
  moreover have "of_nat (16 * (unat b div 16) + unat b mod 16) = b"
    by (simp only: mult_div_mod_eq) simp
  ultimately show ?case using Cons
    by (simp add: hex_encode_def from_hex_char_digit del: of_nat_add of_nat_mult)
qed (simp add: hex_encode_def)

text \<open>\<open>DecodeString\<close> returns the bytes before the first error along with the error; a caller that ignores
  the error goes on with these.\<close>

fun hex_decoded :: "string \<Rightarrow> bytes" where
  "hex_decoded (a # b # cs) = (case (from_hex_char a, from_hex_char b) of
      (Some x, Some y) \<Rightarrow> of_nat (16 * x + y) # hex_decoded cs
    | _ \<Rightarrow> [])"
| "hex_decoded cs = []"

lemma hex_decode_decoded: "hex_decode s = Inr bs \<Longrightarrow> hex_decoded s = bs"
  by (induction s arbitrary: bs rule: hex_decode.induct) (auto split: option.splits sum.splits)

lemma hex_decoded_encode [simp]: "hex_decoded (hex_encode bs) = bs"
  by (rule hex_decode_decoded) simp

lemma hex_encode_inject [simp]: "hex_encode a = hex_encode b \<longleftrightarrow> a = b"
  by (metis hex_decode_encode sum.inject(2))

text \<open>Decimal text, as \<open>big.Int.String\<close> and \<open>strconv\<close> write it.\<close>

fun nat_text :: "nat \<Rightarrow> string" where
  "nat_text n = (if n < 10 then [char_of (48 + n)]
                 else nat_text (n div 10) @ [char_of (48 + n mod 10)])"

declare nat_text.simps [simp del]

definition int_text :: "int \<Rightarrow> string" where
  "int_text i = (if i < 0 then CHR ''-'' # nat_text (nat (- i)) else nat_text (nat i))"

end
