(* ===== verification/Contracts.thy ===== *)
theory Contracts
  imports Prelude_Go
begin

text \<open>
  The interfaces several components rely on, as locales.

  \<open>claim_once\<close>: an operation that claims a key and says whether the claim was granted; a key is
  never granted twice. The check of handled orders, the insert into the order table with its
  unique key and the table of accepted sign requests provide it. \<open>claim_always\<close> adds that a key
  not yet claimed is granted.

  \<open>fifo\<close>: a first-in-first-out queue over an abstraction to lists and an invariant, with
  operations that may panic when the invariant does not hold. The two queues of sent transactions
  provide it.
\<close>

section \<open>Claiming keys\<close>

fun claim_all :: "('k \<Rightarrow> 's \<Rightarrow> 's \<times> bool) \<Rightarrow> 'k list \<Rightarrow> 's \<Rightarrow> 's \<times> 'k list" where
  "claim_all claim [] s = (s, [])"
| "claim_all claim (k # ks) s =
     (let (s', ok) = claim k s; (s'', granted) = claim_all claim ks s'
      in (s'', if ok then k # granted else granted))"

locale claim_once =
  fixes claim :: "'k \<Rightarrow> 's \<Rightarrow> 's \<times> bool"
    and claimed :: "'s \<Rightarrow> 'k set"
  assumes claim_granted: "claim k s = (s', True) \<Longrightarrow> k \<notin> claimed s \<and> claimed s' = insert k (claimed s)"
    and claim_refused: "claim k s = (s', False) \<Longrightarrow> claimed s' = claimed s"
begin

lemma claimed_grows: "claim k s = (s', ok) \<Longrightarrow> claimed s \<subseteq> claimed s'"
  using claim_granted [of k s s'] claim_refused [of k s s'] by (cases ok) auto

lemma claim_all_distinct:
  assumes "claim_all claim ks s = (s', granted)"
  shows "distinct granted \<and> set granted \<inter> claimed s = {} \<and> set granted \<subseteq> set ks \<and>
    claimed s' = claimed s \<union> set granted"
  using assms
proof (induction ks arbitrary: s granted)
  case (Cons k ks)
  obtain s1 ok where c: "claim k s = (s1, ok)" by fastforce
  obtain g1 where rest: "claim_all claim ks s1 = (s', g1)"
    and g: "granted = (if ok then k # g1 else g1)"
    using Cons.prems c by (auto split: prod.splits)
  from Cons.IH [OF rest] c g show ?case
    using claim_granted [of k s s1] claim_refused [of k s s1] by (cases ok) auto
qed simp

lemma claim_again: "claim k s = (s', True) \<Longrightarrow> claim k s' = (s'', ok) \<Longrightarrow> \<not> ok"
  using claim_granted [of k s s'] claim_granted [of k s' s''] by (cases ok) auto

end

locale claim_always = claim_once +
  assumes claim_fresh: "k \<notin> claimed s \<Longrightarrow> snd (claim k s)"
begin

lemma claim_iff: "snd (claim k s) \<longleftrightarrow> k \<notin> claimed s"
proof
  assume "snd (claim k s)"
  then show "k \<notin> claimed s" using claim_granted [of k s "fst (claim k s)"] by (cases "claim k s") auto
qed (rule claim_fresh)

lemma claim_all_complete:
  assumes "claim_all claim ks s = (s', granted)"
  shows "set granted = set ks - claimed s"
  using assms
proof (induction ks arbitrary: s granted)
  case (Cons k ks)
  obtain s1 ok where c: "claim k s = (s1, ok)" by fastforce
  obtain g1 where rest: "claim_all claim ks s1 = (s', g1)"
    and g: "granted = (if ok then k # g1 else g1)"
    using Cons.prems c by (auto split: prod.splits)
  have ok: "ok \<longleftrightarrow> k \<notin> claimed s" using claim_iff [of k s] c by simp
  from Cons.IH [OF rest] g ok c show ?case
    using claim_granted [of k s s1] claim_refused [of k s s1] by (cases ok) auto
qed simp

end

section \<open>Queues\<close>

fun repeat_op :: "('q \<Rightarrow> 'q outcome) \<Rightarrow> nat \<Rightarrow> 'q \<Rightarrow> 'q outcome" where
  "repeat_op f 0 q = Ok q"
| "repeat_op f (Suc n) q = obind (f q) (repeat_op f n)"

locale fifo =
  fixes enq :: "'a \<Rightarrow> 'q \<Rightarrow> 'q"
    and deq :: "'q \<Rightarrow> 'q outcome"
    and front :: "'q \<Rightarrow> 'a option outcome"
    and items :: "'q \<Rightarrow> 'a list"
    and wf :: "'q \<Rightarrow> bool"
  assumes wf_enq: "wf q \<Longrightarrow> wf (enq x q)"
    and items_enq: "wf q \<Longrightarrow> items (enq x q) = items q @ [x]"
    and deq_ok: "wf q \<Longrightarrow> \<exists>q'. deq q = Ok q' \<and> wf q' \<and> items q' = tl (items q)"
    and front_ok: "wf q \<Longrightarrow> front q = Ok (case items q of [] \<Rightarrow> None | x # _ \<Rightarrow> Some x)"
begin

lemma wf_enqs: "wf q \<Longrightarrow> wf (fold enq xs q) \<and> items (fold enq xs q) = items q @ xs"
  by (induction xs arbitrary: q) (simp_all add: wf_enq items_enq)

lemma deq_times_ok: "wf q \<Longrightarrow> \<exists>q'. repeat_op deq n q = Ok q' \<and> wf q' \<and> items q' = drop n (items q)"
proof (induction n arbitrary: q)
  case (Suc n)
  obtain q1 where "deq q = Ok q1" "wf q1" "items q1 = tl (items q)"
    using deq_ok [OF Suc.prems] by blast
  with Suc.IH [of q1] show ?case by (auto simp: drop_Suc)
qed simp

text \<open>Elements leave in the order they came: what is behind \<open>n\<close> elements is in front after
  \<open>n\<close> removals, whatever was added.\<close>

lemma front_after:
  assumes "wf q" and "items q = []" and "n < length xs"
  shows "\<exists>q'. repeat_op deq n (fold enq xs q) = Ok q' \<and> front q' = Ok (Some (xs ! n))"
proof -
  have q1: "wf (fold enq xs q)" "items (fold enq xs q) = xs"
    using wf_enqs [OF assms(1), of xs] assms(2) by simp_all
  then obtain q' where "repeat_op deq n (fold enq xs q) = Ok q'" "wf q'" "items q' = drop n xs"
    using deq_times_ok [of "fold enq xs q" n] by auto
  with assms(3) show ?thesis by (simp add: front_ok flip: Cons_nth_drop_Suc)
qed

end

end
