(* ===== verification/Store.thy ===== *)
theory Store
  imports Contracts
begin

text \<open>
  Package model (model/swap.go, model/account.go, model/mysql.go): the orders in MySQL.

  The tables are part of the state: \<open>swap_order\<close> with the unique key on \<open>txid\<close> that the
  readme's schema declares, \<open>error_order\<close>, and \<open>service\<close> with an account's last sign of life.
  A statement may also fail for a reason of the server's own; that failure is an argument. A
  duplicate key is MySQL's error 1062, whose text starts with ``Error 1062''. Transaction ids are
  compared as the hex text they are.
\<close>

section \<open>Tables\<close>

record db_order =
  wo_TxID :: string
  wo_SrcToken :: string
  wo_DestToken :: string
  wo_Wrap :: int
  wo_From :: string
  wo_To :: string
  wo_Amount :: string
  wo_Hash :: string
  wo_State :: int
  wo_Ts :: int
  wo_Org :: string

record database =
  tbl_swap :: "db_order list"
  tbl_error :: "db_order list"
  tbl_service :: "string \<Rightarrow> int option"

definition dup_entry :: go_error where
  "dup_entry = Errorf ''Error 1062: Duplicate entry for key txid''"

definition has_prefix :: "string \<Rightarrow> string \<Rightarrow> bool" where
  "has_prefix p s \<longleftrightarrow> take (length p) s = p"

definition is_dup :: "go_error \<Rightarrow> bool" where
  "is_dup e \<longleftrightarrow> has_prefix ''Error 1062'' (error_text e)"

section \<open>model/swap.go\<close>

text \<open>The insert leaves out \<open>hash\<close> and \<open>state\<close>, which get the schema's defaults.
  \<open>StoreSwapOrder\<close> fills in the platform of its argument, which the caller keeps using.\<close>

definition StoreSwapOrder :: "go_error option \<Rightarrow> db_order \<Rightarrow> database
    \<Rightarrow> database \<times> db_order \<times> go_error option" where
  "StoreSwapOrder fault wo db =
     (let wo = (if length (wo_Org wo) = 0 then wo\<lparr>wo_Org := ''IotaBee''\<rparr> else wo) in
      case fault of
        Some e \<Rightarrow> (db, wo, Some e)
      | None \<Rightarrow>
          if wo_TxID wo \<in> wo_TxID ` set (tbl_swap db) then (db, wo, Some dup_entry)
          else (db\<lparr>tbl_swap := tbl_swap db @ [wo\<lparr>wo_Hash := [], wo_State := 0\<rparr>]\<rparr>, wo, None))"

record tx_faults =
  f_begin :: "go_error option"
  f_delete :: "go_error option"
  f_insert :: "go_error option"
  f_commit :: "(go_error \<times> bool) option"   \<comment> \<open>and whether the server had applied it\<close>

definition MoveOrderToError :: "tx_faults \<Rightarrow> db_order \<Rightarrow> database \<Rightarrow> database \<times> go_error option" where
  "MoveOrderToError f wo db = (case f_begin f of
      Some e \<Rightarrow> (db, Some e)
    | None \<Rightarrow> (case f_delete f of
        Some e \<Rightarrow> (db, Some e)
      | None \<Rightarrow> (case f_insert f of
          Some e \<Rightarrow> (db, Some e)
        | None \<Rightarrow>
            let db' = db\<lparr>tbl_swap := filter (\<lambda>r. wo_TxID r \<noteq> wo_TxID wo) (tbl_swap db),
                         tbl_error := tbl_error db @ [wo]\<rparr> in
            (case f_commit f of
               None \<Rightarrow> (db', None)
             | Some (e, applied) \<Rightarrow> (if applied then db' else db, Some e)))))"

definition UpdateChainRecord :: "go_error option \<Rightarrow> db_order \<Rightarrow> database
    \<Rightarrow> database \<times> go_error option" where
  "UpdateChainRecord fault wo db = (case fault of
      Some e \<Rightarrow> (db, Some e)
    | None \<Rightarrow> (db\<lparr>tbl_swap := map (\<lambda>r. if wo_TxID r = wo_TxID wo
          then r\<lparr>wo_Hash := wo_Hash wo, wo_State := wo_State wo\<rparr> else r) (tbl_swap db)\<rparr>, None))"

section \<open>model/account.go\<close>

definition OverTime :: int where "OverTime = 300"

definition UpdateAccountState :: "go_error option \<Rightarrow> string \<Rightarrow> int \<Rightarrow> database
    \<Rightarrow> database \<times> go_error option" where
  "UpdateAccountState fault account now db = (case fault of
      Some e \<Rightarrow> (db, Some e)
    | None \<Rightarrow> (db\<lparr>tbl_service := (tbl_service db)(account \<mapsto> now)\<rparr>, None))"

text \<open>The accounts of the query's IN list, in the order the text has them: the first, then the
  others from the last to the second.\<close>

definition in_list :: "string list \<Rightarrow> string list" where
  "in_list accounts = hd accounts # rev (tl accounts)"

definition CheckAccountsState :: "go_error option \<Rightarrow> string list \<Rightarrow> int \<Rightarrow> database
    \<Rightarrow> bool \<times> go_error option" where
  "CheckAccountsState fault accounts now db =
     (if length accounts = 0 then (True, None)
      else case fault of
        Some e \<Rightarrow> (False, Some (Wrapf '' was closed. '' e))
      | None \<Rightarrow>
          (case filter (\<lambda>a. case tbl_service db a of None \<Rightarrow> False | Some ts \<Rightarrow> ts < now - OverTime)
                 (in_list accounts) of
             [] \<Rightarrow> (True, None)
           | a # _ \<Rightarrow> (False, Some (Errorf (a @ '' was closed. '')))))"

section \<open>model/mysql.go\<close>

definition Ping :: "go_error option option \<Rightarrow> go_error option" where
  "Ping db = (case db of
      None \<Rightarrow> Some (Errorf ''mysql connection is nil'')
    | Some None \<Rightarrow> None
    | Some (Some e) \<Rightarrow> Some (Wrapf ''connect to Mysql error : '' e))"

section \<open>The unique key\<close>

definition db_ok :: "database \<Rightarrow> bool" where
  "db_ok db \<longleftrightarrow> distinct (map wo_TxID (tbl_swap db))"

definition stored :: "database \<Rightarrow> string set" where
  "stored db = wo_TxID ` set (tbl_swap db)"

lemma dup_entry_is_dup [simp]: "is_dup dup_entry"
  by (simp add: is_dup_def dup_entry_def has_prefix_def)

lemma StoreSwapOrder_None:
  assumes "StoreSwapOrder fault wo db = (db', wo', None)"
  shows "fault = None \<and> wo_TxID wo \<notin> stored db \<and> stored db' = insert (wo_TxID wo) (stored db)"
  using assms
  by (auto simp: StoreSwapOrder_def stored_def Let_def split: option.splits if_splits)

lemma StoreSwapOrder_Some:
  assumes "StoreSwapOrder fault wo db = (db', wo', Some e)"
  shows "db' = db \<and> (fault = None \<longrightarrow> wo_TxID wo \<in> stored db)"
  using assms
  by (auto simp: StoreSwapOrder_def stored_def Let_def split: option.splits if_splits)

lemma StoreSwapOrder_order:
  assumes "StoreSwapOrder fault wo db = (db', wo', e)"
  shows "wo' = wo\<lparr>wo_Org := (if wo_Org wo = [] then ''IotaBee'' else wo_Org wo)\<rparr>"
  using assms
  by (auto simp: StoreSwapOrder_def Let_def split: option.splits if_splits)

text \<open>The insert claims the transaction id, whatever the other columns and failures are.\<close>

definition claim_row :: "go_error option \<Rightarrow> (string \<Rightarrow> db_order) \<Rightarrow> string \<Rightarrow> database
    \<Rightarrow> database \<times> bool" where
  "claim_row fault row k db = (case StoreSwapOrder fault ((row k)\<lparr>wo_TxID := k\<rparr>) db of
     (db', _, e) \<Rightarrow> (db', e = None))"

interpretation row_claim: claim_once "claim_row fault row" stored for fault row
proof unfold_locales
  fix k s s'
  assume "claim_row fault row k s = (s', True)"
  then show "k \<notin> stored s \<and> stored s' = insert k (stored s)"
    using StoreSwapOrder_None [of fault "(row k)\<lparr>wo_TxID := k\<rparr>" s]
    by (auto simp: claim_row_def split: prod.splits)
next
  fix k s s'
  assume "claim_row fault row k s = (s', False)"
  then show "stored s' = stored s"
    using StoreSwapOrder_Some [of fault "(row k)\<lparr>wo_TxID := k\<rparr>" s]
    by (auto simp: claim_row_def split: prod.splits)
qed

lemma db_ok_Store: "db_ok db \<Longrightarrow> db_ok (fst (StoreSwapOrder fault wo db))"
  by (auto simp: db_ok_def StoreSwapOrder_def Let_def split: option.splits)

lemma db_ok_Move:
  assumes "db_ok db" shows "db_ok (fst (MoveOrderToError f wo db))"
proof -
  have "distinct (map wo_TxID (filter P (tbl_swap db)))" for P
    using assms by (simp add: db_ok_def distinct_map_filter)
  with assms show ?thesis
    by (auto simp: db_ok_def MoveOrderToError_def Let_def split: option.splits)
qed

lemma db_ok_Update:
  assumes "db_ok db" shows "db_ok (fst (UpdateChainRecord fault wo db))"
proof -
  let ?upd = "\<lambda>r :: db_order. if wo_TxID r = wo_TxID wo
      then r\<lparr>wo_Hash := wo_Hash wo, wo_State := wo_State wo\<rparr> else r"
  have "wo_TxID \<circ> ?upd = wo_TxID" by (auto simp: fun_eq_iff)
  with assms show ?thesis by (simp add: db_ok_def UpdateChainRecord_def split: option.splits)
qed

section \<open>Properties\<close>

text \<open>Every statement on the order table keeps its transaction ids distinct, and an order
  is never in it twice.\<close>

theorem store_keeps_unique_txids:
  assumes "db_ok db"
  shows "db_ok (fst (StoreSwapOrder fault wo db)) \<and> db_ok (fst (MoveOrderToError f wo db)) \<and>
    db_ok (fst (UpdateChainRecord fault wo db)) \<and> db_ok (fst (UpdateAccountState fault a now db))"
  using db_ok_Store [OF assms] db_ok_Move [OF assms] db_ok_Update [OF assms] assms
  by (auto simp: UpdateAccountState_def db_ok_def split: option.splits)

definition empty_db :: database where
  "empty_db = \<lparr>tbl_swap = [], tbl_error = [], tbl_service = Map.empty\<rparr>"

definition demo_order :: "string \<Rightarrow> db_order" where
  "demo_order txid = \<lparr>wo_TxID = txid, wo_SrcToken = ''SOON'', wo_DestToken = ''sSOON'', wo_Wrap = 1,
     wo_From = ''a'', wo_To = ''b'', wo_Amount = ''5'', wo_Hash = [], wo_State = 0, wo_Ts = 1,
     wo_Org = []\<rparr>"

theorem store_keeps_unique_txids_witness:
  "db_ok (fst (StoreSwapOrder None (demo_order ''0x01'') empty_db))"
  using store_keeps_unique_txids [of empty_db None "demo_order ''0x01''"]
  by (simp add: db_ok_def empty_db_def)

text \<open>Moving an order to the error table is all or nothing: on success the order table has no
  row of that transaction any more and the error table has the order, with every other row as it
  was; when a statement fails nothing changed, except that a failed commit may have been applied.\<close>

theorem MoveOrderToError_atomic:
  assumes "MoveOrderToError f wo db = (db', e)"
  shows "(e = None \<longrightarrow> tbl_error db' = tbl_error db @ [wo] \<and>
           (\<forall>r. r \<in> set (tbl_swap db') \<longleftrightarrow> r \<in> set (tbl_swap db) \<and> wo_TxID r \<noteq> wo_TxID wo)) \<and>
         (e \<noteq> None \<and> f_commit f = None \<longrightarrow> db' = db) \<and> tbl_service db' = tbl_service db"
  using assms
  by (cases f) (auto simp: MoveOrderToError_def Let_def split: option.splits if_splits)

theorem MoveOrderToError_atomic_witness:
  "\<exists>db'. MoveOrderToError \<lparr>f_begin = None, f_delete = None, f_insert = None, f_commit = None\<rparr>
     (demo_order ''0x01'') (empty_db\<lparr>tbl_swap := [demo_order ''0x01'', demo_order ''0x02'']\<rparr>) =
     (db', None) \<and> tbl_error db' = [demo_order ''0x01'']"
proof -
  obtain db' where run: "MoveOrderToError \<lparr>f_begin = None, f_delete = None, f_insert = None,
     f_commit = None\<rparr> (demo_order ''0x01'')
     (empty_db\<lparr>tbl_swap := [demo_order ''0x01'', demo_order ''0x02'']\<rparr>) = (db', None)"
    by (simp add: MoveOrderToError_def Let_def)
  with MoveOrderToError_atomic [OF run] show ?thesis by (simp add: empty_db_def)
qed

text \<open>The accounts are reported online exactly when none of them has an entry older than 300
  seconds; an account without any entry counts as online.\<close>

theorem CheckAccountsState_iff:
  "fst (CheckAccountsState None accounts now db) \<longleftrightarrow>
     (\<forall>a \<in> set accounts. \<forall>ts. tbl_service db a = Some ts \<longrightarrow> now - 300 \<le> ts)"
proof (cases accounts)
  case (Cons a as)
  let ?old = "\<lambda>a. case tbl_service db a of None \<Rightarrow> False | Some ts \<Rightarrow> ts < now - OverTime"
  have "fst (CheckAccountsState None accounts now db) \<longleftrightarrow> filter ?old (in_list accounts) = []"
    by (simp add: CheckAccountsState_def Cons split: list.split)
  also have "\<dots> \<longleftrightarrow> (\<forall>a \<in> set accounts. \<not> ?old a)"
    by (auto simp: filter_empty_conv in_list_def Cons)
  also have "\<dots> \<longleftrightarrow> (\<forall>a \<in> set accounts. \<forall>ts. tbl_service db a = Some ts \<longrightarrow> now - 300 \<le> ts)"
    by (auto simp: OverTime_def not_less split: option.splits)
  finally show ?thesis .
qed (simp add: CheckAccountsState_def)

lemma no_overdue:
  assumes "fst (CheckAccountsState fault accounts now db)"
  shows "\<forall>a \<in> set accounts. \<forall>ts. tbl_service db a = Some ts \<longrightarrow> now - 300 \<le> ts"
proof -
  have "fault = None \<or> accounts = []"
    using assms by (cases fault) (auto simp: CheckAccountsState_def split: if_splits)
  then have "fst (CheckAccountsState None accounts now db)" using assms by (auto simp: CheckAccountsState_def)
  then show ?thesis by (simp only: CheckAccountsState_iff)
qed

theorem CheckAccountsState_iff_witness:
  "fst (CheckAccountsState None [''a'', ''b''] 1000
     (empty_db\<lparr>tbl_service := [''a'' \<mapsto> 900]\<rparr>))"
  using CheckAccountsState_iff [of "[''a'', ''b'']" 1000 "empty_db\<lparr>tbl_service := [''a'' \<mapsto> 900]\<rparr>"]
  by simp

end
