(* ===== verification/Server_Queues.thy ===== *)
theory Server_Queues
  imports Store
begin

text \<open>
  Package server, var.go: the server's memory. \<open>DealedOrdersCheck\<close> (the orders handled since the
  last daily reset), \<open>SentIotaTx\<close> (sent unwrap transactions to be checked),
  \<open>SentEvmTxQueue\<close> (sent EVM transactions to be checked and sped up) and \<open>SentEvmTxMap\<close> (the
  user transactions an EVM transaction was sent for, with the time).

  The two queues keep parallel slices; an operation on slices of different length panics, and
  the invariants \<open>iota_ok\<close> and \<open>evm_ok\<close> say that they have the same length. The mutexes make
  each method one step. The type variable is the token type.
\<close>

section \<open>DealedOrdersCheck\<close>

type_synonym dealed_orders = "string \<Rightarrow> bool option"

definition NewDealedOrdersCheck :: dealed_orders where
  "NewDealedOrdersCheck = Map.empty"

definition Check :: "string \<Rightarrow> dealed_orders \<Rightarrow> dealed_orders \<times> bool" where
  "Check txid dealed = (case dealed txid of
      Some _ \<Rightarrow> (dealed, False)
    | None \<Rightarrow> (dealed(txid \<mapsto> True), True))"

definition dealed_expired :: "dealed_orders \<Rightarrow> dealed_orders" where
  "dealed_expired dealed = Map.empty"

interpretation dealed: claim_always Check dom
  by unfold_locales (auto simp: Check_def split: option.splits)

section \<open>SentIotaTx\<close>

record 't sent_iota =
  si_orders :: "db_order list"
  si_ts :: "'t list"

definition iota_push :: "db_order \<Rightarrow> 't \<Rightarrow> 't sent_iota \<Rightarrow> 't sent_iota" where
  "iota_push order t sit = \<lparr>si_orders = si_orders sit @ [order], si_ts = si_ts sit @ [t]\<rparr>"

definition iota_pop :: "'t sent_iota \<Rightarrow> ('t sent_iota \<times> (db_order \<times> 't) option) outcome" where
  "iota_pop sit =
     (if length (si_orders sit) = 0 then Ok (sit, None)
      else obind (index_at 0 (si_orders sit)) (\<lambda>txid.
           obind (slice_from 1 (si_orders sit)) (\<lambda>orders.
           obind (index_at 0 (si_ts sit)) (\<lambda>t.
           obind (slice_from 1 (si_ts sit)) (\<lambda>ts.
           Ok (\<lparr>si_orders = orders, si_ts = ts\<rparr>, Some (txid, t)))))))"

definition iota_ok :: "'t sent_iota \<Rightarrow> bool" where
  "iota_ok sit \<longleftrightarrow> length (si_orders sit) = length (si_ts sit)"

definition iota_items :: "'t sent_iota \<Rightarrow> (db_order \<times> 't) list" where
  "iota_items sit = zip (si_orders sit) (si_ts sit)"

definition empty_sent_iota :: "'t sent_iota" where
  "empty_sent_iota = \<lparr>si_orders = [], si_ts = []\<rparr>"

lemma iota_pop_ok:
  assumes "iota_ok sit"
  shows "\<exists>sit'. iota_pop sit = Ok (sit', case iota_items sit of [] \<Rightarrow> None | x # _ \<Rightarrow> Some x) \<and>
    iota_ok sit' \<and> iota_items sit' = tl (iota_items sit)"
  using assms
  by (cases "si_orders sit"; cases "si_ts sit")
    (auto simp: iota_pop_def iota_ok_def iota_items_def go_simps)

interpretation iota_queue: fifo "\<lambda>(order, t). iota_push order t"
  "\<lambda>sit. obind (iota_pop sit) (\<lambda>(sit', _). Ok sit')" "\<lambda>sit. obind (iota_pop sit) (\<lambda>(_, x). Ok x)"
  iota_items iota_ok
proof unfold_locales
  fix q :: "'t sent_iota"
  assume ok: "iota_ok q"
  show "\<exists>q'. obind (iota_pop q) (\<lambda>(sit', _). Ok sit') = Ok q' \<and> iota_ok q' \<and>
      iota_items q' = tl (iota_items q)"
    using iota_pop_ok [OF ok] by auto
  show "obind (iota_pop q) (\<lambda>(_, x). Ok x) =
      Ok (case iota_items q of [] \<Rightarrow> None | x # _ \<Rightarrow> Some x)"
    using iota_pop_ok [OF ok] by auto
qed (auto simp: iota_ok_def iota_items_def iota_push_def)

section \<open>SentEvmTxQueue\<close>

record 't evm_queue =
  q_txHashs :: "bytes list"
  q_chains :: "'t list"
  q_times :: "int list"

definition NewSentEvmTxQueue :: "'t evm_queue" where
  "NewSentEvmTxQueue = \<lparr>q_txHashs = [], q_chains = [], q_times = []\<rparr>"

definition evm_Push :: "bytes \<Rightarrow> 't \<Rightarrow> int \<Rightarrow> 't evm_queue \<Rightarrow> 't evm_queue" where
  "evm_Push txHash t ts q = \<lparr>q_txHashs = q_txHashs q @ [txHash], q_chains = q_chains q @ [t],
     q_times = q_times q @ [ts]\<rparr>"

definition evm_Pop :: "'t evm_queue \<Rightarrow> 't evm_queue outcome" where
  "evm_Pop q =
     (if length (q_txHashs q) = 0 then Ok q
      else obind (slice_from 1 (q_txHashs q)) (\<lambda>hs.
           obind (slice_from 1 (q_chains q)) (\<lambda>cs.
           obind (slice_from 1 (q_times q)) (\<lambda>ts.
           Ok \<lparr>q_txHashs = hs, q_chains = cs, q_times = ts\<rparr>))))"

text \<open>\<open>Top\<close> of an empty queue is the zero hash, a nil token and time 0.\<close>

definition evm_Top :: "'t evm_queue \<Rightarrow> (bytes \<times> 't option \<times> int) outcome" where
  "evm_Top q =
     (if length (q_txHashs q) = 0 then Ok (replicate 32 0, None, 0)
      else obind (index_at 0 (q_txHashs q)) (\<lambda>h.
           obind (index_at 0 (q_chains q)) (\<lambda>c.
           obind (index_at 0 (q_times q)) (\<lambda>ts.
           Ok (h, Some c, ts)))))"

definition evm_UpdateTop :: "bytes \<Rightarrow> 't \<Rightarrow> int \<Rightarrow> 't evm_queue \<Rightarrow> 't evm_queue outcome" where
  "evm_UpdateTop txHash t ts q =
     (if length (q_txHashs q) = 0 then Ok q
      else if q_chains q = [] \<or> q_times q = [] then Panic ''index out of range''
      else Ok \<lparr>q_txHashs = (q_txHashs q)[0 := txHash], q_chains = (q_chains q)[0 := t],
             q_times = (q_times q)[0 := ts]\<rparr>)"

definition evm_ok :: "'t evm_queue \<Rightarrow> bool" where
  "evm_ok q \<longleftrightarrow> length (q_chains q) = length (q_txHashs q) \<and> length (q_times q) = length (q_txHashs q)"

definition evm_items :: "'t evm_queue \<Rightarrow> (bytes \<times> 't \<times> int) list" where
  "evm_items q = zip (q_txHashs q) (zip (q_chains q) (q_times q))"

lemma evm_items_cases:
  assumes "evm_ok q"
  obtains "evm_items q = []" "q = NewSentEvmTxQueue"
  | h hs c cs t ts where "q = \<lparr>q_txHashs = h # hs, q_chains = c # cs, q_times = t # ts\<rparr>"
      "evm_items q = (h, c, t) # evm_items \<lparr>q_txHashs = hs, q_chains = cs, q_times = ts\<rparr>"
      "evm_ok \<lparr>q_txHashs = hs, q_chains = cs, q_times = ts\<rparr>"
  using assms
  by (cases q; cases "q_txHashs q"; cases "q_chains q"; cases "q_times q")
    (auto simp: evm_ok_def evm_items_def NewSentEvmTxQueue_def)

lemma evm_Pop_ok:
  assumes "evm_ok q"
  shows "\<exists>q'. evm_Pop q = Ok q' \<and> evm_ok q' \<and> evm_items q' = tl (evm_items q)"
  using assms by (rule evm_items_cases)
    (auto simp: evm_Pop_def NewSentEvmTxQueue_def go_simps evm_ok_def evm_items_def)

lemma evm_Top_ok:
  assumes "evm_ok q"
  shows "evm_Top q = Ok (case evm_items q of [] \<Rightarrow> (replicate 32 0, None, 0)
    | (h, c, t) # _ \<Rightarrow> (h, Some c, t))"
  using assms by (rule evm_items_cases)
    (auto simp: evm_Top_def NewSentEvmTxQueue_def go_simps)

lemma evm_UpdateTop_ok:
  assumes "evm_ok q"
  shows "\<exists>q'. evm_UpdateTop h c t q = Ok q' \<and> evm_ok q' \<and>
    evm_items q' = (case evm_items q of [] \<Rightarrow> [] | _ # xs \<Rightarrow> (h, c, t) # xs)"
  using assms by (rule evm_items_cases)
    (auto simp: evm_UpdateTop_def NewSentEvmTxQueue_def evm_ok_def evm_items_def)

lemma evm_Push_ok:
  assumes "evm_ok q"
  shows "evm_ok (evm_Push h c t q)" "evm_items (evm_Push h c t q) = evm_items q @ [(h, c, t)]"
  using assms by (auto simp: evm_ok_def evm_items_def evm_Push_def)

lemma evm_New_ok [simp]: "evm_ok NewSentEvmTxQueue" "evm_items NewSentEvmTxQueue = []"
  by (simp_all add: NewSentEvmTxQueue_def evm_ok_def evm_items_def)

definition evm_front :: "'t evm_queue \<Rightarrow> (bytes \<times> 't \<times> int) option outcome" where
  "evm_front q = obind (evm_Top q) (\<lambda>(h, c, t). Ok (map_option (\<lambda>c. (h, c, t)) c))"

interpretation evm_queue: fifo "\<lambda>(h, c, t). evm_Push h c t" evm_Pop evm_front evm_items evm_ok
proof unfold_locales
  fix q :: "'t evm_queue"
  assume ok: "evm_ok q"
  show "\<exists>q'. evm_Pop q = Ok q' \<and> evm_ok q' \<and> evm_items q' = tl (evm_items q)"
    using ok by (rule evm_Pop_ok)
  show "evm_front q = Ok (case evm_items q of [] \<Rightarrow> None | x # _ \<Rightarrow> Some x)"
    using evm_Top_ok [OF ok] by (simp add: evm_front_def split: list.split prod.split)
qed (auto simp: evm_Push_ok)

section \<open>SentEvmTxMap\<close>

type_synonym sent_evm_map = "string \<Rightarrow> int option"

definition NewSentEvmMap :: sent_evm_map where "NewSentEvmMap = Map.empty"

definition map_Push :: "bytes \<Rightarrow> int \<Rightarrow> sent_evm_map \<Rightarrow> sent_evm_map" where
  "map_Push tx now m = m(hex_encode tx \<mapsto> now)"

definition map_Exist :: "bytes \<Rightarrow> sent_evm_map \<Rightarrow> bool" where
  "map_Exist tx m \<longleftrightarrow> m (hex_encode tx) \<noteq> None"

definition map_expired :: "int \<Rightarrow> sent_evm_map \<Rightarrow> sent_evm_map" where
  "map_expired now m = (\<lambda>tx. case m tx of None \<Rightarrow> None
     | Some ts \<Rightarrow> if now - 86400 < ts then Some ts else None)"

section \<open>Properties\<close>

text \<open>What happens to the handled orders: checks of order ids and the daily reset.\<close>

datatype dealed_event = CheckOrder string | DailyReset

fun dealed_run :: "dealed_event list \<Rightarrow> dealed_orders \<Rightarrow> string list" where
  "dealed_run [] d = []"
| "dealed_run (CheckOrder txid # es) d = (case Check txid d of
      (d', ok) \<Rightarrow> if ok then txid # dealed_run es d' else dealed_run es d')"
| "dealed_run (DailyReset # es) d = dealed_run es (dealed_expired d)"

lemma dealed_run_count:
  "count_list (dealed_run es d) txid \<le>
     count_list es DailyReset + (if txid \<in> dom d then 0 else 1)"
proof (induction es d rule: dealed_run.induct)
  case (2 tx es d)
  obtain d' ok where c: "Check tx d = (d', ok)" by fastforce
  show ?case
  proof (cases ok)
    case True
    have "tx \<notin> dom d \<and> dom d' = insert tx (dom d)"
      using c True by (intro dealed.claim_granted) simp
    with "2.IH" [OF c [symmetric]] True c show ?thesis by (auto split: if_splits)
  next
    case False
    have "dom d' = dom d" using c False by (intro dealed.claim_refused) simp
    with "2.IH" [OF c [symmetric]] False c show ?thesis by (auto split: if_splits)
  qed
qed (auto simp: dealed_expired_def split: if_splits)

text \<open>Between two daily resets an order passes \<open>DealedOrdersCheck\<close> at most once: in any
  sequence of checks and resets, the checks of an id that say yes are at most one more than the
  resets, and with no reset the ids that pass are distinct and are all that were asked for.\<close>

theorem dealed_at_most_once:
  "count_list (dealed_run es NewDealedOrdersCheck) txid \<le> count_list es DailyReset + 1 \<and>
   (\<exists>d granted. claim_all Check ids NewDealedOrdersCheck = (d, granted) \<and> distinct granted \<and>
      set granted = set ids)"
proof -
  obtain d granted where c: "claim_all Check ids NewDealedOrdersCheck = (d, granted)" by fastforce
  have "distinct granted" using dealed.claim_all_distinct [OF c] by blast
  moreover have "set granted = set ids"
    using dealed.claim_all_complete [OF c] by (simp add: NewDealedOrdersCheck_def)
  moreover have "count_list (dealed_run es NewDealedOrdersCheck) txid \<le> count_list es DailyReset + 1"
    using dealed_run_count [of es NewDealedOrdersCheck txid] by (auto split: if_splits)
  ultimately show ?thesis using c by blast
qed

text \<open>The queue of sent EVM transactions is first-in first-out and its methods never panic:
  from an empty queue, after any pushes and fewer pops, \<open>Top\<close> is the oldest transaction left,
  with the token and the time it was pushed with.\<close>

theorem evm_queue_fifo:
  assumes "n < length xs"
  shows "\<exists>q. repeat_op evm_Pop n (fold (\<lambda>(h, c, t). evm_Push h c t) xs NewSentEvmTxQueue) = Ok q \<and>
    evm_Top q = Ok (fst (xs ! n), Some (fst (snd (xs ! n))), snd (snd (xs ! n)))"
proof -
  obtain q where q: "repeat_op evm_Pop n (fold (\<lambda>(h, c, t). evm_Push h c t) xs NewSentEvmTxQueue) = Ok q"
    and front: "evm_front q = Ok (Some (xs ! n))"
    using evm_queue.front_after [of NewSentEvmTxQueue n xs] assms by auto
  obtain h c t where "evm_Top q = Ok (h, c, t)"
    using front by (cases "evm_Top q") (auto simp: evm_front_def)
  with front show ?thesis using q by (cases "xs ! n") (auto simp: evm_front_def)
qed

theorem evm_queue_fifo_witness:
  "\<exists>q. repeat_op evm_Pop 1 (fold (\<lambda>(h, c, t). evm_Push h c t)
      [([1], ''a'', 10), ([2], ''b'', 11)] NewSentEvmTxQueue) = Ok q \<and> evm_Top q = Ok ([2], Some ''b'', 11)"
  using evm_queue_fifo [of 1 "[([1], ''a'', 10), ([2], ''b'', 11)]"] by simp

text \<open>The queue of sent unwrap transactions hands them out in the order they were pushed, each
  with its own token, and never panics.\<close>

theorem iota_queue_fifo:
  assumes "n < length xs"
  shows "\<exists>q q'. repeat_op (\<lambda>sit. obind (iota_pop sit) (\<lambda>(sit', _). Ok sit')) n (fold (\<lambda>(order, t). iota_push order t) xs empty_sent_iota) = Ok q \<and>
    iota_pop q = Ok (q', Some (xs ! n))"
proof -
  have e: "iota_ok empty_sent_iota" "iota_items empty_sent_iota = []"
    by (simp_all add: empty_sent_iota_def iota_ok_def iota_items_def)
  obtain q where q: "repeat_op (\<lambda>sit. obind (iota_pop sit) (\<lambda>(sit', _). Ok sit')) n (fold (\<lambda>(order, t). iota_push order t) xs empty_sent_iota) = Ok q"
    and front: "obind (iota_pop q) (\<lambda>(_, x). Ok x) = Ok (Some (xs ! n))"
    using iota_queue.front_after [OF e assms] by auto
  then show ?thesis by (cases "iota_pop q") auto
qed

theorem iota_queue_fifo_witness:
  "\<exists>q q'. repeat_op (\<lambda>sit. obind (iota_pop sit) (\<lambda>(sit', _). Ok sit')) 1 (fold (\<lambda>(order, t). iota_push order t)
      [(demo_order ''1'', ''a''), (demo_order ''2'', ''b'')] empty_sent_iota) = Ok q \<and>
    iota_pop q = Ok (q', Some (demo_order ''2'', ''b''))"
  using iota_queue_fifo [of 1 "[(demo_order ''1'', ''a''), (demo_order ''2'', ''b'')]"] by simp

text \<open>A user transaction that was served stays known for a day: after \<open>Push\<close> at time
  \<open>t\<close>, whatever other transactions are pushed, it survives a cleanup exactly when the cleanup
  runs less than 86400 seconds later.\<close>

theorem sent_map_keeps_a_day:
  assumes "other \<noteq> tx"
  shows "map_Exist tx (map_expired now (map_Push other t' (map_Push tx t m))) \<longleftrightarrow> now < t + 86400"
  using assms by (auto simp: map_Exist_def map_expired_def map_Push_def)

theorem sent_map_keeps_a_day_witness:
  "map_Exist [1] (map_expired 1000 (map_Push [2] 960 (map_Push [1] 950 NewSentEvmMap)))"
  using sent_map_keeps_a_day [of "[2]" "[1]" 1000 960 950 NewSentEvmMap] by simp

end
