(* ===== verification/Chain_Types.thy ===== *)
theory Chain_Types
  imports Prelude_Go
begin

text \<open>
  Package tokens (tokens/token.go): the values that pass between the chain listeners, the
  contracts and the server, and the library functions of go-ethereum they are written with.

  \<open>swap_order\<close>, \<open>tx_error_record\<close> and \<open>base_tx\<close> are the structs of token.go. A
  \<open>*big.Int\<close> that may be nil is an \<open>int option\<close>. The functions of go-ethereum's
  \<open>common\<close>, \<open>hexutil\<close> and \<open>crypto\<close> packages are the fields of \<open>eth_lib\<close>, a
  parameter; \<open>eth_lib_ok\<close> states what their documentation promises and the code relies on,
  and \<open>eth_demo\<close> is one such library.
\<close>

section \<open>The structs of tokens/token.go\<close>

definition EvmMultiSign :: int where "EvmMultiSign = 0"
definition SmpcSign :: int where "SmpcSign = 2"
definition CenterSign :: int where "CenterSign = 3"

definition ListenEvent :: int where "ListenEvent = 0"
definition ScanBlock :: int where "ScanBlock = 1"

record base_tx =
  bt_Txid :: bytes
  bt_To :: string
  bt_Amount :: "int option"

record swap_order =
  so_TxID :: string
  so_FromToken :: string
  so_ToToken :: string
  so_From :: string
  so_To :: string
  so_Amount :: "int option"
  so_Org :: string
  so_Error :: "go_error option"
  so_Type :: nat

record tx_error_record =
  ter_D :: int
  ter_Txid :: bytes
  ter_FromCoin :: string
  ter_ToCoin :: string
  ter_Error :: "go_error option"
  ter_Type :: nat

text \<open>An order that only reports an error: every other field has its zero value.\<close>

definition error_order :: "nat \<Rightarrow> go_error \<Rightarrow> swap_order" where
  "error_order ty e = \<lparr>so_TxID = [], so_FromToken = [], so_ToToken = [], so_From = [], so_To = [],
     so_Amount = None, so_Org = [], so_Error = Some e, so_Type = ty\<rparr>"

definition error_record :: "nat \<Rightarrow> go_error \<Rightarrow> tx_error_record" where
  "error_record ty e = \<lparr>ter_D = 0, ter_Txid = [], ter_FromCoin = [], ter_ToCoin = [],
     ter_Error = Some e, ter_Type = ty\<rparr>"

lemma error_order_simps [simp]:
  "so_Error (error_order ty e) = Some e" "so_Type (error_order ty e) = ty"
  "so_Amount (error_order ty e) = None" "so_TxID (error_order ty e) = []"
  by (simp_all add: error_order_def)

text \<open>The orders on a channel that are not errors; and the messages after which the reader goes on.\<close>

definition valid_orders :: "swap_order list \<Rightarrow> swap_order list" where
  "valid_orders = filter (\<lambda>order. so_Error order = None)"

definition goes_on :: "swap_order \<Rightarrow> bool" where
  "goes_on order \<longleftrightarrow> so_Error order = None \<or> so_Type order \<noteq> 0"

lemma valid_orders_append [simp]: "valid_orders (xs @ ys) = valid_orders xs @ valid_orders ys"
  by (simp add: valid_orders_def)

lemma list_all_butlast: "list_all P xs \<Longrightarrow> list_all P (butlast xs)"
  by (auto simp: list_all_iff dest: in_set_butlastD)

lemma error_record_simps [simp]:
  "ter_Error (error_record ty e) = Some e" "ter_Type (error_record ty e) = ty"
  by (simp_all add: error_record_def)

section \<open>The library functions of go-ethereum\<close>

record eth_lib =
  FromHex :: "string \<Rightarrow> bytes"                 \<comment> \<open>\<open>common.FromHex\<close>\<close>
  Hex2Bytes :: "string \<Rightarrow> bytes"              \<comment> \<open>\<open>common.Hex2Bytes\<close>, which knows no 0x\<close>
  Bytes2Hex :: "bytes \<Rightarrow> string"               \<comment> \<open>\<open>common.Bytes2Hex\<close>\<close>
  BytesToHash :: "bytes \<Rightarrow> bytes"
  BytesToAddress :: "bytes \<Rightarrow> bytes"
  HexToAddress :: "string \<Rightarrow> bytes"
  LeftPadBytes :: "bytes \<Rightarrow> nat \<Rightarrow> bytes"
  address_Hex :: "bytes \<Rightarrow> string"             \<comment> \<open>\<open>Address.Hex\<close>, the checksummed form\<close>
  hash_Hex :: "bytes \<Rightarrow> string"                \<comment> \<open>\<open>Hash.Hex\<close>\<close>
  hexutil_Encode :: "bytes \<Rightarrow> string"
  Keccak256 :: "bytes \<Rightarrow> bytes"

definition eth_lib_ok :: "eth_lib \<Rightarrow> bool" where
  "eth_lib_ok L \<longleftrightarrow>
     (\<forall>b. FromHex L (Bytes2Hex L b) = b) \<and>
     (\<forall>b. FromHex L (hexutil_Encode L b) = b) \<and>
     (\<forall>h. length h = 32 \<longrightarrow> FromHex L (hash_Hex L h) = h) \<and>
     (\<forall>a. length a = 20 \<longrightarrow> FromHex L (address_Hex L a) = a) \<and>
     (\<forall>b. length (BytesToHash L b) = 32) \<and>
     (\<forall>b. length b = 32 \<longrightarrow> BytesToHash L b = b) \<and>
     (\<forall>b. length (BytesToAddress L b) = 20) \<and>
     (\<forall>b. 20 \<le> length b \<longrightarrow> BytesToAddress L b = drop (length b - 20) b) \<and>
     (\<forall>s. HexToAddress L s = BytesToAddress L (FromHex L s)) \<and>
     (\<forall>b n. LeftPadBytes L b n = replicate (n - length b) 0 @ b) \<and>
     (\<forall>b. length (Keccak256 L b) = 32)"

lemma eth_lib_okD:
  assumes "eth_lib_ok L"
  shows "FromHex L (Bytes2Hex L b) = b" "FromHex L (hexutil_Encode L b) = b"
    "length b = 32 \<Longrightarrow> FromHex L (hash_Hex L b) = b"
    "length b = 20 \<Longrightarrow> FromHex L (address_Hex L b) = b"
    "length (BytesToHash L b) = 32" "length b = 32 \<Longrightarrow> BytesToHash L b = b"
    "length (BytesToAddress L b) = 20"
    "20 \<le> length b \<Longrightarrow> BytesToAddress L b = drop (length b - 20) b"
    "HexToAddress L s = BytesToAddress L (FromHex L s)"
    "LeftPadBytes L b n = replicate (n - length b) 0 @ b" "length (Keccak256 L b) = 32"
  using assms by (simp_all add: eth_lib_ok_def)

text \<open>One library that keeps these promises, for the witnesses: lower-case hex text, and in place
  of the digest the first 32 bytes of the zero-padded text.\<close>

definition strip_0x :: "string \<Rightarrow> string" where
  "strip_0x s = (if take 2 s = ''0x'' then drop 2 s else s)"

definition demo_FromHex :: "string \<Rightarrow> bytes" where
  "demo_FromHex s = (case hex_decode (strip_0x s) of Inl e \<Rightarrow> [] | Inr b \<Rightarrow> b)"

definition right_bytes :: "nat \<Rightarrow> bytes \<Rightarrow> bytes" where
  "right_bytes n b = replicate (n - length b) 0 @ drop (length b - n) b"

definition eth_demo :: eth_lib where
  "eth_demo = \<lparr>FromHex = demo_FromHex,
     Hex2Bytes = (\<lambda>s. case hex_decode s of Inl e \<Rightarrow> [] | Inr b \<Rightarrow> b), Bytes2Hex = hex_encode,
     BytesToHash = right_bytes 32, BytesToAddress = right_bytes 20,
     HexToAddress = (\<lambda>s. right_bytes 20 (demo_FromHex s)),
     LeftPadBytes = (\<lambda>b n. replicate (n - length b) 0 @ b),
     address_Hex = (\<lambda>a. ''0x'' @ hex_encode a), hash_Hex = (\<lambda>h. ''0x'' @ hex_encode h),
     hexutil_Encode = (\<lambda>h. ''0x'' @ hex_encode h),
     Keccak256 = (\<lambda>b. take 32 (b @ replicate 32 0))\<rparr>"

lemma demo_FromHex_0x [simp]: "demo_FromHex (CHR ''0'' # CHR ''x'' # hex_encode b) = b"
  by (simp add: demo_FromHex_def strip_0x_def)

lemma hex_digit_neq_x: "n < 16 \<Longrightarrow> hex_digit n \<noteq> CHR ''x''"
  using from_hex_char_digit [of n] by (auto simp: from_hex_char_def)

lemma strip_0x_hex_encode: "strip_0x (hex_encode b) = hex_encode b"
proof (cases b)
  case (Cons x xs)
  have "hex_digit (unat x mod 16) \<noteq> CHR ''x''" by (rule hex_digit_neq_x) simp
  with Cons show ?thesis by (simp add: strip_0x_def hex_encode_def)
qed (simp add: strip_0x_def hex_encode_def)

lemma demo_FromHex_hex [simp]: "demo_FromHex (hex_encode b) = b"
  by (simp add: demo_FromHex_def strip_0x_hex_encode)

lemma eth_demo_ok: "eth_lib_ok eth_demo"
  by (auto simp: eth_lib_ok_def eth_demo_def right_bytes_def)

section \<open>Event topics and method selectors\<close>

definition topic :: "eth_lib \<Rightarrow> string \<Rightarrow> bytes" where
  "topic L sig = Keccak256 L (bytes_of_string sig)"

definition EventUnWrapFailed :: "eth_lib \<Rightarrow> bytes" where
  "EventUnWrapFailed L = topic L ''UnWrapFailed(bytes32,bytes32,bytes32)''"

definition EventWrapFailed :: "eth_lib \<Rightarrow> bytes" where
  "EventWrapFailed L = topic L ''WrapFailed(bytes32,bytes32,bytes32)''"

definition EventUnWrap :: "eth_lib \<Rightarrow> bytes" where
  "EventUnWrap L = topic L ''UnWrap(address,bytes32,bytes32,uint256)''"

definition EventWrap :: "eth_lib \<Rightarrow> bytes" where
  "EventWrap L = topic L ''Wrap(address,address,bytes32,uint256)''"

definition MethodWrap :: "eth_lib \<Rightarrow> bytes" where
  "MethodWrap L = topic L ''wrap(bytes32,uint256,address)''"

definition MethodSend :: "eth_lib \<Rightarrow> bytes" where
  "MethodSend L = topic L ''send(bytes32,uint256,address)''"

definition MethodUnWrap :: "eth_lib \<Rightarrow> bytes" where
  "MethodUnWrap L = topic L ''unWrap(bytes32,bytes32,uint256)''"

lemma length_topic: "eth_lib_ok L \<Longrightarrow> length (topic L s) = 32"
  by (simp add: topic_def eth_lib_okD)

section \<open>Logs and filters\<close>

record eth_log =
  lg_Address :: bytes
  lg_Topics :: "bytes list"
  lg_Data :: bytes
  lg_TxHash :: bytes
  lg_Removed :: bool

record filter_query =
  q_BlockHash :: "bytes option"
  q_FromBlock :: "u64 option"
  q_ToBlock :: "u64 option"
  q_Addresses :: "bytes list"
  q_Topics :: "bytes list list"

end
