(* ===== verification/Evm_Contract.thy ===== *)
theory Evm_Contract
  imports Chain_Types
begin

text \<open>
  Package tokens/evm, contract.go: the token on an EVM chain. \<open>evm_token\<close> is the struct
  \<open>EvmToken\<close> without its client; the client, its node and the signing functions are the
  parameter \<open>eth_env\<close>, one field per remote call or library function, asked at most once in a
  run of an operation. Every transaction handed to \<open>SendTransaction\<close> is returned in a trace,
  whether the node accepted it or not. The interface methods have the suffix \<open>_evm\<close>.
\<close>

section \<open>The token and its node\<close>

record evm_token =
  ev_rpc :: string
  ev_wss :: string
  ev_chainId :: int
  ev_symbol :: string
  ev_contract :: bytes
  ev_account :: bytes
  ev_ListenType :: int
  ev_ScanMaxHeight :: u64
  ev_GasPriceUpper :: int

record eth_tx =
  tx_Nonce :: u64
  tx_To :: "bytes option"
  tx_Value :: int
  tx_Gas :: u64
  tx_GasPrice :: int
  tx_Data :: bytes

record signed_tx =
  st_tx :: eth_tx
  st_sig :: bytes

record tx_receipt =
  rc_Status :: u64
  rc_BlockHash :: bytes

text \<open>The struct \<open>Receipt\<close> of contract.go, and the optional fields its JSON form has.\<close>

record evm_receipt =
  er_From :: bytes
  er_To :: bytes
  er_Status :: u64

record receipt_json =
  rj_From :: "bytes option"
  rj_To :: "bytes option"
  rj_Status :: "u64 option"

definition zero_receipt :: evm_receipt where
  "zero_receipt = \<lparr>er_From = replicate 20 0, er_To = replicate 20 0, er_Status = 0\<rparr>"

definition Receipt_UnmarshalJSON ::
    "receipt_json rpc \<Rightarrow> evm_receipt \<Rightarrow> evm_receipt rpc" where
  "Receipt_UnmarshalJSON input r = (case input of
      Inl e \<Rightarrow> Inl e
    | Inr dec \<Rightarrow> Inr
        \<lparr>er_From = (case rj_From dec of None \<Rightarrow> er_From r | Some a \<Rightarrow> a),
         er_To = (case rj_To dec of None \<Rightarrow> er_To r | Some a \<Rightarrow> a),
         er_Status = (case rj_Status dec of None \<Rightarrow> er_Status r | Some s \<Rightarrow> s)\<rparr>)"

record eth_env =
  TransactionReceipt :: "bytes \<Rightarrow> tx_receipt rpc"
  TransactionByHash :: "bytes \<Rightarrow> (eth_tx \<times> bool) rpc"
  FilterLogs :: "filter_query \<Rightarrow> eth_log list rpc"
  PendingNonceAt :: "bytes \<Rightarrow> u64 rpc"
  SuggestGasPrice :: "int rpc"
  SendTransaction :: "signed_tx \<Rightarrow> go_error option"
  SignTx :: "eth_tx \<Rightarrow> int \<Rightarrow> bytes \<Rightarrow> signed_tx rpc"       \<comment> \<open>chain id, private key\<close>
  tx_Hash :: "signed_tx \<Rightarrow> bytes"
  Tx_UnmarshalJSON :: "bytes \<Rightarrow> eth_tx"
  WithSignature :: "eth_tx \<Rightarrow> int \<Rightarrow> bytes \<Rightarrow> signed_tx option" \<comment> \<open>nil on an error\<close>
  rpc_Dial :: "string \<Rightarrow> unit rpc"
  eth_getTransactionReceipt :: "bytes \<Rightarrow> receipt_json rpc option rpc"
    \<comment> \<open>the call fails, or answers null or a receipt, whose JSON may not decode\<close>
  NetworkID :: "int rpc"

definition NewTransaction :: "u64 \<Rightarrow> bytes \<Rightarrow> int \<Rightarrow> u64 \<Rightarrow> int \<Rightarrow> bytes \<Rightarrow> eth_tx" where
  "NewTransaction nonce to value gas price data =
     \<lparr>tx_Nonce = nonce, tx_To = Some to, tx_Value = value, tx_Gas = gas, tx_GasPrice = price,
      tx_Data = data\<rparr>"

definition GasLimit :: u64 where "GasLimit = 300000"

section \<open>Operations\<close>

definition NewEvmToken ::
    "eth_lib \<Rightarrow> eth_env \<Rightarrow> string \<Rightarrow> string \<Rightarrow> string \<Rightarrow> string \<Rightarrow> bytes \<Rightarrow> int \<Rightarrow> u64 \<Rightarrow> int
       \<Rightarrow> evm_token rpc" where
  "NewEvmToken L N rpc wss conAddr symbol account listenType maxHeight gasPriceUpper =
     (case rpc_Dial N rpc of
        Inl e \<Rightarrow> Inl e
      | Inr c \<Rightarrow> (case NetworkID N of
          Inl e \<Rightarrow> Inl e
        | Inr chainId \<Rightarrow>
            if gasPriceUpper > 100 then Inl (Errorf ''GasPriceUpper is over 100'')
            else Inr \<lparr>ev_rpc = rpc, ev_wss = wss, ev_chainId = chainId, ev_symbol = symbol,
              ev_contract = HexToAddress L conAddr, ev_account = account,
              ev_ListenType = listenType, ev_ScanMaxHeight = maxHeight,
              ev_GasPriceUpper = gasPriceUpper\<rparr>))"

definition MultiSignType_evm :: "evm_token \<Rightarrow> int" where
  "MultiSignType_evm t = EvmMultiSign"

definition ChainID_evm :: "evm_token \<Rightarrow> string" where
  "ChainID_evm t = int_text (ev_chainId t)"

definition Symbol_evm :: "evm_token \<Rightarrow> string" where
  "Symbol_evm t = ev_symbol t"

definition PublicKey_evm :: "evm_token \<Rightarrow> bytes" where
  "PublicKey_evm t = []"

definition KeyType_evm :: "evm_token \<Rightarrow> string" where
  "KeyType_evm t = ''EC256K1''"

definition Address_evm :: "eth_lib \<Rightarrow> evm_token \<Rightarrow> string" where
  "Address_evm L t = address_Hex L (ev_contract t)"

definition CheckSentTx_evm :: "eth_lib \<Rightarrow> eth_env \<Rightarrow> bytes \<Rightarrow> bool \<times> go_error option" where
  "CheckSentTx_evm L N txid = (case TransactionReceipt N (BytesToHash L txid) of
      Inl e \<Rightarrow> (True, Some (Wrapf ''transactionReceipt error. '' e))
    | Inr ftx \<Rightarrow>
        if rc_Status ftx = 0 then (False, Some (Errorf ''tx sent error. ''))
        else (True, None))"

text \<open>The loop of \<open>CheckUserTx\<close> over the logs of the block: the first log of the transaction that
  is a wrap or an unwrap event decides.\<close>

fun user_tx_logs :: "eth_lib \<Rightarrow> bytes \<Rightarrow> int \<Rightarrow> eth_log list
    \<Rightarrow> (string \<times> string \<times> int option) outcome" where
  "user_tx_logs L txid d [] = Err (Errorf ''don't find user's transaction. '')"
| "user_tx_logs L txid d (lg # lgs) =
     (if txid \<noteq> lg_TxHash lg then user_tx_logs L txid d lgs
      else obind (index_at 0 (lg_Topics lg)) (\<lambda>topic0.
        if topic0 = EventWrap L then
          if d \<noteq> 1 then Err (Errorf ''d error. '')
          else obind (index_at 1 (lg_Topics lg)) (\<lambda>t1.
               obind (index_at 2 (lg_Topics lg)) (\<lambda>t2.
               obind (slice_from 32 (lg_Data lg)) (\<lambda>a.
               Ok (address_Hex L (BytesToAddress L t1), Bytes2Hex L t2, Some (big_set_bytes a)))))
        else if topic0 = EventUnWrap L then
          if d \<noteq> - 1 then Err (Errorf ''d error. '')
          else obind (index_at 1 (lg_Topics lg)) (\<lambda>t1.
               obind (index_at 2 (lg_Topics lg)) (\<lambda>t2.
               obind (slice_from 32 (lg_Data lg)) (\<lambda>a.
               Ok (address_Hex L (BytesToAddress L t1), Bytes2Hex L t2, Some (big_set_bytes a)))))
        else user_tx_logs L txid d lgs))"

definition CheckUserTx_evm :: "eth_lib \<Rightarrow> eth_env \<Rightarrow> evm_token \<Rightarrow> bytes \<Rightarrow> string \<Rightarrow> int
    \<Rightarrow> (string \<times> string \<times> int option) outcome" where
  "CheckUserTx_evm L N t txid toCoin d =
     obind (of_rpc ''client.TransactionReceipt error. '' (TransactionReceipt N (BytesToHash L txid))) (\<lambda>r.
     obind (of_rpc ''client.FilterLogs error. ''
         (FilterLogs N \<lparr>q_BlockHash = Some (rc_BlockHash r), q_FromBlock = None, q_ToBlock = None,
            q_Addresses = [ev_contract t], q_Topics = [[EventWrap L, EventUnWrap L]]\<rparr>)) (\<lambda>logs.
     user_tx_logs L txid d logs))"

text \<open>The comparison of the calldata in \<open>CheckTxFailed\<close>, from \<open>tx.Data()\<close> on.\<close>

definition check_failed_data :: "eth_lib \<Rightarrow> bytes \<Rightarrow> bytes \<Rightarrow> string \<Rightarrow> int \<Rightarrow> int \<Rightarrow> unit outcome" where
  "check_failed_data L data0 txid to amount d =
     obind (slice_to 4 data0) (\<lambda>sel.
     if d = - 1 \<and> sel \<noteq> take 4 (MethodSend L) then Err (Errorf ''tx is not send'')
     else if d \<noteq> - 1 \<and> sel \<noteq> take 4 (MethodWrap L) then Err (Errorf ''tx is not wrap'')
     else obind (slice_from 4 data0) (\<lambda>data.
       obind (slice_to 32 data) (\<lambda>id.
       if id \<noteq> txid then Err (Errorf ''txid is not equal. '')
       else obind (slice_to 64 data) (\<lambda>d64.
         obind (slice_from 32 d64) (\<lambda>am.
         if big_set_bytes am \<noteq> amount then Err (Errorf ''amounts are not equal. '')
         else obind (slice_from 64 data) (\<lambda>toData.
           if to \<noteq> address_Hex L (BytesToAddress L toData)
           then Err (Errorf ''to addresses are not equal. '')
           else Ok ()))))))"

definition CheckTxFailed_evm :: "eth_lib \<Rightarrow> eth_env \<Rightarrow> evm_token \<Rightarrow> bytes \<Rightarrow> bytes \<Rightarrow> string \<Rightarrow> int
    \<Rightarrow> int \<Rightarrow> unit outcome" where
  "CheckTxFailed_evm L N t failedTx txid to amount d =
     obind (of_rpc ''rpc.Dial error. '' (rpc_Dial N (ev_rpc t))) (\<lambda>c.
     let txHash = BytesToHash L failedTx in
     obind (of_rpc ''eth_getTransactionReceipt error. '' (eth_getTransactionReceipt N txHash)) (\<lambda>answer.
     case answer of
       None \<Rightarrow> Err (Errorf ''failedTx not found. '')
     | Some js \<Rightarrow>
         (case Receipt_UnmarshalJSON js zero_receipt of
            Inl e \<Rightarrow> Err (Wrapf ''eth_getTransactionReceipt error. '' e)
          | Inr r \<Rightarrow>
              if er_Status r \<noteq> 0 then Err (Errorf ''tx success'')
              else if ev_account t \<noteq> er_From r then Err (Errorf ''the `from` address is not equal. '')
              else obind (of_rpc ''client.TransactionByHash error. '' (TransactionByHash N txHash))
                (\<lambda>(tx, isPending).
                 if isPending then Err (Errorf ''tx is pending status. '')
                 else check_failed_data L (tx_Data tx) txid to amount d))))"

text \<open>The comparison of the calldata in \<open>CheckUnWrapTx\<close>, from \<open>tx.Data()\<close> on.\<close>

definition check_unwrap_data :: "eth_lib \<Rightarrow> bytes \<Rightarrow> string \<Rightarrow> string \<Rightarrow> int \<Rightarrow> unit outcome" where
  "check_unwrap_data L data0 to symbol amount =
     obind (slice_to 4 data0) (\<lambda>sel.
     if sel \<noteq> take 4 (MethodUnWrap L) then Err (Errorf ''tx is not UnWrap'')
     else obind (slice_from 4 data0) (\<lambda>data.
       obind (slice_to 32 data) (\<lambda>toData.
       if FromHex L to \<noteq> toData then Err (Errorf ''to address is not equal. '')
       else obind (slice_from 32 data) (\<lambda>data.
         obind (slice_to 32 data) (\<lambda>sy.
         if string_of_bytes (fst (cut_zero sy)) \<noteq> symbol then Err (Errorf ''symbol is not equal. '')
         else obind (slice_from 32 data) (\<lambda>data.
           if big_set_bytes data < amount then Err (Errorf ''amount is bigger. '')
           else Ok ()))))))"

definition CheckUnWrapTx_evm :: "eth_lib \<Rightarrow> eth_env \<Rightarrow> bytes \<Rightarrow> string \<Rightarrow> string \<Rightarrow> int \<Rightarrow> unit outcome"
  where
  "CheckUnWrapTx_evm L N txid to symbol amount =
     obind (of_rpc ''client.TransactionByHash error. '' (TransactionByHash N (BytesToHash L txid)))
       (\<lambda>(tx, isPending).
     if isPending then Err (Errorf ''tx is pending status. '')
     else check_unwrap_data L (tx_Data tx) to symbol amount)"

definition SendSignedTxData_evm :: "eth_lib \<Rightarrow> eth_env \<Rightarrow> evm_token \<Rightarrow> string \<Rightarrow> bytes
    \<Rightarrow> bytes outcome \<times> signed_tx list" where
  "SendSignedTxData_evm L N t signedHash txData =
     (case WithSignature N (Tx_UnmarshalJSON N txData) (ev_chainId t) (Hex2Bytes L signedHash) of
        None \<Rightarrow> (Panic ''nil transaction'', [])
      | Some stx \<Rightarrow> (case SendTransaction N stx of
          Some e \<Rightarrow> (Err e, [stx])
        | None \<Rightarrow> (Ok (tx_Hash N stx), [stx])))"

text \<open>The calldata \<open>SendWrap\<close> and \<open>SendUnWrap\<close> build: the selector and three words.\<close>

definition send_calldata :: "eth_lib \<Rightarrow> bytes \<Rightarrow> string \<Rightarrow> int \<Rightarrow> string \<Rightarrow> bytes" where
  "send_calldata L method txid amount to =
     (let txHash = FromHex L txid;
          txHash = (if length txHash > 32 then take 32 txHash else txHash)
      in take 4 method @ LeftPadBytes L txHash 32 @ LeftPadBytes L (big_bytes amount) 32
           @ LeftPadBytes L (FromHex L to) 32)"

text \<open>Signing and sending a contract call; the two methods share everything but the selector.
  \<open>amount\<close> is dereferenced by \<open>amount.Bytes()\<close>, so nil panics.\<close>

definition send_call :: "eth_lib \<Rightarrow> eth_env \<Rightarrow> evm_token \<Rightarrow> bytes \<Rightarrow> string \<Rightarrow> int option \<Rightarrow> string
    \<Rightarrow> bytes \<Rightarrow> bytes outcome \<times> signed_tx list" where
  "send_call L N t method txid amount to prv =
     (if HexToAddress L to = replicate 20 0 then (Err (Errorf ''to address error. ''), [])
      else case amount of None \<Rightarrow> (Panic ''nil pointer dereference'', [])
      | Some am \<Rightarrow>
        let data = send_calldata L method txid am to in
        (case PendingNonceAt N (ev_account t) of
           Inl e \<Rightarrow> (Err e, [])
         | Inr nonce \<Rightarrow> (case SuggestGasPrice N of
             Inl e \<Rightarrow> (Err (Wrapf ''get SuggestGasPrice error. '' e), [])
           | Inr suggested \<Rightarrow>
               let gasPrice = suggested * (100 + ev_GasPriceUpper t) div 100;
                   tx = NewTransaction nonce (ev_contract t) 0 GasLimit gasPrice data in
               (case SignTx N tx (ev_chainId t) prv of
                  Inl e \<Rightarrow> (Err e, [])
                | Inr stx \<Rightarrow> (case SendTransaction N stx of
                    Some e \<Rightarrow> (Err e, [stx])
                  | None \<Rightarrow> (Ok (tx_Hash N stx), [stx]))))))"

definition SendWrap_evm :: "eth_lib \<Rightarrow> eth_env \<Rightarrow> evm_token \<Rightarrow> string \<Rightarrow> int option \<Rightarrow> string
    \<Rightarrow> bytes \<Rightarrow> bytes outcome \<times> signed_tx list" where
  "SendWrap_evm L N t txid amount to prv = send_call L N t (MethodWrap L) txid amount to prv"

definition SendUnWrap_evm :: "eth_lib \<Rightarrow> eth_env \<Rightarrow> evm_token \<Rightarrow> string \<Rightarrow> int option \<Rightarrow> string
    \<Rightarrow> bytes \<Rightarrow> bytes outcome \<times> signed_tx list" where
  "SendUnWrap_evm L N t txid amount to prv = send_call L N t (MethodSend L) txid amount to prv"

definition CreateUnWrapTxData_evm :: "string \<Rightarrow> int option \<Rightarrow> bytes \<Rightarrow> (bytes \<times> bytes) outcome" where
  "CreateUnWrapTxData_evm addr amount extra = Err (Errorf ''don't support this method'')"

definition ValiditeUnWrapTxData_evm :: "bytes \<Rightarrow> bytes \<Rightarrow> base_tx outcome" where
  "ValiditeUnWrapTxData_evm hash txData = Err (Errorf ''don't support this method'')"

text \<open>\<open>CheckPendingAndSpeedUp\<close> returns a hash in every case: the old one unless a replacement was
  signed. \<open>*tx.To()\<close> panics on a contract creation.\<close>

definition CheckPendingAndSpeedUp :: "eth_env \<Rightarrow> evm_token \<Rightarrow> bytes \<Rightarrow> bytes
    \<Rightarrow> (bytes \<times> go_error option) outcome \<times> signed_tx list" where
  "CheckPendingAndSpeedUp N t txHash prv =
     (case TransactionByHash N txHash of
        Inl e \<Rightarrow> (Ok (txHash, Some (Wrapf ''get tx by hash error. '' e)), [])
      | Inr (tx, isPending) \<Rightarrow>
          if \<not> isPending then (Ok (txHash, None), [])
          else (case SuggestGasPrice N of
            Inl e \<Rightarrow> (Ok (txHash, Some (Wrapf ''get SuggestGasPrice error. '' e)), [])
          | Inr suggested \<Rightarrow>
              let gasPrice = suggested * (100 + ev_GasPriceUpper t + 20) div 100 in
              if gasPrice < tx_GasPrice tx
              then (Ok (txHash, Some (Errorf ''gasPrice suggest is lower than old tx. '')), [])
              else (case tx_To tx of
                None \<Rightarrow> (Panic ''nil pointer dereference'', [])
              | Some to \<Rightarrow>
                  let tx' = NewTransaction (tx_Nonce tx) to (tx_Value tx) (tx_Gas tx) gasPrice
                              (tx_Data tx) in
                  (case SignTx N tx' (ev_chainId t) prv of
                     Inl e \<Rightarrow> (Ok (txHash, Some (Wrapf ''sign tx error. '' e)), [])
                   | Inr stx \<Rightarrow> (case SendTransaction N stx of
                       Some e \<Rightarrow> (Ok (tx_Hash N stx, Some (Wrapf ''send tx error. '' e)), [stx])
                     | None \<Rightarrow> (Ok (tx_Hash N stx, None), [stx]))))))"

section \<open>Calldata\<close>

lemma length_pad_word:
  assumes "eth_lib_ok L" "length b \<le> n"
  shows "length (LeftPadBytes L b n) = n"
  using assms by (simp add: eth_lib_okD)

lemma pad_word_amount:
  assumes "eth_lib_ok L"
  shows "big_set_bytes (LeftPadBytes L (big_bytes a) n) = \<bar>a\<bar>"
  using assms by (simp add: eth_lib_okD)

text \<open>The four fields of a call in place, for arguments that fit their words.\<close>

lemma send_calldata_fields:
  assumes L: "eth_lib_ok L" and uid: "length uid = 32" "FromHex L txid = uid"
    and amount: "0 \<le> amount" "amount < 2 ^ 256" and a: "length a = 20" "FromHex L to = a"
    and m: "4 \<le> length method"
  shows "\<exists>am. send_calldata L method txid amount to = take 4 method @ uid @ am @ replicate 12 0 @ a \<and>
    length am = 32 \<and> big_set_bytes am = amount"
proof -
  have "\<bar>amount\<bar> < 256 ^ 32" using amount by simp
  then have "length (big_bytes amount) \<le> 32" by (rule length_big_bytes)
  then have "length (LeftPadBytes L (big_bytes amount) 32) = 32"
    using L by (rule length_pad_word [rotated])
  moreover have "big_set_bytes (LeftPadBytes L (big_bytes amount) 32) = amount"
    using L amount by (simp add: pad_word_amount)
  moreover have "LeftPadBytes L uid 32 = uid" "LeftPadBytes L a 32 = replicate 12 0 @ a"
    using L uid a by (simp_all add: eth_lib_okD)
  ultimately show ?thesis using uid a by (auto simp: send_calldata_def)
qed

text \<open>What \<open>CheckTxFailed\<close> reads from calldata.\<close>

lemma check_failed_data_iff:
  "check_failed_data L data txid to amount d = Ok () \<longleftrightarrow>
     68 \<le> length data \<and> take 4 data = take 4 (if d = - 1 then MethodSend L else MethodWrap L) \<and>
     take 32 (drop 4 data) = txid \<and> big_set_bytes (take 32 (drop 36 data)) = amount \<and>
     to = address_Hex L (BytesToAddress L (drop 68 data))"
  by (auto simp: check_failed_data_def obind_Ok_conv slice_to_Ok_conv slice_from_Ok_conv drop_take)

lemma check_failed_data_layout:
  assumes L: "eth_lib_ok L" and len: "length sel = 4" "length uid = 32" "length am = 32" "length a = 20"
  shows "check_failed_data L (sel @ uid @ am @ replicate 12 0 @ a) txid to amount d = Ok () \<longleftrightarrow>
    sel = take 4 (if d = - 1 then MethodSend L else MethodWrap L) \<and>
    uid = txid \<and> big_set_bytes am = amount \<and> to = address_Hex L a"
proof -
  have "BytesToAddress L (replicate 12 0 @ a) = a" using L len by (simp add: eth_lib_okD)
  then show ?thesis using len unfolding check_failed_data_iff by simp
qed

lemma send_calldata_check:
  assumes L: "eth_lib_ok L" and uid: "length uid = 32" and amount: "0 \<le> amount" "amount < 2 ^ 256"
    and a: "length a = 20" and m: "method = (if d = - 1 then MethodSend L else MethodWrap L)"
  shows "check_failed_data L (send_calldata L method (hexutil_Encode L uid) amount
           (address_Hex L a)) txid to am d = Ok () \<longleftrightarrow>
           txid = uid \<and> am = amount \<and> to = address_Hex L a"
proof -
  have len: "4 \<le> length method"
    using L m by (simp add: MethodSend_def MethodWrap_def length_topic)
  have hex: "FromHex L (hexutil_Encode L uid) = uid" "FromHex L (address_Hex L a) = a"
    using L a by (simp_all add: eth_lib_okD)
  obtain w where w: "send_calldata L method (hexutil_Encode L uid) amount (address_Hex L a) =
      take 4 method @ uid @ w @ replicate 12 0 @ a" "length w = 32" "big_set_bytes w = amount"
    using send_calldata_fields [OF L uid hex(1) amount a hex(2) len] by blast
  show ?thesis using len m uid a w by (auto simp: check_failed_data_layout [OF L])
qed

section \<open>A node for the witnesses\<close>

text \<open>A token and a node that answers: one transaction is known under every hash, with the
  given pending flag, gas costs 100 and signing keeps the transaction.\<close>

definition demo_token :: evm_token where
  "demo_token = \<lparr>ev_rpc = ''http'', ev_wss = ''wss'', ev_chainId = 1, ev_symbol = ''sSOON'',
     ev_contract = replicate 20 9, ev_account = replicate 20 8, ev_ListenType = 1,
     ev_ScanMaxHeight = 10, ev_GasPriceUpper = 10\<rparr>"

definition demo_tx :: "bytes \<Rightarrow> eth_tx" where
  "demo_tx data = NewTransaction 7 (replicate 20 9) 0 GasLimit 90 data"

definition demo_logs :: "eth_log list" where
  "demo_logs = [\<lparr>lg_Address = replicate 20 9,
     lg_Topics = [EventWrap eth_demo, replicate 32 3, replicate 32 4],
     lg_Data = replicate 32 0 @ replicate 31 0 @ [5], lg_TxHash = replicate 32 1,
     lg_Removed = False\<rparr>]"

definition demo_node :: "eth_tx \<Rightarrow> bool \<Rightarrow> eth_env" where
  "demo_node tx pending =
     \<lparr>TransactionReceipt = (\<lambda>h. Inr \<lparr>rc_Status = 1, rc_BlockHash = replicate 32 6\<rparr>),
      TransactionByHash = (\<lambda>h. Inr (tx, pending)), FilterLogs = (\<lambda>q. Inr demo_logs),
      PendingNonceAt = (\<lambda>a. Inr 7), SuggestGasPrice = Inr 100, SendTransaction = (\<lambda>s. None),
      SignTx = (\<lambda>tx c prv. Inr \<lparr>st_tx = tx, st_sig = prv\<rparr>), tx_Hash = (\<lambda>s. replicate 32 2),
      Tx_UnmarshalJSON = (\<lambda>b. tx),
      WithSignature = (\<lambda>tx c sig. Some \<lparr>st_tx = tx, st_sig = sig\<rparr>),
      rpc_Dial = (\<lambda>u. Inr ()), eth_getTransactionReceipt = (\<lambda>h. Inr None), NetworkID = Inr 1\<rparr>"

lemmas demo_node_defs = demo_token_def demo_tx_def demo_node_def NewTransaction_def

section \<open>Properties of the contract operations\<close>

text \<open>C22: the calldata that \<open>SendUnWrap\<close> and \<open>SendWrap\<close> build is what \<open>CheckTxFailed\<close> looks
  for, and it looks for nothing else: for a 32-byte transaction id, an amount of 256 bits and a
  20-byte address, the check of the call data succeeds exactly for the same id, amount and
  address, as an unwrap for \<open>send\<close> and as a wrap for \<open>wrap\<close>.\<close>

theorem calldata_roundtrip:
  assumes L: "eth_lib_ok L" and uid: "length uid = 32" and amount: "0 \<le> amount" "amount < 2 ^ 256"
    and a: "length a = 20" and d: "d = - 1 \<and> method = MethodSend L \<or> d = 1 \<and> method = MethodWrap L"
  shows "check_failed_data L (send_calldata L method (hexutil_Encode L uid) amount
           (address_Hex L a)) txid to am d = Ok () \<longleftrightarrow>
           txid = uid \<and> am = amount \<and> to = address_Hex L a"
  using assms by (intro send_calldata_check) auto

theorem calldata_roundtrip_witness:
  "check_failed_data eth_demo (send_calldata eth_demo (MethodSend eth_demo)
     (hexutil_Encode eth_demo (replicate 32 1)) 1000 (address_Hex eth_demo (replicate 20 2)))
     (replicate 32 1) (address_Hex eth_demo (replicate 20 2)) 1000 (- 1) = Ok ()"
  using calldata_roundtrip [OF eth_demo_ok, of "replicate 32 1" 1000 "replicate 20 2" "- 1"
      "MethodSend eth_demo"] by simp

text \<open>C23: a wrap order broadcasts at most one transaction, whether the node takes it or not: the call of
  the bridge contract with the account's pending nonce, without value, signed for the token's chain, at
  the node's suggested gas price raised by \<open>GasPriceUpper\<close> percent. This lies between the suggestion and
  twice it for percentages from 0 to 100; \<open>NewEvmToken\<close> also takes negative ones, which lower the
  price. The result is the hash of the transaction, or the node's error when it refuses it; without a
  transaction it is no hash, and a zero target address sends nothing.\<close>

theorem SendWrap_evm_sends:
  assumes run: "SendWrap_evm L N t txid amount to prv = (res, sent)"
  shows "(HexToAddress L to = replicate 20 0 \<longrightarrow> sent = []) \<and> (sent = [] \<longrightarrow> \<not> is_ok res) \<and>
    (sent \<noteq> [] \<longrightarrow> (\<exists>am nonce p gasPrice stx. amount = Some am \<and>
      PendingNonceAt N (ev_account t) = Inr nonce \<and> SuggestGasPrice N = Inr p \<and>
      gasPrice = p * (100 + ev_GasPriceUpper t) div 100 \<and>
      (0 \<le> p \<and> 0 \<le> ev_GasPriceUpper t \<and> ev_GasPriceUpper t \<le> 100 \<longrightarrow> p \<le> gasPrice \<and> gasPrice \<le> 2 * p) \<and>
      SignTx N (NewTransaction nonce (ev_contract t) 0 GasLimit gasPrice
        (send_calldata L (MethodWrap L) txid am to)) (ev_chainId t) prv = Inr stx \<and>
      sent = [stx] \<and> res = (case SendTransaction N stx of None \<Rightarrow> Ok (tx_Hash N stx) | Some e \<Rightarrow> Err e)))"
proof -
  note unf = SendWrap_evm_def send_call_def Let_def
  have price: "p \<le> p * (100 + u) div 100 \<and> p * (100 + u) div 100 \<le> 2 * p" if "0 \<le> p" "0 \<le> u" "u \<le> 100" for p u :: int
  proof -
    have "p * 100 \<le> p * (100 + u)" "p * (100 + u) \<le> p * 200" using that by (intro mult_left_mono; simp)+
    then show ?thesis by linarith
  qed
  have "HexToAddress L to = replicate 20 0 \<Longrightarrow> sent = []" using run by (auto simp: unf)
  moreover have "sent = [] \<Longrightarrow> \<not> is_ok res"
    using run by (auto simp: unf split: if_splits option.splits sum.splits)
  moreover have "sent \<noteq> [] \<Longrightarrow> \<exists>am nonce p stx. amount = Some am \<and>
      PendingNonceAt N (ev_account t) = Inr nonce \<and> SuggestGasPrice N = Inr p \<and>
      SignTx N (NewTransaction nonce (ev_contract t) 0 GasLimit (p * (100 + ev_GasPriceUpper t) div 100)
        (send_calldata L (MethodWrap L) txid am to)) (ev_chainId t) prv = Inr stx \<and>
      sent = [stx] \<and> res = (case SendTransaction N stx of None \<Rightarrow> Ok (tx_Hash N stx) | Some e \<Rightarrow> Err e)"
    using run by (auto simp: unf split: if_splits option.splits sum.splits)
  ultimately show ?thesis using price by blast
qed

theorem SendWrap_evm_sends_witness:
  "\<exists>res sent. SendWrap_evm eth_demo (demo_node (demo_tx []) False) demo_token (''0x'' @ hex_encode [1])
     (Some 5) (''0x'' @ hex_encode (replicate 20 2)) [3] = (res, sent) \<and> is_ok res \<and> length sent = 1"
proof -
  let ?run = "SendWrap_evm eth_demo (demo_node (demo_tx []) False) demo_token (''0x'' @ hex_encode [1])
     (Some 5) (''0x'' @ hex_encode (replicate 20 2)) [3]"
  have run: "is_ok (fst ?run) \<and> snd ?run \<noteq> []"
    by (simp add: SendWrap_evm_def send_call_def demo_node_defs Let_def eth_demo_def right_bytes_def
        numeral_eq_Suc)
  have one: "length sent = 1" if "SendWrap_evm L N t txid amount to prv = (res, sent)" "sent \<noteq> []"
    for L N t txid amount to prv res and sent :: "signed_tx list"
    using SendWrap_evm_sends [OF that(1)] that(2) by auto
  have "length (snd ?run) = 1"
    by (rule one [OF prod.collapse [symmetric]]) (rule conjunct2 [OF run])
  with run show ?thesis by (intro exI [of _ "fst ?run"] exI [of _ "snd ?run"]) simp
qed

text \<open>C25: a speed-up replaces a pending transaction by one of the same nonce, target, value, gas
  limit and data whose gas price is not lower. When the transaction is not pending, cannot be
  found, or the node suggests too little, nothing is sent and the old hash comes back.\<close>

theorem CheckPendingAndSpeedUp_replaces:
  assumes "CheckPendingAndSpeedUp N t txHash prv = (res, sent)"
  shows "sent = [] \<and> (\<forall>h e. res = Ok (h, e) \<longrightarrow> h = txHash) \<or>
    (\<exists>tx to gasPrice stx. TransactionByHash N txHash = Inr (tx, True) \<and> tx_To tx = Some to \<and>
       SignTx N (NewTransaction (tx_Nonce tx) to (tx_Value tx) (tx_Gas tx) gasPrice (tx_Data tx))
         (ev_chainId t) prv = Inr stx \<and>
       tx_GasPrice tx \<le> gasPrice \<and> sent = [stx] \<and>
       res = Ok (tx_Hash N stx, map_option (Wrapf ''send tx error. '') (SendTransaction N stx)))"
  using assms
  by (auto simp: CheckPendingAndSpeedUp_def Let_def not_less
      split: sum.splits prod.splits if_splits option.splits)

theorem CheckPendingAndSpeedUp_replaces_witness:
  "\<exists>res stx. CheckPendingAndSpeedUp (demo_node (demo_tx []) True) demo_token [1] [3] = (res, [stx]) \<and>
     tx_GasPrice (demo_tx []) \<le> 130"
proof -
  obtain res stx where
    run: "CheckPendingAndSpeedUp (demo_node (demo_tx []) True) demo_token [1] [3] = (res, [stx])"
    by (simp add: CheckPendingAndSpeedUp_def demo_node_defs Let_def)
  with CheckPendingAndSpeedUp_replaces [OF run] show ?thesis
    by (auto simp: demo_node_defs)
qed

text \<open>What \<open>CheckUnWrapTx\<close> accepts as the user's unwrap call: the selector, the target's 32
  bytes, the symbol padded with zeros, an amount not below the one asked for.\<close>

definition unwrap_call :: "eth_lib \<Rightarrow> bytes \<Rightarrow> string \<Rightarrow> string \<Rightarrow> int \<Rightarrow> bool" where
  "unwrap_call L data to symbol amount \<longleftrightarrow>
     68 \<le> length data \<and> take 4 data = take 4 (MethodUnWrap L) \<and>
     take 32 (drop 4 data) = FromHex L to \<and>
     string_of_bytes (fst (cut_zero (take 32 (drop 36 data)))) = symbol \<and>
     amount \<le> big_set_bytes (drop 68 data)"

lemma check_unwrap_data_iff:
  "check_unwrap_data L data to symbol amount = Ok () \<longleftrightarrow> unwrap_call L data to symbol amount"
  by (auto simp: check_unwrap_data_def unwrap_call_def obind_Ok_conv slice_to_Ok_conv
      slice_from_Ok_conv not_less)

text \<open>\<open>CheckUnWrapTx\<close> accepts exactly the mined transactions whose data is an unwrap call for
  the target, the symbol and at least the amount.\<close>

theorem CheckUnWrapTx_evm_iff:
  "CheckUnWrapTx_evm L N txid to symbol amount = Ok () \<longleftrightarrow>
     (\<exists>tx. TransactionByHash N (BytesToHash L txid) = Inr (tx, False) \<and>
        unwrap_call L (tx_Data tx) to symbol amount)"
proof -
  have "CheckUnWrapTx_evm L N txid to symbol amount = Ok () \<longleftrightarrow>
     (\<exists>tx. TransactionByHash N (BytesToHash L txid) = Inr (tx, False) \<and>
        check_unwrap_data L (tx_Data tx) to symbol amount = Ok ())"
    by (auto simp: CheckUnWrapTx_evm_def obind_Ok_conv of_rpc_Ok_conv split: if_splits)
  then show ?thesis by (simp only: check_unwrap_data_iff)
qed

text \<open>The contract that was called does not matter to \<open>CheckUnWrapTx\<close>, nor whether the call
  succeeded: two nodes that agree on the pending flag and the data of the transaction get
  the same answer, whatever target, value and receipt they report.\<close>

theorem CheckUnWrapTx_evm_ignores_target:
  assumes "TransactionByHash N (BytesToHash L txid) = Inr (tx, pending)"
    and "TransactionByHash N' (BytesToHash L txid) = Inr (tx', pending)"
    and "tx_Data tx' = tx_Data tx"
  shows "CheckUnWrapTx_evm L N txid to symbol amount = CheckUnWrapTx_evm L N' txid to symbol amount"
  using assms by (simp add: CheckUnWrapTx_evm_def)

theorem CheckUnWrapTx_evm_ignores_target_witness:
  "CheckUnWrapTx_evm eth_demo (demo_node (demo_tx [1]) False) [7] ''02'' ''SOON'' 5 =
   CheckUnWrapTx_evm eth_demo (demo_node ((demo_tx [1])\<lparr>tx_To := Some (replicate 20 0)\<rparr>) False) [7]
     ''02'' ''SOON'' 5"
  by (rule CheckUnWrapTx_evm_ignores_target [where tx = "demo_tx [1]" and pending = False
        and tx' = "(demo_tx [1])\<lparr>tx_To := Some (replicate 20 0)\<rparr>"])
    (simp_all add: demo_node_def)

lemma user_tx_logs_Ok:
  assumes "user_tx_logs L txid d logs = Ok (frm, to, amount)"
  shows "\<exists>lg \<in> set logs. lg_TxHash lg = txid \<and> 3 \<le> length (lg_Topics lg) \<and>
    (d = 1 \<and> lg_Topics lg ! 0 = EventWrap L \<or> d = - 1 \<and> lg_Topics lg ! 0 = EventUnWrap L) \<and>
    frm = address_Hex L (BytesToAddress L (lg_Topics lg ! 1)) \<and>
    to = Bytes2Hex L (lg_Topics lg ! 2) \<and> 32 \<le> length (lg_Data lg) \<and>
    amount = Some (big_set_bytes (drop 32 (lg_Data lg)))"
  using assms
proof (induction logs)
  case (Cons lg lgs)
  then show ?case
    by (auto simp: obind_Ok_conv index_at_Ok_conv slice_from_Ok_conv split: if_splits)
qed simp

text \<open>C24: an order that \<open>CheckUserTx\<close> confirms on an EVM chain is an event of the bridge contract
  in the block of that transaction: a log of the transaction itself, a wrap event for direction 1
  and an unwrap event for direction -1, with the sender, the target and the amount that
  are returned.\<close>

theorem CheckUserTx_evm_sound:
  assumes "CheckUserTx_evm L N t txid toCoin d = Ok (frm, to, amount)"
  shows "\<exists>r logs lg. TransactionReceipt N (BytesToHash L txid) = Inr r \<and>
    FilterLogs N \<lparr>q_BlockHash = Some (rc_BlockHash r), q_FromBlock = None, q_ToBlock = None,
      q_Addresses = [ev_contract t], q_Topics = [[EventWrap L, EventUnWrap L]]\<rparr> = Inr logs \<and>
    lg \<in> set logs \<and> lg_TxHash lg = txid \<and>
    (d = 1 \<and> lg_Topics lg ! 0 = EventWrap L \<or> d = - 1 \<and> lg_Topics lg ! 0 = EventUnWrap L) \<and>
    frm = address_Hex L (BytesToAddress L (lg_Topics lg ! 1)) \<and>
    to = Bytes2Hex L (lg_Topics lg ! 2) \<and>
    amount = Some (big_set_bytes (drop 32 (lg_Data lg)))"
proof -
  from assms obtain r logs where "TransactionReceipt N (BytesToHash L txid) = Inr r"
    "FilterLogs N \<lparr>q_BlockHash = Some (rc_BlockHash r), q_FromBlock = None, q_ToBlock = None,
      q_Addresses = [ev_contract t], q_Topics = [[EventWrap L, EventUnWrap L]]\<rparr> = Inr logs"
    "user_tx_logs L txid d logs = Ok (frm, to, amount)"
    unfolding CheckUserTx_evm_def by (auto simp: obind_Ok_conv of_rpc_Ok_conv)
  with user_tx_logs_Ok [of L txid d logs frm to amount] show ?thesis by blast
qed

theorem CheckUserTx_evm_sound_witness:
  "\<exists>frm to. CheckUserTx_evm eth_demo (demo_node (demo_tx []) False) demo_token (replicate 32 1)
     ''SMR'' 1 = Ok (frm, to, Some 5) \<and> to = Bytes2Hex eth_demo (replicate 32 4)"
proof -
  have am: "big_set_bytes (replicate 31 0 @ [5]) = 5" by (simp add: big_set_bytes_snoc)
  have run: "CheckUserTx_evm eth_demo (demo_node (demo_tx []) False) demo_token (replicate 32 1)
     ''SMR'' 1 = Ok (address_Hex eth_demo (BytesToAddress eth_demo (replicate 32 3)),
       Bytes2Hex eth_demo (replicate 32 4), Some 5)"
    using am by (simp add: CheckUserTx_evm_def demo_node_def demo_logs_def go_simps)
  from CheckUserTx_evm_sound [OF run] run show ?thesis by auto
qed

end
