(* ===== verification/Scanner.thy ===== *)
theory Scanner
  imports Chain_Types
begin

text \<open>
  The block scanner's loop and its contract. The source has two scanners, of the bridge contract
  (tokens/evm/detect.go) and of the error record contract (tokens/txerr.go); each is an endless
  loop whose turn asks the node for its height and for the logs of a range of blocks. A turn is a
  step function from the next height to scan and the node's answers, a \<open>scan_input\<close>, to the
  messages sent, the following height, and the range that was answered, if one was; \<open>scan_run\<close>
  is the loop over the answers of a run.

  The locale \<open>range_scanner\<close> is what a turn promises: the height moves only past an answered
  range that starts at it. Its lemma is the coverage of a whole run. \<open>bounded_scanner\<close> adds a
  bound on the width of a range. Both scanners interpret the first, the bridge contract's the
  second.
\<close>

record scan_input =
  si_BlockNumber :: "u64 rpc"
  si_FilterLogs :: "filter_query \<Rightarrow> eth_log list rpc"

type_synonym 'm scan_turn = "('m list \<times> u64 \<times> (u64 \<times> u64) list) outcome"

fun scan_run :: "(u64 \<Rightarrow> scan_input \<Rightarrow> 'm scan_turn) \<Rightarrow> u64 \<Rightarrow> scan_input list \<Rightarrow> 'm scan_turn" where
  "scan_run step h [] = Ok ([], h, [])"
| "scan_run step h (inp # inps) =
     obind (step h inp) (\<lambda>(ms, h', rs).
     obind (scan_run step h' inps) (\<lambda>(ms', h'', rs').
     Ok (ms @ ms', h'', rs @ rs')))"

text \<open>A subscription's messages, and what a listener meets while it runs: the scanner's answers or
  the subscription's.\<close>

datatype sub_message = SubErr go_error | SubLog eth_log

record listen_world =
  lw_start :: "u64 rpc"
  lw_inputs :: "scan_input list"
  lw_dial :: "unit rpc"
  lw_subscribe :: "filter_query \<Rightarrow> sub_message list rpc"

text \<open>The node's height stays below the largest uint64, so that the next height does not wrap.\<close>

definition height_ok :: "scan_input \<Rightarrow> bool" where
  "height_ok inp = (case si_BlockNumber inp of Inl e \<Rightarrow> True | Inr n \<Rightarrow> n < - 1)"

section \<open>Block ranges\<close>

text \<open>The blocks of the answered ranges, in order.\<close>

definition scanned :: "(u64 \<times> u64) list \<Rightarrow> nat list" where
  "scanned rs = concat (map (\<lambda>(a, b). [unat a..<Suc (unat b)]) rs)"

lemma scanned_simps [simp]:
  "scanned [] = []" "scanned (r # rs) = [unat (fst r)..<Suc (unat (snd r))] @ scanned rs"
  by (simp_all add: scanned_def split: prod.split)

lemma scanned_append [simp]: "scanned (rs @ rs') = scanned rs @ scanned rs'"
  by (simp add: scanned_def)

lemma upt_split3: "a \<le> b \<Longrightarrow> b \<le> c \<Longrightarrow> [a..<c] = [a..<b] @ [b..<c]"
  using upt_add_eq_append [of a b "c - b"] by simp

lemma word_succ_unat:
  fixes x :: u64
  assumes "x < - 1" shows "unat (x + 1) = Suc (unat x)"
  using assms by unat_arith

lemma scan_run_Cons:
  assumes "scan_run step h (inp # inps) = Ok (ms, h', rs)"
  obtains ms1 h1 rs1 ms2 rs2 where "step h inp = Ok (ms1, h1, rs1)"
    "scan_run step h1 inps = Ok (ms2, h', rs2)" "rs = rs1 @ rs2" "ms = ms1 @ ms2"
  using assms by (auto simp: obind_Ok_conv split: prod.splits)

section \<open>The contract\<close>

locale range_scanner =
  fixes step :: "'c \<Rightarrow> u64 \<Rightarrow> scan_input \<Rightarrow> 'm scan_turn"
    and conf_ok :: "'c \<Rightarrow> bool"
  assumes step_range: "step c h inp = Ok (ms, h', rs) \<Longrightarrow> conf_ok c \<Longrightarrow> height_ok inp \<Longrightarrow>
    rs = [] \<and> h' = h \<or> (\<exists>b. rs = [(h, b)] \<and> h \<le> b \<and> unat h' = Suc (unat b))"
begin

lemma run_covers:
  assumes "scan_run (step c) h inps = Ok (ms, h', rs)" and "conf_ok c"
    and "list_all height_ok inps"
  shows "scanned rs = [unat h..<unat h'] \<and> unat h \<le> unat h'"
  using assms(1,3)
proof (induction inps arbitrary: h ms rs)
  case (Cons inp inps)
  obtain ms1 h1 rs1 ms2 rs2 where st: "step c h inp = Ok (ms1, h1, rs1)"
    and rest: "scan_run (step c) h1 inps = Ok (ms2, h', rs2)" and rs: "rs = rs1 @ rs2"
    using Cons.prems(1) by (rule scan_run_Cons)
  have IH: "scanned rs2 = [unat h1..<unat h'] \<and> unat h1 \<le> unat h'"
    using Cons.IH [OF rest] Cons.prems(2) by simp
  from step_range [OF st assms(2)] Cons.prems(2) consider
      "rs1 = []" "h1 = h"
    | b where "rs1 = [(h, b)]" "h \<le> b" "unat h1 = Suc (unat b)"
    by force
  then show ?case
  proof cases
    case (2 b)
    then have "unat h \<le> unat b" by (simp add: word_le_nat_alt)
    with 2 IH rs show ?thesis by (simp add: upt_split3 [of "unat h" "Suc (unat b)" "unat h'"])
  qed (use IH rs in simp)
qed simp

end

locale bounded_scanner = range_scanner +
  fixes width :: "'c \<Rightarrow> nat"
  assumes step_width: "step c h inp = Ok (ms, h', rs) \<Longrightarrow> conf_ok c \<Longrightarrow> (a, b) \<in> set rs \<Longrightarrow>
    unat b - unat a \<le> width c"
begin

lemma run_width:
  assumes "scan_run (step c) h inps = Ok (ms, h', rs)" and "conf_ok c" and "(a, b) \<in> set rs"
  shows "unat b - unat a \<le> width c"
  using assms(1,3)
proof (induction inps arbitrary: h ms rs)
  case (Cons inp inps)
  obtain ms1 h1 rs1 ms2 rs2 where "step c h inp = Ok (ms1, h1, rs1)"
    and "scan_run (step c) h1 inps = Ok (ms2, h', rs2)" and "rs = rs1 @ rs2"
    using Cons.prems(1) by (rule scan_run_Cons)
  with Cons.IH Cons.prems(2) step_width assms(2) show ?case by fastforce
qed simp

end

end
