(* ===== verification/Evm_Detect.thy ===== *)
theory Evm_Detect
  imports Evm_Contract Scanner
begin

text \<open>
  Package tokens/evm, detect.go: the listeners of an EVM token. A handler returns the list of
  orders it puts on the channel, or the panic that ends it. \<open>scanBlock\<close> is the scanner loop of
  theory \<open>Scanner\<close> over the turn \<open>scan_step\<close>; \<open>listenEvent\<close> runs over the messages of its
  subscription.
\<close>

section \<open>Events to orders\<close>

definition dealWrapEvent :: "eth_lib \<Rightarrow> evm_token \<Rightarrow> eth_log \<Rightarrow> swap_order list outcome" where
  "dealWrapEvent L t vLog =
     (if length (lg_Data vLog) \<noteq> 64
      then obind (index_at 1 (lg_Topics vLog)) (\<lambda>_.
           Ok [error_order 1 (Errorf ''wrap event data is nil. '')])
      else obind (index_at 1 (lg_Topics vLog)) (\<lambda>t1.
           obind (index_at 2 (lg_Topics vLog)) (\<lambda>t2.
           obind (slice_to 32 (lg_Data vLog)) (\<lambda>head.
           obind (slice_from 32 (lg_Data vLog)) (\<lambda>am.
           let (symbol, rest, _) = cut_zero head;
               org = fst (cut_zero rest);
               org = fst (cut_zero org)
           in Ok [\<lparr>so_TxID = hash_Hex L (lg_TxHash vLog), so_FromToken = Symbol_evm t,
                 so_ToToken = string_of_bytes symbol,
                 so_From = address_Hex L (BytesToAddress L t1),
                 so_To = address_Hex L (BytesToAddress L t2),
                 so_Amount = Some (big_set_bytes am), so_Org = string_of_bytes org,
                 so_Error = None, so_Type = 0\<rparr>])))))"

definition dealUnWrapEvent :: "eth_lib \<Rightarrow> evm_token \<Rightarrow> eth_log \<Rightarrow> swap_order list outcome" where
  "dealUnWrapEvent L t vLog =
     (if length (lg_Data vLog) = 0
      then obind (index_at 1 (lg_Topics vLog)) (\<lambda>_.
           Ok [error_order 1 (Errorf ''unWrap event data is nil. '')])
      else obind (slice_to 32 (lg_Data vLog)) (\<lambda>head.
           obind (slice_from 32 (lg_Data vLog)) (\<lambda>am.
           obind (index_at 1 (lg_Topics vLog)) (\<lambda>t1.
           obind (index_at 2 (lg_Topics vLog)) (\<lambda>t2.
           let (symbol, rest, _) = cut_zero head;
               org = fst (cut_zero rest)
           in Ok [\<lparr>so_TxID = hash_Hex L (lg_TxHash vLog), so_FromToken = Symbol_evm t,
                 so_ToToken = string_of_bytes symbol,
                 so_From = address_Hex L (BytesToAddress L t1),
                 so_To = Bytes2Hex L t2,
                 so_Amount = Some (big_set_bytes am), so_Org = string_of_bytes org,
                 so_Error = None, so_Type = 0\<rparr>])))))"

text \<open>The dispatch both listeners use: the first topic is the wrap event, or else the log is read
  as an unwrap event.\<close>

definition deal_log :: "eth_lib \<Rightarrow> evm_token \<Rightarrow> eth_log \<Rightarrow> swap_order list outcome" where
  "deal_log L t lg = obind (index_at 0 (lg_Topics lg)) (\<lambda>topic0.
     if hash_Hex L topic0 = hash_Hex L (EventWrap L) then dealWrapEvent L t lg
     else dealUnWrapEvent L t lg)"

fun deal_logs :: "eth_lib \<Rightarrow> evm_token \<Rightarrow> eth_log list \<Rightarrow> swap_order list outcome" where
  "deal_logs L t [] = Ok []"
| "deal_logs L t (lg # lgs) =
     obind (deal_log L t lg) (\<lambda>m. obind (deal_logs L t lgs) (\<lambda>ms. Ok (m @ ms)))"

section \<open>Scanning blocks\<close>

definition scan_query :: "evm_token \<Rightarrow> bytes \<Rightarrow> u64 \<Rightarrow> u64 \<Rightarrow> filter_query" where
  "scan_query t event fromHeight toHeight =
     \<lparr>q_BlockHash = None, q_FromBlock = Some fromHeight, q_ToBlock = Some toHeight,
      q_Addresses = [ev_contract t], q_Topics = [[event]]\<rparr>"

text \<open>One turn of the loop of \<open>scanBlock\<close>: the orders sent, the next \<open>fromHeight\<close>, and the range
  of blocks that was answered, if one was.\<close>

definition scan_step :: "eth_lib \<Rightarrow> evm_token \<Rightarrow> bytes \<Rightarrow> u64 \<Rightarrow> scan_input
    \<Rightarrow> (swap_order list \<times> u64 \<times> (u64 \<times> u64) list) outcome" where
  "scan_step L t event fromHeight inp = (case si_BlockNumber inp of
      Inl e \<Rightarrow> Ok ([error_order 1 (Wrapf ''BlockNumber error. '' e)], fromHeight, [])
    | Inr height \<Rightarrow>
        if height < fromHeight then Ok ([], fromHeight, [])
        else
          let toHeight = (if height - fromHeight > ev_ScanMaxHeight t
                          then fromHeight + ev_ScanMaxHeight t - 1 else height) in
          (case si_FilterLogs inp (scan_query t event fromHeight toHeight) of
             Inl e \<Rightarrow> Ok ([error_order 1 (Wrapf ''client FilterLogs error. '' e)], fromHeight, [])
           | Inr logs \<Rightarrow> obind (deal_logs L t logs) (\<lambda>ms.
               Ok (ms, toHeight + 1, [(fromHeight, toHeight)]))))"

text \<open>\<open>scanBlock\<close>: the height to start from, then the loop. The ranges it has queried are part
  of the result.\<close>

definition scanBlock :: "eth_lib \<Rightarrow> evm_token \<Rightarrow> bytes \<Rightarrow> u64 rpc \<Rightarrow> scan_input list
    \<Rightarrow> (swap_order list \<times> (u64 \<times> u64) list) outcome" where
  "scanBlock L t event start inps = (case start of
      Inl e \<Rightarrow> Ok ([error_order 0 (Wrapf ''get the block number error. '' e)], [])
    | Inr fromHeight \<Rightarrow> obind (scan_run (scan_step L t event) fromHeight inps) (\<lambda>(ms, _, rs). Ok (ms, rs)))"

section \<open>Listening for events\<close>

fun listen_loop :: "eth_lib \<Rightarrow> evm_token \<Rightarrow> sub_message list \<Rightarrow> swap_order list outcome" where
  "listen_loop L t [] = Ok []"
| "listen_loop L t (SubErr e # ms) = Ok [error_order 0 (Wrapf ''event wss sub error. '' e)]"
| "listen_loop L t (SubLog vLog # ms) =
     obind (deal_log L t vLog) (\<lambda>os. obind (listen_loop L t ms) (\<lambda>os'. Ok (os @ os')))"

definition listenEvent :: "eth_lib \<Rightarrow> evm_token \<Rightarrow> bytes \<Rightarrow> unit rpc
    \<Rightarrow> (filter_query \<Rightarrow> sub_message list rpc) \<Rightarrow> swap_order list outcome" where
  "listenEvent L t event dial subscribe = (case dial of
      Inl e \<Rightarrow> Ok [error_order 0 (Wrapf ''the EthWssClient redial error. '' e)]
    | Inr c \<Rightarrow>
        (case subscribe \<lparr>q_BlockHash = None, q_FromBlock = None, q_ToBlock = None,
            q_Addresses = [ev_contract t], q_Topics = [[event]]\<rparr> of
           Inl e \<Rightarrow> Ok [error_order 0 (Wrapf ''get event logs from eth wss client error. '' e)]
         | Inr ms \<Rightarrow> listen_loop L t ms))"

definition start_listen :: "eth_lib \<Rightarrow> evm_token \<Rightarrow> bytes \<Rightarrow> listen_world \<Rightarrow> swap_order list outcome"
  where
  "start_listen L t event W =
     (if ev_ListenType t = ListenEvent then listenEvent L t event (lw_dial W) (lw_subscribe W)
      else if ev_ListenType t = ScanBlock
      then obind (scanBlock L t event (lw_start W) (lw_inputs W)) (\<lambda>(ms, _). Ok ms)
      else Ok [])"

definition StartWrapListen_evm :: "eth_lib \<Rightarrow> evm_token \<Rightarrow> listen_world \<Rightarrow> swap_order list outcome"
  where
  "StartWrapListen_evm L t W = start_listen L t (EventWrap L) W"

definition StartUnWrapListen_evm :: "eth_lib \<Rightarrow> evm_token \<Rightarrow> listen_world \<Rightarrow> swap_order list outcome"
  where
  "StartUnWrapListen_evm L t W = start_listen L t (EventUnWrap L) W"

section \<open>Block ranges\<close>

lemma chunk_end:
  fixes from_h height M :: u64
  assumes "from_h \<le> height" "M < height - from_h" "0 < M"
  shows "unat (from_h + M - 1) = unat from_h + unat M - 1" "from_h + M - 1 < height"
    "from_h \<le> from_h + M - 1"
  using assms by unat_arith+

text \<open>The end of a range and its width.\<close>

definition scan_end :: "u64 \<Rightarrow> u64 \<Rightarrow> u64 \<Rightarrow> u64" where
  "scan_end M h n = (if n - h > M then h + M - 1 else n)"

lemma scan_end_bounds:
  assumes "h \<le> n" "0 < M"
  shows "h \<le> scan_end M h n" "scan_end M h n \<le> n" "unat (scan_end M h n) - unat h \<le> unat M"
  using assms chunk_end [of h n M]
  by (auto simp: scan_end_def word_le_nat_alt word_less_nat_alt unat_sub)

lemma scan_step_cases:
  assumes "scan_step L t event h inp = Ok (ms, h', rs)"
  shows "rs = [] \<and> h' = h \<or> (\<exists>n. si_BlockNumber inp = Inr n \<and> h \<le> n \<and>
    rs = [(h, scan_end (ev_ScanMaxHeight t) h n)] \<and> h' = scan_end (ev_ScanMaxHeight t) h n + 1)"
  using assms
  by (auto simp: scan_step_def scan_end_def Let_def obind_Ok_conv not_less
      split: if_splits sum.splits)

lemma scan_step_range:
  assumes "scan_step L t event h inp = Ok (ms, h', rs)" and "0 < ev_ScanMaxHeight t"
    and "height_ok inp"
  shows "rs = [] \<and> h' = h \<or> (\<exists>b. rs = [(h, b)] \<and> h \<le> b \<and> unat h' = Suc (unat b))"
proof -
  have "unat (scan_end M h n + 1) = Suc (unat (scan_end M h n))"
    if "si_BlockNumber inp = Inr n" "h \<le> n" "0 < M" for n M
  proof (rule word_succ_unat)
    have "n < - 1" using assms(3) that(1) by (simp add: height_ok_def)
    with scan_end_bounds(2) [OF that(2,3)] show "scan_end M h n < - 1" by (rule order.strict_trans1)
  qed
  then show ?thesis using scan_step_cases [OF assms(1)] assms(2) scan_end_bounds(1) by blast
qed

text \<open>The context of a scan: the library, the token and the event.\<close>

definition scan_conf :: "eth_lib \<times> evm_token \<times> bytes \<Rightarrow> u64 \<Rightarrow> scan_input \<Rightarrow> swap_order scan_turn"
  where
  "scan_conf c = (case c of (L, t, event) \<Rightarrow> scan_step L t event)"

interpretation evm_scan: bounded_scanner scan_conf
  "\<lambda>(L, t, event). 0 < ev_ScanMaxHeight t" "\<lambda>(L, t, event). unat (ev_ScanMaxHeight t)"
proof unfold_locales
  fix c :: "eth_lib \<times> evm_token \<times> bytes" and h inp ms h' rs
  assume "scan_conf c h inp = Ok (ms, h', rs)" "case c of (L, t, event) \<Rightarrow> 0 < ev_ScanMaxHeight t"
    "height_ok inp"
  then show "rs = [] \<and> h' = h \<or> (\<exists>b. rs = [(h, b)] \<and> h \<le> b \<and> unat h' = Suc (unat b))"
    by (cases c) (auto simp: scan_conf_def dest: scan_step_range)
next
  fix c :: "eth_lib \<times> evm_token \<times> bytes" and h inp ms h' rs a b
  assume "scan_conf c h inp = Ok (ms, h', rs)" "case c of (L, t, event) \<Rightarrow> 0 < ev_ScanMaxHeight t"
    "(a, b) \<in> set rs"
  then show "unat b - unat a \<le> (case c of (L, t, event) \<Rightarrow> unat (ev_ScanMaxHeight t))"
    by (cases c) (auto simp: scan_conf_def scan_end_bounds dest!: scan_step_cases)
qed

section \<open>Properties of the listeners\<close>

text \<open>C26: the block scanner asks for every block exactly once. As long as the chain's height stays
  below the largest uint64 and \<open>ScanMaxHeight\<close> is positive, the ranges that were answered, in
  order, are the blocks from the first height up to the next one to scan, none twice and none
  left out, whatever calls fail in between; each range spans at most \<open>ScanMaxHeight + 1\<close> blocks.\<close>

theorem scanBlock_covers:
  assumes "scan_run (scan_step L t event) h inps = Ok (ms, h', rs)"
    and "0 < ev_ScanMaxHeight t" and "list_all height_ok inps"
  shows "scanned rs = [unat h..<unat h'] \<and>
    (\<forall>(a, b) \<in> set rs. unat b - unat a \<le> unat (ev_ScanMaxHeight t)) \<and>
    scanBlock L t event (Inr h) inps = Ok (ms, rs)"
  using evm_scan.run_covers [of "(L, t, event)" h inps ms h' rs]
    evm_scan.run_width [of "(L, t, event)" h inps ms h' rs] assms
  by (auto simp: scan_conf_def scanBlock_def)

definition demo_inputs :: "scan_input list" where
  "demo_inputs = [\<lparr>si_BlockNumber = Inr 30, si_FilterLogs = (\<lambda>q. Inr [])\<rparr>,
     \<lparr>si_BlockNumber = Inl (Errorf ''eof''), si_FilterLogs = (\<lambda>q. Inr [])\<rparr>,
     \<lparr>si_BlockNumber = Inr 31, si_FilterLogs = (\<lambda>q. Inr [])\<rparr>]"

theorem scanBlock_covers_witness:
  "\<exists>ms. scan_run (scan_step eth_demo demo_token []) 15 demo_inputs = Ok (ms, 32, [(15, 24), (25, 31)]) \<and>
     scanned [(15, 24), (25, 31)] = [15..<32]"
proof -
  have run: "scan_run (scan_step eth_demo demo_token []) 15 demo_inputs =
      Ok ([error_order 1 (Wrapf ''BlockNumber error. '' (Errorf ''eof''))], 32, [(15, 24), (25, 31)])"
    by (simp add: demo_inputs_def demo_token_def scan_step_def)
  have "scanned [(15, 24), (25, 31)] = [unat (15::u64)..<unat (32::u64)]"
    using scanBlock_covers [OF run] by (simp add: demo_inputs_def demo_token_def height_ok_def)
  with run show ?thesis by simp
qed

text \<open>With \<open>ScanMaxHeight\<close> zero, its value when the configuration leaves it out, the scanner
  never moves: once the chain is ahead of the scanner, a turn answers at most an empty range and
  starts the next turn from the same height.\<close>

theorem scan_step_stuck:
  assumes "ev_ScanMaxHeight t = 0" and "si_BlockNumber inp = Inr n" and "h < n"
    and "scan_step L t event h inp = Ok (ms, h', rs)"
  shows "h' = h \<and> set rs \<subseteq> {(h, h - 1)}"
  using assms
  by (auto simp: scan_step_def Let_def obind_Ok_conv word_less_nat_alt unat_sub
      word_le_nat_alt split: if_splits sum.splits)

theorem scan_step_stuck_witness:
  "\<exists>ms rs. scan_step eth_demo (demo_token\<lparr>ev_ScanMaxHeight := 0\<rparr>) [] 15
     \<lparr>si_BlockNumber = Inr 30, si_FilterLogs = (\<lambda>q. Inr [])\<rparr> = Ok (ms, 15, rs)"
proof -
  obtain ms h' rs where run: "scan_step eth_demo (demo_token\<lparr>ev_ScanMaxHeight := 0\<rparr>) [] 15
     \<lparr>si_BlockNumber = Inr 30, si_FilterLogs = (\<lambda>q. Inr [])\<rparr> = Ok (ms, h', rs)"
    by (simp add: scan_step_def demo_token_def)
  with scan_step_stuck [OF _ _ _ run] show ?thesis by simp
qed

text \<open>C28: what an order says is what the contract logged. For a log of the wrap event or the unwrap
  event whose data is a symbol, a zero byte, a platform name, zeros up to 32 bytes and an amount,
  the listener sends one order with that symbol, name and amount, the transaction's hash, and the
  addresses of the topics: the last 20 bytes for a wrap, the whole hex text for the target of an
  unwrap.\<close>

theorem deal_log_decodes:
  assumes L: "eth_lib_ok L" and ev: "EventWrap L \<noteq> EventUnWrap L"
    and lg: "lg_Topics lg = [t0, t1, t2]" "t0 = EventWrap L \<or> t0 = EventUnWrap L"
    and sy: "0 \<notin> set sy" "0 \<notin> set org" "length (sy @ 0 # org @ replicate n 0) = 32"
    and data: "lg_Data lg = sy @ 0 # org @ replicate n 0 @ am" "length am = 32"
  shows "deal_log L t lg = Ok [\<lparr>so_TxID = hash_Hex L (lg_TxHash lg), so_FromToken = ev_symbol t,
     so_ToToken = string_of_bytes sy, so_From = address_Hex L (BytesToAddress L t1),
     so_To = (if t0 = EventWrap L then address_Hex L (BytesToAddress L t2) else Bytes2Hex L t2),
     so_Amount = Some (big_set_bytes am), so_Org = string_of_bytes org,
     so_Error = None, so_Type = 0\<rparr>]"
proof -
  have hash: "hash_Hex L (EventUnWrap L) \<noteq> hash_Hex L (EventWrap L)"
    using ev length_topic [OF L] eth_lib_okD(3) [OF L]
    unfolding EventWrap_def EventUnWrap_def by metis
  define head where "head = sy @ 0 # (org @ replicate n 0)"
  have d: "lg_Data lg = head @ am" "length head = 32" using data sy by (simp_all add: head_def)
  have cut: "cut_zero head = (sy, org @ replicate n 0, True)"
    unfolding head_def by (rule cut_zero_cut) (rule sy(1))
  have org: "fst (cut_zero (org @ replicate n 0)) = org" "fst (cut_zero org) = org"
    using cut_zero_padded [OF sy(2)] cut_zero_padded [OF sy(2), of 0] by (simp_all del: fst_cut_zero)
  show ?thesis using lg(2)
  proof
    assume "t0 = EventWrap L"
    then show ?thesis using lg(1) d data(2) cut org
      by (simp add: deal_log_def dealWrapEvent_def go_simps Symbol_evm_def del: fst_cut_zero)
  next
    assume "t0 = EventUnWrap L"
    then show ?thesis using lg(1) d data(2) cut org hash ev
      by (simp add: deal_log_def dealUnWrapEvent_def go_simps Symbol_evm_def del: fst_cut_zero)
  qed
qed

theorem deal_log_decodes_witness:
  "\<exists>o1. deal_log eth_demo demo_token \<lparr>lg_Address = [], lg_Topics = [EventWrap eth_demo,
      replicate 32 3, replicate 32 4], lg_Data = [83] @ 0 # [84] @ replicate 29 0 @ replicate 31 0 @ [9],
      lg_TxHash = replicate 32 1, lg_Removed = False\<rparr> = Ok [o1] \<and> so_Amount o1 = Some 9 \<and>
      so_ToToken o1 = string_of_bytes [83] \<and> so_Org o1 = string_of_bytes [84]"
proof -
  have ne: "EventWrap eth_demo \<noteq> EventUnWrap eth_demo"
    by (simp add: EventWrap_def EventUnWrap_def topic_def eth_demo_def bytes_of_string_def
        numeral_eq_Suc)
  have am: "big_set_bytes (replicate 31 0 @ [9]) = 9" by (simp add: big_set_bytes_snoc)
  show ?thesis
    using am deal_log_decodes [OF eth_demo_ok ne, of "\<lparr>lg_Address = [], lg_Topics = [EventWrap eth_demo,
      replicate 32 3, replicate 32 4], lg_Data = [83] @ 0 # [84] @ replicate 29 0 @ replicate 31 0 @ [9],
      lg_TxHash = replicate 32 1, lg_Removed = False\<rparr>" "EventWrap eth_demo" "replicate 32 3"
      "replicate 32 4" "[83]" "[84]" 29 "replicate 31 0 @ [9]" demo_token]
    by simp
qed

text \<open>An unwrap event with one to 31 bytes of data passes the emptiness check and panics on the
  slice of the first 32 bytes, with any topics.\<close>

theorem dealUnWrapEvent_short_data_panics:
  assumes "0 < length (lg_Data lg)" and "length (lg_Data lg) < 32"
  shows "is_panic (dealUnWrapEvent L t lg)"
  using assms by (simp add: dealUnWrapEvent_def slice_to_def)

theorem dealUnWrapEvent_short_data_panics_witness:
  "is_panic (dealUnWrapEvent eth_demo demo_token \<lparr>lg_Address = [], lg_Topics = [[1], [2], [3]],
     lg_Data = [1, 2], lg_TxHash = [], lg_Removed = False\<rparr>)"
  by (rule dealUnWrapEvent_short_data_panics) simp_all

end
