(* ===== verification/Tx_Error.thy ===== *)
theory Tx_Error
  imports Scanner
begin

text \<open>
  Package tokens, txerr.go: the listener of the error record contract, where the bridge's
  operators record the orders that failed. \<open>dealFailedEvent\<close> reads one event;
  \<open>scanBlock\<close> and \<open>listenEvent\<close> are modelled like those of the bridge contract, with the
  suffix \<open>_txerr\<close>.
\<close>

record tx_error_contract =
  te_rpc :: string
  te_wss :: string
  te_chainId :: int
  te_account :: bytes
  te_contract :: bytes
  te_ListenType :: int
  te_TimePeriod :: i64    \<comment> \<open>in nanoseconds; the product wraps\<close>

definition NewTxErrorRecordContract ::
    "eth_lib \<Rightarrow> unit rpc \<Rightarrow> int rpc \<Rightarrow> string \<Rightarrow> string \<Rightarrow> string \<Rightarrow> int \<Rightarrow> i64 \<Rightarrow> tx_error_contract rpc"
  where
  "NewTxErrorRecordContract L dial networkID rpc wss conAddr listenType seconds = (case dial of
      Inl e \<Rightarrow> Inl e
    | Inr c \<Rightarrow> (case networkID of
        Inl e \<Rightarrow> Inl e
      | Inr chainId \<Rightarrow> Inr \<lparr>te_rpc = rpc, te_wss = wss, te_chainId = chainId,
          te_account = HexToAddress L ''0x96216849c49358B10257cb55b28eA603c874b05E'',
          te_contract = HexToAddress L conAddr, te_ListenType = listenType,
          te_TimePeriod = seconds * 1000000000\<rparr>))"

definition dealFailedEvent :: "int \<Rightarrow> eth_log \<Rightarrow> tx_error_record list" where
  "dealFailedEvent d vLog =
     (if length (lg_Data vLog) \<noteq> 96
      then [error_record 0 (Errorf ''error order record event data is error. '')]
      else let txid = take 32 (lg_Data vLog);
               fromCoin = fst (cut_zero (take 32 (drop 32 (lg_Data vLog))));
               toCoin = fst (cut_zero (take 32 (drop 64 (lg_Data vLog))))
        in [\<lparr>ter_D = d, ter_Txid = txid, ter_FromCoin = string_of_bytes fromCoin,
             ter_ToCoin = string_of_bytes toCoin, ter_Error = None, ter_Type = 0\<rparr>])"

definition deal_record :: "eth_lib \<Rightarrow> eth_log \<Rightarrow> tx_error_record list outcome" where
  "deal_record L lg =
     (if lg_Removed lg then Ok []
      else obind (index_at 0 (lg_Topics lg)) (\<lambda>topic0.
        if topic0 = EventUnWrapFailed L then Ok (dealFailedEvent (- 1) lg)
        else if topic0 = EventWrapFailed L then Ok (dealFailedEvent 1 lg)
        else Ok []))"

fun deal_records :: "eth_lib \<Rightarrow> eth_log list \<Rightarrow> tx_error_record list outcome" where
  "deal_records L [] = Ok []"
| "deal_records L (lg # lgs) =
     obind (deal_record L lg) (\<lambda>m. obind (deal_records L lgs) (\<lambda>ms. Ok (m @ ms)))"

definition txerr_query :: "eth_lib \<Rightarrow> tx_error_contract \<Rightarrow> u64 option \<Rightarrow> u64 option \<Rightarrow> filter_query"
  where
  "txerr_query L c fromBlock toBlock =
     \<lparr>q_BlockHash = None, q_FromBlock = fromBlock, q_ToBlock = toBlock,
      q_Addresses = [te_contract c], q_Topics = [[EventUnWrapFailed L, EventWrapFailed L]]\<rparr>"

definition scan_step_txerr :: "eth_lib \<Rightarrow> tx_error_contract \<Rightarrow> u64 \<Rightarrow> scan_input
    \<Rightarrow> tx_error_record scan_turn" where
  "scan_step_txerr L c fromHeight inp = (case si_BlockNumber inp of
      Inl e \<Rightarrow> Ok ([error_record 1 (Wrapf ''BlockNumber error. '' e)], fromHeight, [])
    | Inr toHeight \<Rightarrow>
        if toHeight < fromHeight then Ok ([], fromHeight, [])
        else (case si_FilterLogs inp (txerr_query L c (Some fromHeight) (Some toHeight)) of
            Inl e \<Rightarrow> Ok ([error_record 1 (Wrapf ''client FilterLogs error. '' e)], fromHeight, [])
          | Inr logs \<Rightarrow> obind (deal_records L logs) (\<lambda>ms.
              Ok (ms, toHeight + 1, [(fromHeight, toHeight)]))))"

definition scanBlock_txerr :: "eth_lib \<Rightarrow> tx_error_contract \<Rightarrow> u64 rpc \<Rightarrow> scan_input list
    \<Rightarrow> (tx_error_record list \<times> (u64 \<times> u64) list) outcome" where
  "scanBlock_txerr L c start inps = (case start of
      Inl e \<Rightarrow> Ok ([error_record 0 (Wrapf ''get the block number error. '' e)], [])
    | Inr fromHeight \<Rightarrow>
        obind (scan_run (scan_step_txerr L c) fromHeight inps) (\<lambda>(ms, _, rs). Ok (ms, rs)))"

fun listen_records :: "eth_lib \<Rightarrow> sub_message list \<Rightarrow> tx_error_record list outcome" where
  "listen_records L [] = Ok []"
| "listen_records L (SubErr e # ms) = Ok [error_record 0 (Wrapf ''event wss sub error. '' e)]"
| "listen_records L (SubLog vLog # ms) =
     obind (deal_record L vLog) (\<lambda>os. obind (listen_records L ms) (\<lambda>os'. Ok (os @ os')))"

definition listenEvent_txerr :: "eth_lib \<Rightarrow> tx_error_contract \<Rightarrow> unit rpc
    \<Rightarrow> (filter_query \<Rightarrow> sub_message list rpc) \<Rightarrow> tx_error_record list outcome" where
  "listenEvent_txerr L c dial subscribe = (case dial of
      Inl e \<Rightarrow> Ok [error_record 0 (Wrapf ''the EthWssClient redial error. '' e)]
    | Inr _ \<Rightarrow> (case subscribe (txerr_query L c None None) of
        Inl e \<Rightarrow> Ok [error_record 0 (Wrapf ''get event logs from eth wss client error. '' e)]
      | Inr ms \<Rightarrow> listen_records L ms))"

definition StartListen :: "eth_lib \<Rightarrow> tx_error_contract \<Rightarrow> listen_world
    \<Rightarrow> tx_error_record list outcome" where
  "StartListen L c W =
     (if te_ListenType c = ListenEvent then listenEvent_txerr L c (lw_dial W) (lw_subscribe W)
      else if te_ListenType c = ScanBlock
      then obind (scanBlock_txerr L c (lw_start W) (lw_inputs W)) (\<lambda>(ms, _). Ok ms)
      else Ok [])"

section \<open>Lemmas\<close>

lemma scan_step_txerr_range:
  assumes "scan_step_txerr L c h inp = Ok (ms, h', rs)" and "height_ok inp"
  shows "rs = [] \<and> h' = h \<or> (\<exists>b. rs = [(h, b)] \<and> h \<le> b \<and> unat h' = Suc (unat b))"
  using assms
  by (auto simp: scan_step_txerr_def height_ok_def obind_Ok_conv not_less word_succ_unat
      split: if_splits sum.splits)

definition txerr_conf :: "eth_lib \<times> tx_error_contract \<Rightarrow> u64 \<Rightarrow> scan_input
    \<Rightarrow> tx_error_record scan_turn" where
  "txerr_conf c = (case c of (L, con) \<Rightarrow> scan_step_txerr L con)"

interpretation txerr_scan: range_scanner txerr_conf "\<lambda>_. True"
  by unfold_locales (auto simp: txerr_conf_def dest: scan_step_txerr_range split: prod.splits)

section \<open>Properties\<close>

text \<open>The scanner of the error records asks for every block exactly once: the answered ranges
  of a run, in order, are the blocks from the first height up to the next one to scan, whatever
  calls fail in between.\<close>

theorem scanBlock_txerr_covers:
  assumes "scan_run (scan_step_txerr L c) h inps = Ok (ms, h', rs)" and "list_all height_ok inps"
  shows "scanned rs = [unat h..<unat h'] \<and> scanBlock_txerr L c (Inr h) inps = Ok (ms, rs)"
  using txerr_scan.run_covers [of "(L, c)" h inps ms h' rs] assms
  by (auto simp: txerr_conf_def scanBlock_txerr_def)

definition demo_contract :: tx_error_contract where
  "demo_contract = \<lparr>te_rpc = [], te_wss = [], te_chainId = 1, te_account = [], te_contract = [7],
     te_ListenType = 1, te_TimePeriod = 0\<rparr>"

definition demo_answers :: "scan_input list" where
  "demo_answers = [\<lparr>si_BlockNumber = Inr 3, si_FilterLogs = (\<lambda>q. Inr [])\<rparr>,
     \<lparr>si_BlockNumber = Inr 9, si_FilterLogs = (\<lambda>q. Inl (Errorf ''eof''))\<rparr>,
     \<lparr>si_BlockNumber = Inr 10, si_FilterLogs = (\<lambda>q. Inr [])\<rparr>]"

theorem scanBlock_txerr_covers_witness:
  "\<exists>ms. scanBlock_txerr eth_demo demo_contract (Inr 2) demo_answers = Ok (ms, [(2, 3), (4, 10)]) \<and>
     scanned [(2, 3), (4, 10)] = [2..<11]"
proof -
  have run: "scan_run (scan_step_txerr eth_demo demo_contract) 2 demo_answers =
      Ok ([error_record 1 (Wrapf ''client FilterLogs error. '' (Errorf ''eof''))], 11, [(2, 3), (4, 10)])"
    by (simp add: demo_answers_def scan_step_txerr_def)
  have "list_all height_ok demo_answers" by (simp add: demo_answers_def height_ok_def)
  from scanBlock_txerr_covers [OF run this] show ?thesis by auto
qed

text \<open>A record says what the contract logged: 96 bytes of data that hold a transaction id and
  two zero-padded coin names give one record with these and the direction of the event; data of
  any other length gives the error that makes the server reconnect.\<close>

theorem dealFailedEvent_decodes:
  assumes "length uid = 32" and "0 \<notin> set c1" "length c1 + n1 = 32" and "0 \<notin> set c2" "length c2 + n2 = 32"
    and "lg_Data lg = uid @ (c1 @ replicate n1 0) @ c2 @ replicate n2 0"
  shows "dealFailedEvent d lg = [\<lparr>ter_D = d, ter_Txid = uid, ter_FromCoin = string_of_bytes c1,
     ter_ToCoin = string_of_bytes c2, ter_Error = None, ter_Type = 0\<rparr>]"
proof -
  have "take 32 (lg_Data lg) = uid" "take 32 (drop 32 (lg_Data lg)) = c1 @ replicate n1 0"
    "take 32 (drop 64 (lg_Data lg)) = c2 @ replicate n2 0" "length (lg_Data lg) = 96"
    using assms by (simp_all add: take_Cons')
  note t = this
  note cut = cut_zero_padded [OF assms(2)] cut_zero_padded [OF assms(4)]
  show ?thesis unfolding dealFailedEvent_def Let_def t(1,2,3) cut by (simp add: t(4))
qed

theorem dealFailedEvent_decodes_witness:
  "dealFailedEvent 1 \<lparr>lg_Address = [], lg_Topics = [], lg_Data = replicate 32 9 @
     ([83, 77] @ replicate 30 0) @ [73] @ replicate 31 0, lg_TxHash = [], lg_Removed = False\<rparr> =
   [\<lparr>ter_D = 1, ter_Txid = replicate 32 9, ter_FromCoin = string_of_bytes [83, 77],
     ter_ToCoin = string_of_bytes [73], ter_Error = None, ter_Type = 0\<rparr>]"
  by (rule dealFailedEvent_decodes) simp_all

end
