(* ===== verification/Iota_Ledger.thy ===== *)
theory Iota_Ledger
  imports Chain_Types
begin

text \<open>
  What the Iota and Shimmer tokens share: the outputs of the ledger as far as the source reads
  them, the transaction under construction, and the selection of unspent outputs as inputs.

  \<open>iota_output\<close> has the fields the source asks an \<open>iotago.Output\<close> for; its unlock conditions
  have distinct types, as the library's decoder checks. The functions of iota.go are the fields of
  \<open>iota_lib\<close>, a parameter. The builder is \<open>UnsignTransactionBuilder\<close> of
  tokens/iotasmr/types.go; the library's \<open>TransactionBuilder\<close>, which tokens/smr/send.go fills in
  the same way, is the same record.

  The node's indexer answers with pages of output ids and outputs. The four selection loops of the
  source are \<open>select_pages\<close> with the test that skips an output and the test that leaves the
  inner loop; a \<open>break\<close> there goes on to the next page, as in Go. The basic selection of
  tokens/iotasmr, which also asks for the state of each output and starts over when that fails,
  is \<open>select_checked\<close>. Amounts of the base coin are uint64.
\<close>

section \<open>Outputs\<close>

datatype iota_address = Ed25519Address bytes | OtherAddress nat bytes

datatype unlock_condition = AddressUnlock iota_address | OtherUnlock nat

record iota_output =
  out_basic :: bool                          \<comment> \<open>\<open>Type() == iotago.OutputBasic\<close>\<close>
  out_Amount :: u64                          \<comment> \<open>\<open>Deposit()\<close>\<close>
  out_Native :: "(bytes \<times> int) list"         \<comment> \<open>\<open>NativeTokenList()\<close>: ids and amounts\<close>
  out_Conds :: "unlock_condition list"
  out_Metadata :: "bytes option"
  out_Tag :: "bytes option"

fun conds_address :: "unlock_condition list \<Rightarrow> iota_address option" where
  "conds_address [] = None"
| "conds_address (AddressUnlock a # cs) = Some a"
| "conds_address (OtherUnlock n # cs) = conds_address cs"

definition basic_output :: "u64 \<Rightarrow> (bytes \<times> int) list \<Rightarrow> iota_address \<Rightarrow> bytes option \<Rightarrow> bytes option
    \<Rightarrow> iota_output" where
  "basic_output amount native addr metadata tag =
     \<lparr>out_basic = True, out_Amount = amount, out_Native = native, out_Conds = [AddressUnlock addr],
      out_Metadata = metadata, out_Tag = tag\<rparr>"

lemma basic_output_simps [simp]:
  "out_basic (basic_output am nt a md tg)" "out_Amount (basic_output am nt a md tg) = am"
  "out_Native (basic_output am nt a md tg) = nt"
  "out_Conds (basic_output am nt a md tg) = [AddressUnlock a]"
  "out_Metadata (basic_output am nt a md tg) = md" "out_Tag (basic_output am nt a md tg) = tg"
  by (simp_all add: basic_output_def)

section \<open>Transactions\<close>

record essence =
  es_NetworkID :: u64
  es_Inputs :: "bytes list"                  \<comment> \<open>output ids\<close>
  es_Commitment :: bytes
  es_Outputs :: "iota_output list"

record proto_params =
  pp_NetworkID :: u64
  pp_VByteCost :: u64

text \<open>The struct \<open>WrapOrder\<close> of both token packages.\<close>

record wrap_order =
  w_Tag :: string
  w_From :: string
  w_To :: string
  w_Symbol :: string

record iota_lib =
  AddressFromPubKey :: "bytes \<Rightarrow> iota_address"
  address_String :: "iota_address \<Rightarrow> string"
  Bech32 :: "string \<Rightarrow> iota_address \<Rightarrow> string"
  Unmarshal_WrapOrder :: "bytes \<Rightarrow> wrap_order rpc"
  VBytes :: "iota_output \<Rightarrow> u64"
  Commitment :: "iota_output list \<Rightarrow> bytes rpc"
  SigningMessage :: "essence \<Rightarrow> bytes rpc"
  Essence_MarshalJSON :: "essence \<Rightarrow> bytes rpc"
  Essence_UnmarshalJSON :: "bytes \<Rightarrow> essence rpc"
  FoundryIDLength :: nat
  MaxTagLength :: nat

text \<open>What the code relies on: the JSON form of a transaction reads back as the transaction.\<close>

definition iota_lib_ok :: "iota_lib \<Rightarrow> bool" where
  "iota_lib_ok I \<longleftrightarrow>
     (\<forall>e js. Essence_MarshalJSON I e = Inr js \<longrightarrow> Essence_UnmarshalJSON I js = Inr e)"

section \<open>The transaction builder (tokens/iotasmr/types.go)\<close>

record tx_builder =
  bd_essence :: essence
  bd_inputs :: "bytes \<Rightarrow> iota_output option"

definition NewUnsignTransactionBuilder :: "u64 \<Rightarrow> tx_builder" where
  "NewUnsignTransactionBuilder networkID =
     \<lparr>bd_essence = \<lparr>es_NetworkID = networkID, es_Inputs = [], es_Commitment = replicate 32 0,
        es_Outputs = []\<rparr>,
      bd_inputs = Map.empty\<rparr>"

definition AddInput :: "bytes \<Rightarrow> iota_output \<Rightarrow> tx_builder \<Rightarrow> tx_builder" where
  "AddInput inputID inp b =
     b\<lparr>bd_essence := (bd_essence b)\<lparr>es_Inputs := es_Inputs (bd_essence b) @ [inputID]\<rparr>,
       bd_inputs := (bd_inputs b)(inputID \<mapsto> inp)\<rparr>"

definition AddOutput :: "iota_output \<Rightarrow> tx_builder \<Rightarrow> tx_builder" where
  "AddOutput output b =
     b\<lparr>bd_essence := (bd_essence b)\<lparr>es_Outputs := es_Outputs (bd_essence b) @ [output]\<rparr>\<rparr>"

text \<open>\<open>OrderedSet\<close> looks every input id up among the outputs; every id has been added with its
  output.\<close>

definition GetTxEssenceData :: "iota_lib \<Rightarrow> tx_builder \<Rightarrow> (bytes \<times> bytes) rpc" where
  "GetTxEssenceData I b =
     (let inputs = map (\<lambda>i. the (bd_inputs b i)) (es_Inputs (bd_essence b)) in
      case Commitment I inputs of
        Inl e \<Rightarrow> Inl e
      | Inr commitment \<Rightarrow>
          let essence = (bd_essence b)\<lparr>es_Commitment := commitment\<rparr> in
          (case SigningMessage I essence of
             Inl e \<Rightarrow> Inl e
           | Inr hash \<Rightarrow> (case Essence_MarshalJSON I essence of
               Inl e \<Rightarrow> Inl e
             | Inr txData \<Rightarrow> Inr (hash, txData))))"

lemma AddInput_simps [simp]:
  "es_Inputs (bd_essence (AddInput i x b)) = es_Inputs (bd_essence b) @ [i]"
  "es_Outputs (bd_essence (AddInput i x b)) = es_Outputs (bd_essence b)"
  "bd_inputs (AddInput i x b) = (bd_inputs b)(i \<mapsto> x)"
  by (simp_all add: AddInput_def)

lemma AddOutput_simps [simp]:
  "es_Inputs (bd_essence (AddOutput x b)) = es_Inputs (bd_essence b)"
  "es_Outputs (bd_essence (AddOutput x b)) = es_Outputs (bd_essence b) @ [x]"
  "bd_inputs (AddOutput x b) = bd_inputs b"
  by (simp_all add: AddOutput_def)

lemma NewBuilder_simps [simp]:
  "es_Inputs (bd_essence (NewUnsignTransactionBuilder n)) = []"
  "es_Outputs (bd_essence (NewUnsignTransactionBuilder n)) = []"
  by (simp_all add: NewUnsignTransactionBuilder_def)

section \<open>Selecting outputs\<close>

definition MAX_INPUT_COUNT :: nat where "MAX_INPUT_COUNT = 128"

record page =
  pg_ids :: "bytes list rpc"
  pg_outputs :: "iota_output list"

text \<open>The loop variables: the inputs added so far, their deposits, the first native token of each,
  and their number.\<close>

record selection =
  sl_inputs :: "(bytes \<times> iota_output) list"
  sl_sum :: u64
  sl_tokens :: int
  sl_count :: nat

definition no_selection :: selection where
  "no_selection = \<lparr>sl_inputs = [], sl_sum = 0, sl_tokens = 0, sl_count = 0\<rparr>"

definition token_amount :: "iota_output \<Rightarrow> int" where
  "token_amount o1 = (case out_Native o1 of [] \<Rightarrow> 0 | (_, a) # _ \<Rightarrow> a)"

definition take_output :: "bytes \<Rightarrow> iota_output \<Rightarrow> selection \<Rightarrow> selection" where
  "take_output i o1 s =
     \<lparr>sl_inputs = sl_inputs s @ [(i, o1)], sl_sum = sl_sum s + out_Amount o1,
      sl_tokens = sl_tokens s + token_amount o1, sl_count = sl_count s + 1\<rparr>"

fun select_outputs :: "(iota_output \<Rightarrow> bool) \<Rightarrow> (selection \<Rightarrow> bool) \<Rightarrow> bytes list \<Rightarrow> iota_output list
    \<Rightarrow> selection \<Rightarrow> selection outcome" where
  "select_outputs skip stop ids [] s = Ok s"
| "select_outputs skip stop ids (o1 # os) s =
     (if skip o1 then select_outputs skip stop (tl ids) os s
      else obind (index_at 0 ids) (\<lambda>i.
        let s' = take_output i o1 s in
        if stop s' then Ok s' else select_outputs skip stop (tl ids) os s'))"

fun select_pages :: "(iota_output \<Rightarrow> bool) \<Rightarrow> (selection \<Rightarrow> bool) \<Rightarrow> page list \<Rightarrow> selection
    \<Rightarrow> selection outcome" where
  "select_pages skip stop [] s = Ok s"
| "select_pages skip stop (p # ps) s = (case pg_ids p of
      Inl e \<Rightarrow> Err e
    | Inr ids \<Rightarrow> obind (select_outputs skip stop ids (pg_outputs p) s) (select_pages skip stop ps))"

definition add_inputs :: "(bytes \<times> iota_output) list \<Rightarrow> tx_builder \<Rightarrow> tx_builder" where
  "add_inputs ins b = fold (\<lambda>(i, o1). AddInput i o1) ins b"

lemma add_inputs_essence:
  "es_Inputs (bd_essence (add_inputs ins b)) = es_Inputs (bd_essence b) @ map fst ins"
  "es_Outputs (bd_essence (add_inputs ins b)) = es_Outputs (bd_essence b)"
  unfolding add_inputs_def by (induction ins arbitrary: b) auto

section \<open>What a selection adds up to\<close>

definition deposits :: "(bytes \<times> iota_output) list \<Rightarrow> u64" where
  "deposits ins = sum_list (map (out_Amount \<circ> snd) ins)"

definition native_total :: "(bytes \<times> iota_output) list \<Rightarrow> int" where
  "native_total ins = sum_list (map (token_amount \<circ> snd) ins)"

definition selection_ok :: "(iota_output \<Rightarrow> bool) \<Rightarrow> selection \<Rightarrow> bool" where
  "selection_ok skip s \<longleftrightarrow> sl_sum s = deposits (sl_inputs s) \<and> sl_tokens s = native_total (sl_inputs s) \<and>
     sl_count s = length (sl_inputs s) \<and> (\<forall>(i, o1) \<in> set (sl_inputs s). \<not> skip o1)"

lemma deposits_simps [simp]:
  "deposits [] = 0" "deposits (x # xs) = out_Amount (snd x) + deposits xs"
  "deposits (xs @ ys) = deposits xs + deposits ys"
  by (simp_all add: deposits_def)

lemma native_total_simps [simp]:
  "native_total [] = 0" "native_total (x # xs) = token_amount (snd x) + native_total xs"
  "native_total (xs @ ys) = native_total xs + native_total ys"
  by (simp_all add: native_total_def)

lemma no_selection_ok [simp]: "selection_ok skip no_selection"
  by (simp add: selection_ok_def no_selection_def)

lemma take_output_ok: "selection_ok skip s \<Longrightarrow> \<not> skip o1 \<Longrightarrow> selection_ok skip (take_output i o1 s)"
  by (simp add: selection_ok_def take_output_def)

lemma select_outputs_ok:
  "select_outputs skip stop ids os s = Ok s' \<Longrightarrow> selection_ok skip s \<Longrightarrow> selection_ok skip s'"
proof (induction skip stop ids os s rule: select_outputs.induct)
  case (2 skip stop ids o1 os s)
  then show ?case
    by (auto simp: obind_Ok_conv Let_def take_output_ok split: if_splits)
qed simp

lemma select_pages_ok:
  "select_pages skip stop ps s = Ok s' \<Longrightarrow> selection_ok skip s \<Longrightarrow> selection_ok skip s'"
proof (induction skip stop ps s rule: select_pages.induct)
  case (2 skip stop p ps s)
  then show ?case
    by (auto simp: obind_Ok_conv dest: select_outputs_ok split: sum.splits)
qed simp

section \<open>Selection that checks every output and may start over\<close>

text \<open>The state of an output: the node fails or says whether it is spent.\<close>

type_synonym spent_fn = "bytes \<Rightarrow> bool rpc"

text \<open>One pass over the pages ends with a selection, or wants to start over, with the inputs it
  has added so far; \<open>getUtxosCount\<close> counts the failures since the label \<open>GetUtxos\<close>, where it is
  declared with the value 0.\<close>

datatype pass = Selected selection | StartOver "(bytes \<times> iota_output) list"
  | Failed go_error "(bytes \<times> iota_output) list" | Broken string

definition metadata_failed :: "nat \<Rightarrow> selection \<Rightarrow> pass" where
  "metadata_failed getUtxosCount s =
     (let getUtxosCount = getUtxosCount + 1 in
      if getUtxosCount > 6
      then Failed (Errorf ''get outputmetadata error or the output was spent. '') (sl_inputs s)
      else StartOver (sl_inputs s))"

fun checked_outputs :: "(iota_output \<Rightarrow> bool) \<Rightarrow> (selection \<Rightarrow> bool) \<Rightarrow> spent_fn \<Rightarrow> nat \<Rightarrow> bytes list
    \<Rightarrow> iota_output list \<Rightarrow> selection \<Rightarrow> pass" where
  "checked_outputs skip stop spent c ids [] s = Selected s"
| "checked_outputs skip stop spent c ids (o1 # os) s =
     (if skip o1 then checked_outputs skip stop spent c (tl ids) os s
      else case ids of
        [] \<Rightarrow> Broken ''index out of range''
      | i # ids' \<Rightarrow>
          (if spent i \<noteq> Inr False then metadata_failed c s
           else let s' = take_output i o1 s in
             if stop s' then Selected s' else checked_outputs skip stop spent c ids' os s'))"

fun checked_pages :: "(iota_output \<Rightarrow> bool) \<Rightarrow> (selection \<Rightarrow> bool) \<Rightarrow> spent_fn \<Rightarrow> nat \<Rightarrow> page list
    \<Rightarrow> selection \<Rightarrow> pass" where
  "checked_pages skip stop spent c [] s = Selected s"
| "checked_pages skip stop spent c (p # ps) s = (case pg_ids p of
      Inl e \<Rightarrow> Failed e (sl_inputs s)
    | Inr ids \<Rightarrow> (case checked_outputs skip stop spent c ids (pg_outputs p) s of
        Selected s' \<Rightarrow> checked_pages skip stop spent c ps s'
      | r \<Rightarrow> r))"

text \<open>What the node answers in one pass: the pages, or an error, and the state of the outputs.\<close>

record attempt =
  at_pages :: "page list rpc"
  at_spent :: spent_fn

text \<open>The passes, one per element of the list; the builder keeps what the passes before have
  added. \<open>None\<close> when the list ends before the selection does.\<close>

fun select_checked :: "(iota_output \<Rightarrow> bool) \<Rightarrow> (selection \<Rightarrow> bool) \<Rightarrow> attempt list \<Rightarrow> tx_builder
    \<Rightarrow> (tx_builder \<times> selection outcome) option" where
  "select_checked skip stop [] b = None"
| "select_checked skip stop (a # as) b = (case at_pages a of
      Inl e \<Rightarrow> Some (b, Err e)
    | Inr ps \<Rightarrow> (case checked_pages skip stop (at_spent a) 0 ps no_selection of
        Selected s \<Rightarrow> Some (add_inputs (sl_inputs s) b, Ok s)
      | StartOver ins \<Rightarrow> select_checked skip stop as (add_inputs ins b)
      | Failed e ins \<Rightarrow> Some (add_inputs ins b, Err e)
      | Broken p \<Rightarrow> Some (b, Panic p)))"

lemma checked_outputs_ok:
  "checked_outputs skip stop spent c ids os s = Selected s' \<Longrightarrow> selection_ok skip s \<Longrightarrow>
     selection_ok skip s'"
proof (induction skip stop spent c ids os s rule: checked_outputs.induct)
  case (2 skip stop spent c ids o1 os s)
  then show ?case
    by (auto simp: Let_def take_output_ok metadata_failed_def split: if_splits list.splits)
qed simp

lemma checked_pages_ok:
  "checked_pages skip stop spent c ps s = Selected s' \<Longrightarrow> selection_ok skip s \<Longrightarrow> selection_ok skip s'"
proof (induction skip stop spent c ps s rule: checked_pages.induct)
  case (2 skip stop spent c p ps s)
  then show ?case
    by (auto dest: checked_outputs_ok split: sum.splits pass.splits)
qed simp

lemma select_checked_ok:
  "select_checked skip stop as b = Some (b', Ok s) \<Longrightarrow> selection_ok skip s"
proof (induction skip stop as b rule: select_checked.induct)
  case (2 skip stop a as b)
  then show ?case
    by (auto dest: checked_pages_ok [OF _ no_selection_ok] split: sum.splits pass.splits)
qed simp

section \<open>Where the inputs come from\<close>

text \<open>The pairs of an id and an output that the pages offer.\<close>

definition offered :: "page list \<Rightarrow> (bytes \<times> iota_output) set" where
  "offered ps = (\<Union>p \<in> set ps. case pg_ids p of Inl e \<Rightarrow> {} | Inr ids \<Rightarrow> set (zip ids (pg_outputs p)))"

lemma offered_simps [simp]:
  "offered [] = {}"
  "offered (p # ps) = (case pg_ids p of Inl e \<Rightarrow> {} | Inr ids \<Rightarrow> set (zip ids (pg_outputs p))) \<union> offered ps"
  by (simp_all add: offered_def)

lemma zip_tl: "set (zip (tl xs) ys) \<subseteq> set (zip xs (y # ys))"
  by (cases xs) auto

lemma select_outputs_from:
  "select_outputs skip stop ids os s = Ok s' \<Longrightarrow>
     set (sl_inputs s') \<subseteq> set (sl_inputs s) \<union> set (zip ids os)"
proof (induction skip stop ids os s rule: select_outputs.induct)
  case (2 skip stop ids o1 os s)
  show ?case
  proof (cases "skip o1")
    case True
    with 2 zip_tl [of ids os o1] show ?thesis by auto
  next
    case False
    with 2(3) obtain i ids' where ids: "ids = i # ids'"
      by (cases ids) (auto simp: index_at_def)
    with False 2 show ?thesis
      by (auto simp: obind_Ok_conv index_at_Ok_conv Let_def take_output_def split: if_splits)
  qed
qed simp

lemma select_pages_from:
  "select_pages skip stop ps s = Ok s' \<Longrightarrow> set (sl_inputs s') \<subseteq> set (sl_inputs s) \<union> offered ps"
proof (induction skip stop ps s rule: select_pages.induct)
  case (2 skip stop p ps s)
  then show ?case
    by (fastforce simp: obind_Ok_conv dest: select_outputs_from split: sum.splits)
qed simp

lemma checked_outputs_from:
  "checked_outputs skip stop spent c ids os s = Selected s' \<Longrightarrow>
     set (sl_inputs s') \<subseteq> set (sl_inputs s) \<union> {x \<in> set (zip ids os). spent (fst x) = Inr False}"
proof (induction skip stop spent c ids os s rule: checked_outputs.induct)
  case (2 skip stop spent c ids o1 os s)
  show ?case
  proof (cases "skip o1")
    case True
    with 2 zip_tl [of ids os o1] show ?thesis by auto
  next
    case False
    with 2(3) obtain i ids' where ids: "ids = i # ids'" by (cases ids) auto
    from False ids 2(3) have ok: "spent i = Inr False"
      by (auto simp: metadata_failed_def Let_def split: if_splits)
    show ?thesis
    proof (cases "stop (take_output i o1 s)")
      case True
      with False ids ok 2(3) show ?thesis by (auto simp: Let_def take_output_def)
    next
      case no: False
      have "set (sl_inputs s') \<subseteq> set (sl_inputs (take_output i o1 s)) \<union>
          {x \<in> set (zip ids' os). spent (fst x) = Inr False}"
        using 2(2) [OF False ids _ refl no] 2(3) False ids ok no by (simp add: Let_def)
      with ids ok show ?thesis by (auto simp: take_output_def)
    qed
  qed
qed simp

lemma checked_pages_from:
  "checked_pages skip stop spent c ps s = Selected s' \<Longrightarrow>
     set (sl_inputs s') \<subseteq> set (sl_inputs s) \<union> {x \<in> offered ps. spent (fst x) = Inr False}"
proof (induction skip stop spent c ps s rule: checked_pages.induct)
  case (2 skip stop spent c p ps s)
  then show ?case
    by (fastforce dest: checked_outputs_from split: sum.splits pass.splits)
qed simp

end
