(* ===== verification/Iota_Smr.thy ===== *)
theory Iota_Smr
  imports Iota_Ledger
begin

text \<open>
  Package tokens/iotasmr (detect.go, send.go and the block builder of types.go): the token on the
  Iota or Shimmer ledger whose unwraps the group signs together. \<open>iota_token\<close> is the struct
  \<open>IotaSmrToken\<close>; its protocol parameters are nil until \<open>StartWrapListen\<close> has asked the node.
  The node is the parameter \<open>iota_node\<close>, one field per call.

  A run of an operation that asks the indexer may start over without end; such an operation
  returns an option, \<open>None\<close> when the node's answers end before the run does.
\<close>

section \<open>The token and its node\<close>

record iota_token =
  it_rpc :: string
  it_protoParas :: "proto_params option"
  it_publicKey :: bytes
  it_hrp :: string
  it_addr :: iota_address
  it_addrBech32 :: string
  it_symbol :: string
  it_tokenID :: bytes

record block_meta =
  bm_BlockID :: string
  bm_Solid :: bool
  bm_ConflictReason :: nat

datatype signature = Ed25519Signature bytes bytes | OtherSignature   \<comment> \<open>public key, signature\<close>
datatype unlock = SignatureUnlock signature | ReferenceUnlock nat | OtherUnlockKind

text \<open>A transaction in a block; its outputs in the order Go's map iteration meets them.\<close>

record iota_tx =
  tr_OutputsSet :: "iota_output list rpc"
  tr_Unlocks :: "unlock list"

datatype block_payload = NoPayload | OtherPayload | TxPayload iota_tx

record signed_essence =
  se_Essence :: essence
  se_Unlocks :: "unlock list"

record iota_node =
  nd_Info :: "proto_params rpc"
  nd_Indexer :: "unit rpc"
  nd_attempts :: "attempt list"              \<comment> \<open>basic outputs, one element per pass\<close>
  nd_native :: "page list rpc"               \<comment> \<open>outputs with native tokens\<close>
  BlockMetadataByBlockID :: "bytes \<Rightarrow> block_meta rpc"
  BlockByBlockID :: "proto_params option \<Rightarrow> bytes \<Rightarrow> block_payload outcome"   \<comment> \<open>nil parameters may panic\<close>
  Serialize :: "signed_essence \<Rightarrow> go_error option"
  BuildBlock :: "signed_essence \<Rightarrow> bytes rpc"   \<comment> \<open>tips, proof of work and build\<close>
  SubmitBlock :: "bytes \<Rightarrow> bytes rpc"

definition NewIotaSmrToken ::
    "eth_lib \<Rightarrow> iota_lib \<Rightarrow> string \<Rightarrow> string \<Rightarrow> string \<Rightarrow> string \<Rightarrow> string \<Rightarrow> iota_token outcome" where
  "NewIotaSmrToken L I url publicKey symbol tokenID hrp =
     (let nativeID = FromHex L tokenID;
          foundryID = (if length nativeID = FoundryIDLength I then nativeID
                       else replicate (FoundryIDLength I) 0);
          pubKey = FromHex L publicKey
      in if length pubKey \<noteq> 32 then Panic ''NewIotaSmrToken, wrong public key''
         else let edAddr = AddressFromPubKey I pubKey in
           Ok \<lparr>it_rpc = url, it_protoParas = None, it_publicKey = pubKey, it_hrp = hrp,
               it_addr = edAddr, it_addrBech32 = Bech32 I hrp edAddr, it_symbol = symbol,
               it_tokenID = foundryID\<rparr>)"

definition MultiSignType_iota :: "iota_token \<Rightarrow> int" where "MultiSignType_iota t = SmpcSign"
definition ChainID_iota :: "iota_token \<Rightarrow> string" where "ChainID_iota t = it_hrp t"

text \<open>\<open>strings.ToUpper\<close> on ASCII text.\<close>

definition upper_char :: "char \<Rightarrow> char" where
  "upper_char c = (let n = (of_char c :: nat) in if 97 \<le> n \<and> n \<le> 122 then char_of (n - 32) else c)"

definition Symbol_iota :: "iota_token \<Rightarrow> string" where
  "Symbol_iota t = map upper_char (it_symbol t)"

definition PublicKey_iota :: "iota_token \<Rightarrow> bytes" where "PublicKey_iota t = it_publicKey t"
definition KeyType_iota :: "iota_token \<Rightarrow> string" where "KeyType_iota t = ''ED25519''"
definition Address_iota :: "iota_token \<Rightarrow> string" where "Address_iota t = it_addrBech32 t"

section \<open>Wrap orders (detect.go)\<close>

definition getTagDataFromFeature :: "iota_output \<Rightarrow> bytes" where
  "getTagDataFromFeature output = (case out_Tag output of None \<Rightarrow> [] | Some tag \<Rightarrow> tag)"

definition getAmountFromOutput :: "iota_token \<Rightarrow> iota_output \<Rightarrow> int" where
  "getAmountFromOutput t output = (case out_Native output of
      [(tid, amount)] \<Rightarrow> if tid = it_tokenID t then amount else uint (out_Amount output)
    | _ \<Rightarrow> uint (out_Amount output))"

definition getWrapOrderFromMetaData :: "iota_lib \<Rightarrow> iota_output \<Rightarrow> wrap_order rpc" where
  "getWrapOrderFromMetaData I output = (case out_Metadata output of
      None \<Rightarrow> Inl (Errorf ''meta data is null'')
    | Some data \<Rightarrow> (case Unmarshal_WrapOrder I data of
        Inl e \<Rightarrow> Inl (Wrapf ''payload data Unmarshal error. '' e)
      | Inr w \<Rightarrow> Inr (w\<lparr>w_Tag := string_of_bytes (getTagDataFromFeature output)\<rparr>)))"

definition getWrapOrderByOutput :: "iota_lib \<Rightarrow> iota_token \<Rightarrow> iota_output \<Rightarrow> string
    \<Rightarrow> swap_order option \<times> go_error option" where
  "getWrapOrderByOutput I t output blockID =
     (if \<not> out_basic output then (None, Some (Errorf ''output.Type error. ''))
      else if length (out_Conds output) \<noteq> 1 \<or> conds_address (out_Conds output) = None
      then (None, Some (Errorf ''output.UnlockCondition error. ''))
      else if conds_address (out_Conds output) \<noteq> Some (it_addr t) then (None, None)
      else let userAmount = getAmountFromOutput t output in
        if userAmount \<le> 0 then (None, Some (Errorf ''tokens of output is empty. ''))
        else (case getWrapOrderFromMetaData I output of
            Inr w \<Rightarrow> (Some \<lparr>so_TxID = blockID, so_FromToken = it_symbol t, so_ToToken = w_Symbol w,
                so_From = w_From w, so_To = w_To w, so_Amount = Some userAmount, so_Org = [],
                so_Error = None, so_Type = 0\<rparr>, None)
          | Inl e \<Rightarrow> (None, Some (Wrapf ''metadata of wrap order was error. '' e))))"

definition dealNewOutput_iota :: "iota_lib \<Rightarrow> iota_token \<Rightarrow> iota_output \<Rightarrow> string \<Rightarrow> nat
    \<Rightarrow> swap_order list \<times> go_error option" where
  "dealNewOutput_iota I t output blockID index =
     (let (order, err) = getWrapOrderByOutput I t output blockID;
          sent = (case order of None \<Rightarrow> [] | Some o1 \<Rightarrow> [o1])
      in if index > 0 then (sent, None) else (sent, err))"

text \<open>What the event client delivers: an output, or the message that it cannot be read, with its
  block and index; or the end of the connection.\<close>

datatype output_message = RecOutput "iota_output rpc" string nat | EventError go_error

fun output_loop :: "(iota_output \<Rightarrow> string \<Rightarrow> nat \<Rightarrow> swap_order list \<times> go_error option)
    \<Rightarrow> output_message list \<Rightarrow> swap_order list" where
  "output_loop deal [] = []"
| "output_loop deal (EventError e # ms) =
     [error_order 0 (Wrapf ''shimmer node event connect error. '' e)]"
| "output_loop deal (RecOutput (Inl e) blockID index # ms) =
     error_order 1 (Wrapf ''get output error. '' e) # output_loop deal ms"
| "output_loop deal (RecOutput (Inr output) blockID index # ms) =
     (case deal output blockID index of
        (sent, None) \<Rightarrow> sent @ output_loop deal ms
      | (sent, Some e) \<Rightarrow> sent @ [error_order 1 e] @ output_loop deal ms)"

text \<open>The contract of \<open>deal\<close>, for a specification of the orders in a message: it sends exactly these, and
  none of them is an error. Then the loop sends the orders of what is received before the connection
  fails, and goes on until then.\<close>

definition is_event_error :: "output_message \<Rightarrow> bool" where
  "is_event_error m = (case m of EventError e \<Rightarrow> True | _ \<Rightarrow> False)"

locale output_handler =
  fixes deal :: "iota_output \<Rightarrow> string \<Rightarrow> nat \<Rightarrow> swap_order list \<times> go_error option"
    and accepted :: "output_message \<Rightarrow> swap_order list"
  assumes deal_sends: "deal output blockID index = (sent, err) \<Longrightarrow> sent = accepted (RecOutput (Inr output) blockID index)"
    and nothing_else: "accepted (RecOutput (Inl e) blockID index) = []"
    and no_error: "x \<in> set (accepted m) \<Longrightarrow> so_Error x = None"
begin

lemma valid_accepted: "valid_orders (accepted m) = accepted m"
  using no_error by (simp add: valid_orders_def filter_id_conv)

lemma accepted_goes_on: "list_all goes_on (accepted m)"
  using no_error by (simp add: list_all_iff goes_on_def)

lemma output_loop_cases:
  obtains (nothing) "ms = []" | (failed) e ms' where "ms = EventError e # ms'"
  | (unread) e blockID index ms' where "ms = RecOutput (Inl e) blockID index # ms'"
  | (readable) out blockID index ms' where "ms = RecOutput (Inr out) blockID index # ms'"
  by (metis list.exhaust output_message.exhaust sum.exhaust)

lemma loop_orders: "valid_orders (output_loop deal ms) = concat (map accepted (takeWhile (\<lambda>m. \<not> is_event_error m) ms))"
proof (induction ms rule: length_induct)
  case (1 ms)
  show ?case
  proof (cases ms rule: output_loop_cases)
    case (readable out blockID index ms')
    obtain sent err where d: "deal out blockID index = (sent, err)" by fastforce
    from 1 readable d deal_sends [OF d] valid_accepted show ?thesis
      by (cases err) (auto simp: is_event_error_def valid_orders_def)
  qed (use 1 in \<open>auto simp: is_event_error_def nothing_else valid_orders_def\<close>)
qed

lemma loop_goes_on: "list_all goes_on (butlast (output_loop deal ms))"
proof (induction ms rule: length_induct)
  case (1 ms)
  show ?case
  proof (cases ms rule: output_loop_cases)
    case (readable out blockID index ms')
    obtain sent err where d: "deal out blockID index = (sent, err)" by fastforce
    have e: "goes_on (error_order 1 x)" for x by (simp add: goes_on_def)
    from 1 readable d deal_sends [OF d] accepted_goes_on show ?thesis
      by (cases err) (auto simp: butlast_append e [simplified] intro: list_all_butlast)
  qed (use 1 in \<open>auto simp: goes_on_def\<close>)
qed

end

record output_world =
  ow_Info :: "proto_params rpc"
  ow_EventAPI :: "unit rpc"
  ow_Connect :: "go_error option"
  ow_Subscribe :: "output_message list rpc"

text \<open>The token is returned with its protocol parameters set.\<close>

definition StartWrapListen_iota :: "iota_lib \<Rightarrow> iota_token \<Rightarrow> output_world
    \<Rightarrow> iota_token \<times> swap_order list" where
  "StartWrapListen_iota I t W = (case ow_Info W of
      Inl e \<Rightarrow> (t, [error_order 0 (Wrapf ''get Shimmer Node Info error. '' e)])
    | Inr info \<Rightarrow>
        let t = t\<lparr>it_protoParas := Some info\<rparr> in
        (case ow_EventAPI W of
           Inl e \<Rightarrow> (t, [error_order 0 (Wrapf ''get shimmer event client error. '' e)])
         | Inr _ \<Rightarrow> (case ow_Connect W of
             Some e \<Rightarrow> (t, [error_order 0 (Wrapf ''connect to iota node error. '' e)])
           | None \<Rightarrow> (case ow_Subscribe W of
               Inl e \<Rightarrow> (t, [error_order 0 (Wrapf ''get sub from shimmer event client error. '' e)])
             | Inr ms \<Rightarrow> (t, output_loop (dealNewOutput_iota I t) ms)))))"

section \<open>Checks of sent and user transactions (send.go)\<close>

definition CheckSentTx_iota :: "iota_node \<Rightarrow> bytes \<Rightarrow> bool \<times> go_error option" where
  "CheckSentTx_iota N txid =
     (if length txid \<noteq> 32 then (True, Some (Errorf ''txid error. ''))
      else case BlockMetadataByBlockID N txid of
        Inl e \<Rightarrow> (True, Some e)
      | Inr res \<Rightarrow>
          if \<not> bm_Solid res then (True, Some (Errorf ''txid has not solid. ''))
          else if bm_ConflictReason res \<noteq> 0 then (False, Some (Errorf ''conflict''))
          else (True, None))"

text \<open>The loop over the outputs: the first one to the bridge's address decides.\<close>

fun user_output :: "iota_lib \<Rightarrow> iota_token \<Rightarrow> string \<Rightarrow> iota_output list \<Rightarrow> swap_order option" where
  "user_output I t blockID [] = None"
| "user_output I t blockID (o1 # os) =
     (if conds_address (out_Conds o1) = Some (it_addr t)
      then fst (getWrapOrderByOutput I t o1 blockID)
      else user_output I t blockID os)"

definition CheckUserTx_iota :: "iota_lib \<Rightarrow> iota_node \<Rightarrow> iota_token \<Rightarrow> bytes \<Rightarrow> string \<Rightarrow> int
    \<Rightarrow> (string \<times> string \<times> int option) outcome" where
  "CheckUserTx_iota I N t txid toCoin d =
     (if d \<noteq> 1 then Err (Errorf ''iota network d error. '')
      else if length txid \<noteq> 32 then Err (Errorf ''txid error. '')
      else case BlockMetadataByBlockID N txid of
        Inl e \<Rightarrow> Err (Wrapf ''BlockMetadataByBlockID error. '' e)
      | Inr meta \<Rightarrow>
          if txid = replicate 32 0 then Err (Errorf ''BlockMetadataByBlockID error. '')
          else if bm_ConflictReason meta \<noteq> 0 then Err (Errorf ''ConflictReason is not confirm. '')
          else (case BlockByBlockID N (it_protoParas t) txid of
            Panic p \<Rightarrow> Panic p
          | Err e \<Rightarrow> Err (Wrapf ''BlockByBlockID error. '' e)
          | Ok (TxPayload tx) \<Rightarrow> (case tr_OutputsSet tx of
              Inl e \<Rightarrow> Err (Wrapf ''tx.OutputsSet() error. '' e)
            | Inr outputs \<Rightarrow> (case user_output I t (bm_BlockID meta) outputs of
                None \<Rightarrow> Err (Errorf ''don't found wrap order error. '')
              | Some order \<Rightarrow> Ok (so_From order, so_To order, so_Amount order)))
          | Ok _ \<Rightarrow> Err (Errorf ''payload type error. '')))"

text \<open>The loop of \<open>CheckTxFailed\<close>: it skips the outputs that have an address and dereferences the
  address of the others.\<close>

fun failed_outputs :: "iota_lib \<Rightarrow> iota_token \<Rightarrow> bytes \<Rightarrow> string \<Rightarrow> int \<Rightarrow> iota_output list \<Rightarrow> unit outcome"
  where
  "failed_outputs I t txid to amount [] = Err (Errorf ''can't find the to addess. '')"
| "failed_outputs I t txid to amount (o1 # os) =
     (case conds_address (out_Conds o1) of
        Some a \<Rightarrow> failed_outputs I t txid to amount os
      | None \<Rightarrow> Panic ''nil pointer dereference'')"

definition CheckTxFailed_iota :: "iota_lib \<Rightarrow> iota_node \<Rightarrow> iota_token \<Rightarrow> bytes \<Rightarrow> bytes \<Rightarrow> string
    \<Rightarrow> int \<Rightarrow> int \<Rightarrow> unit outcome" where
  "CheckTxFailed_iota I N t failedTx txid to amount d =
     (if d \<noteq> - 1 then Err (Errorf ''iota network d error. '')
      else let blockID = take 32 (failedTx @ replicate 32 0) in
        (case BlockMetadataByBlockID N blockID of
           Inl e \<Rightarrow> Err (Wrapf ''MessageMetadataByMessageID error. '' e)
         | Inr meta \<Rightarrow>
             if bm_ConflictReason meta = 0 then Err (Errorf ''tx success. '')
             else (case BlockByBlockID N (it_protoParas t) blockID of
               Panic p \<Rightarrow> Panic p
             | Err e \<Rightarrow> Err (Wrapf ''MessageByMessageID error. '' e)
             | Ok (TxPayload tx) \<Rightarrow> (case tr_Unlocks tx of
                 SignatureUnlock (Ed25519Signature pk sg) # us \<Rightarrow>
                   if pk \<noteq> it_publicKey t then Err (Errorf ''publickeys are not equal. '')
                   else (case tr_OutputsSet tx of
                     Inl e \<Rightarrow> failed_outputs I t txid to amount []
                   | Inr outputs \<Rightarrow> failed_outputs I t txid to amount outputs)
               | _ \<Rightarrow> Err (Errorf ''block unlocks type error. ''))
             | Ok _ \<Rightarrow> Err (Errorf ''block payload type error. ''))))"

section \<open>Selecting inputs (send.go)\<close>

definition skip_basic :: "iota_output \<Rightarrow> bool" where
  "skip_basic output \<longleftrightarrow> length (out_Native output) > 0"

definition skip_native :: "bytes \<Rightarrow> iota_output \<Rightarrow> bool" where
  "skip_native tokenID output \<longleftrightarrow>
     (case out_Native output of [(tid, a)] \<Rightarrow> tid \<noteq> tokenID | _ \<Rightarrow> True)"

definition getBasiceUnSpentOutputs :: "iota_node \<Rightarrow> u64 \<Rightarrow> tx_builder
    \<Rightarrow> (tx_builder \<times> u64 outcome) option" where
  "getBasiceUnSpentOutputs N amount b = (case nd_Indexer N of
      Inl e \<Rightarrow> Some (b, Err e)
    | Inr _ \<Rightarrow>
        (case select_checked skip_basic (\<lambda>s. MAX_INPUT_COUNT \<le> sl_count s \<and> amount \<le> sl_sum s)
            (nd_attempts N) b of
           None \<Rightarrow> None
         | Some (b', r) \<Rightarrow> Some (b', obind r (\<lambda>s.
             if sl_sum s < amount then Err (Errorf ''balance amount is not enough'')
             else Ok (sl_sum s - amount)))))"

definition getNativeTokenOutputs :: "iota_node \<Rightarrow> iota_token \<Rightarrow> int \<Rightarrow> tx_builder
    \<Rightarrow> (tx_builder \<times> int \<times> u64) outcome" where
  "getNativeTokenOutputs N t amount b = (case nd_Indexer N of
      Inl e \<Rightarrow> Err e
    | Inr _ \<Rightarrow> (case nd_native N of
        Inl e \<Rightarrow> Err e
      | Inr pages \<Rightarrow>
          obind (select_pages (skip_native (it_tokenID t)) (\<lambda>s. MAX_INPUT_COUNT \<le> sl_count s) pages
            no_selection) (\<lambda>s.
          if sl_tokens s < amount then Err (Errorf ''balance amount is not enough. '')
          else Ok (add_inputs (sl_inputs s) b, sl_tokens s - amount, sl_sum s))))"

section \<open>Unsigned transactions (send.go)\<close>

text \<open>\<open>big.Int.Uint64\<close> keeps the low 64 bits of the absolute value.\<close>

definition big_Uint64 :: "int \<Rightarrow> u64" where
  "big_Uint64 i = word_of_int \<bar>i\<bar>"

definition getUnSignedTxDataBasic :: "iota_lib \<Rightarrow> iota_node \<Rightarrow> iota_token \<Rightarrow> iota_address \<Rightarrow> int \<Rightarrow> bytes
    \<Rightarrow> (bytes \<times> bytes) outcome option" where
  "getUnSignedTxDataBasic I N t toAddr amount tag =
     (let sendAmount = big_Uint64 amount in
      case nd_Info N of
        Inl e \<Rightarrow> Some (Err (Wrapf ''get iotasmr node info error. '' e))
      | Inr info \<Rightarrow>
          let b = NewUnsignTransactionBuilder (pp_NetworkID info);
              output = basic_output sendAmount [] toAddr (Some (bytes_of_string ''Unwrap'')) (Some tag)
          in (case getBasiceUnSpentOutputs N sendAmount b of
                None \<Rightarrow> None
              | Some (b, r) \<Rightarrow> Some (obind r (\<lambda>left.
                  let b = AddOutput output b;
                      b = (if left > 0 then AddOutput (basic_output left [] (it_addr t) None None) b
                           else b)
                  in case GetTxEssenceData I b of Inl e \<Rightarrow> Err e | Inr r \<Rightarrow> Ok r))))"

text \<open>The change of a transfer of native tokens: what is left of the tokens goes back with its
  storage deposit, and when the deposits do not come out even, basic outputs are added and the
  rest goes back. \<open>basic\<close> is the selection of basic outputs.\<close>

definition settle_native :: "(iota_output \<Rightarrow> u64) \<Rightarrow> iota_address \<Rightarrow> bytes \<Rightarrow> u64 \<Rightarrow> int \<Rightarrow> u64
    \<Rightarrow> (tx_builder \<Rightarrow> (tx_builder \<times> u64 outcome) option) \<Rightarrow> tx_builder \<Rightarrow> tx_builder outcome option"
  where
  "settle_native rent self tokenID toAmount leftTokenAmount leftSmrAmount basic b =
     (let (needSmrAmount, b) =
        (if leftTokenAmount > 0
         then let outputSelf = basic_output 0 [(tokenID, leftTokenAmount)] self None None;
                  outputSelf = outputSelf\<lparr>out_Amount := rent outputSelf\<rparr>
              in (toAmount + out_Amount outputSelf, AddOutput outputSelf b)
         else (toAmount, b))
      in if needSmrAmount = leftSmrAmount then Some (Ok b)
         else (case basic b of
             None \<Rightarrow> None
           | Some (b, Err e) \<Rightarrow> Some (Err (Wrapf ''get basic shimmer outputs error. '' e))
           | Some (b, Panic p) \<Rightarrow> Some (Panic p)
           | Some (b, Ok left) \<Rightarrow>
               let left = left + leftSmrAmount;
                   smrOutput = basic_output 0 [] self None None
               in if left < needSmrAmount + rent smrOutput
                  then Some (Err (Errorf ''balance amount is not enough. ''))
                  else Some (Ok (AddOutput (smrOutput\<lparr>out_Amount := left - needSmrAmount\<rparr>) b))))"

definition storage_rent :: "iota_lib \<Rightarrow> proto_params \<Rightarrow> iota_output \<Rightarrow> u64" where
  "storage_rent I info output = pp_VByteCost info * VBytes I output"

definition getUnSignedTxDataNativeToken :: "iota_lib \<Rightarrow> iota_node \<Rightarrow> iota_token \<Rightarrow> iota_address \<Rightarrow> int
    \<Rightarrow> bytes \<Rightarrow> (bytes \<times> bytes) outcome option" where
  "getUnSignedTxDataNativeToken I N t toAddr amount tag = (case nd_Info N of
      Inl e \<Rightarrow> Some (Err (Wrapf ''get iotasmr node info error. '' e))
    | Inr info \<Rightarrow>
        let b = NewUnsignTransactionBuilder (pp_NetworkID info);
            outputTo = basic_output 0 [(it_tokenID t, amount)] toAddr
              (Some (bytes_of_string ''Unwrap'')) (Some tag);
            outputTo = outputTo\<lparr>out_Amount := storage_rent I info outputTo\<rparr>;
            b = AddOutput outputTo b
        in (case getNativeTokenOutputs N t amount b of
              Err e \<Rightarrow> Some (Err (Wrapf ''get native token outputs error. '' e))
            | Panic p \<Rightarrow> Some (Panic p)
            | Ok (b, leftTokenAmount, leftSmrAmount) \<Rightarrow>
                (case settle_native (storage_rent I info) (it_addr t) (it_tokenID t)
                    (out_Amount outputTo) leftTokenAmount leftSmrAmount
                    (getBasiceUnSpentOutputs N 0) b of
                   None \<Rightarrow> None
                 | Some r \<Rightarrow> Some (obind r (\<lambda>b.
                     case GetTxEssenceData I b of Inl e \<Rightarrow> Err e | Inr r \<Rightarrow> Ok r)))))"

definition CreateUnWrapTxData_iota :: "eth_lib \<Rightarrow> iota_lib \<Rightarrow> iota_node \<Rightarrow> iota_token \<Rightarrow> string \<Rightarrow> int
    \<Rightarrow> bytes \<Rightarrow> (bytes \<times> bytes) outcome option" where
  "CreateUnWrapTxData_iota L I N t ed25519Id amount tag =
     (let addrBytes = FromHex L ed25519Id in
      if length addrBytes \<noteq> 32 then Some (Err (Errorf ''toAddress error. ''))
      else let addr = Ed25519Address addrBytes in
        if length tag > MaxTagLength I then Some (Err (Errorf ''tag too long. ''))
        else if it_tokenID t = replicate (FoundryIDLength I) 0
        then getUnSignedTxDataBasic I N t addr amount tag
        else getUnSignedTxDataNativeToken I N t addr amount tag)"

text \<open>The same with a nil amount, which is first looked at for the basic output's deposit, or when the
  tokens of the inputs are compared with it.\<close>

definition CreateUnWrapTxData_nil :: "eth_lib \<Rightarrow> iota_lib \<Rightarrow> iota_node \<Rightarrow> iota_token \<Rightarrow> string \<Rightarrow> bytes
    \<Rightarrow> (bytes \<times> bytes) outcome" where
  "CreateUnWrapTxData_nil L I N t ed25519Id tag =
     (if length (FromHex L ed25519Id) \<noteq> 32 then Err (Errorf ''toAddress error. '')
      else if length tag > MaxTagLength I then Err (Errorf ''tag too long. '')
      else if it_tokenID t = replicate (FoundryIDLength I) 0 then Panic ''nil pointer dereference''
      else case nd_Info N of
        Inl e \<Rightarrow> Err (Wrapf ''get iotasmr node info error. '' e)
      | Inr info \<Rightarrow>
          let inputs = (case nd_Indexer N of
              Inl e \<Rightarrow> Err e
            | Inr _ \<Rightarrow> (case nd_native N of
                Inl e \<Rightarrow> Err e
              | Inr pages \<Rightarrow> select_pages (skip_native (it_tokenID t)) (\<lambda>s. MAX_INPUT_COUNT \<le> sl_count s) pages
                  no_selection))
          in (case inputs of
                Err e \<Rightarrow> Err (Wrapf ''get native token outputs error. '' e)
              | Panic p \<Rightarrow> Panic p
              | Ok s \<Rightarrow> Panic ''nil pointer dereference''))"

section \<open>Signed transactions (send.go, types.go)\<close>

definition NewBlockBuilder :: "iota_lib \<Rightarrow> iota_node \<Rightarrow> proto_params option \<Rightarrow> bytes \<Rightarrow> signature
    \<Rightarrow> signed_essence outcome" where
  "NewBlockBuilder I N protoParas txData signature = (case Essence_UnmarshalJSON I txData of
      Inl e \<Rightarrow> Err (Wrapf ''txEssence.UnmarshalJSON error. '' e)
    | Inr txEssence \<Rightarrow>
        let unlocks = map (\<lambda>i. if i = 0 then SignatureUnlock signature else ReferenceUnlock 0)
              [0..<length (es_Inputs txEssence)];
            sigTxPayload = \<lparr>se_Essence = txEssence, se_Unlocks = unlocks\<rparr>
        in (case Serialize N sigTxPayload of
              Some e \<Rightarrow> Err e
            | None \<Rightarrow> (case protoParas of
                None \<Rightarrow> Panic ''nil pointer dereference''
              | Some p \<Rightarrow> Ok sigTxPayload)))"

definition copy_bytes :: "nat \<Rightarrow> bytes \<Rightarrow> bytes" where
  "copy_bytes n b = take n (b @ replicate n 0)"

definition SendSignedTxData_iota :: "eth_lib \<Rightarrow> iota_lib \<Rightarrow> iota_node \<Rightarrow> iota_token \<Rightarrow> string \<Rightarrow> bytes
    \<Rightarrow> bytes outcome" where
  "SendSignedTxData_iota L I N t signedHash txData =
     obind (NewBlockBuilder I N (it_protoParas t) txData
       (Ed25519Signature (copy_bytes 32 (it_publicKey t)) (copy_bytes 64 (FromHex L signedHash)))) (\<lambda>stx.
     case BuildBlock N stx of
       Inl e \<Rightarrow> Err e
     | Inr block \<Rightarrow> (case SubmitBlock N block of Inl e \<Rightarrow> Err e | Inr bid \<Rightarrow> Ok bid))"

text \<open>No interface of this token has \<open>SendWrap\<close>.\<close>

definition SendWrap_iota :: "string \<Rightarrow> int option \<Rightarrow> string \<Rightarrow> bytes \<Rightarrow> bytes outcome" where
  "SendWrap_iota txid amount to prv = Ok []"

definition SendUnWrap_iota :: "string \<Rightarrow> int option \<Rightarrow> string \<Rightarrow> bytes \<Rightarrow> bytes outcome" where
  "SendUnWrap_iota txid amount to prv = Err (Errorf ''don't support this method'')"

text \<open>\<open>ValiditeUnWrapTxData\<close> panics on a nil output only if the decoder makes one; it does not.\<close>

definition ValiditeUnWrapTxData_iota :: "iota_lib \<Rightarrow> iota_token \<Rightarrow> bytes \<Rightarrow> bytes \<Rightarrow> base_tx outcome" where
  "ValiditeUnWrapTxData_iota I t hash txData = (case Essence_UnmarshalJSON I txData of
      Inl e \<Rightarrow> Err (Wrapf ''msgContext can't be UnmarshalJSON to TransactionEssence. '' e)
    | Inr seri \<Rightarrow> (case SigningMessage I seri of
        Inl e \<Rightarrow> Err (Wrapf ''seri.SigningMessage error. '' e)
      | Inr sign \<Rightarrow>
          if hash \<noteq> sign then Err (Errorf ''hash is not right. '')
          else (case es_Outputs seri of
            [] \<Rightarrow> Err (Errorf ''tx output error'')
          | output # _ \<Rightarrow>
              if \<not> out_basic output then Err (Errorf ''tx output error'')
              else (case conds_address (out_Conds output) of
                None \<Rightarrow> Err (Errorf ''output unlock type error'')
              | Some a \<Rightarrow> Ok \<lparr>bt_Txid = getTagDataFromFeature output, bt_To = address_String I a,
                  bt_Amount = Some (getAmountFromOutput t output)\<rparr>))))"

end
