(* ===== verification/Iota_Unwrap.thy ===== *)
theory Iota_Unwrap
  imports Iota_Smr
begin

text \<open>
  Correctness of the token of tokens/iotasmr: the unsigned unwrap transactions balance and are
  what the other validators check them for; what the listener accepts as a wrap order; and the
  behaviour of the selection loops at their limits.
\<close>

section \<open>Lemmas on the builder\<close>

lemma GetTxEssenceData_Inr:
  assumes "GetTxEssenceData I b = Inr (hash, js)"
  shows "\<exists>c. let e = (bd_essence b)\<lparr>es_Commitment := c\<rparr> in
    SigningMessage I e = Inr hash \<and> Essence_MarshalJSON I e = Inr js"
  using assms by (auto simp: GetTxEssenceData_def Let_def split: sum.splits)

lemma GetTxEssenceData_read:
  assumes "iota_lib_ok I" and "GetTxEssenceData I b = Inr (hash, js)"
  shows "\<exists>e. Essence_UnmarshalJSON I js = Inr e \<and> SigningMessage I e = Inr hash \<and>
    es_Outputs e = es_Outputs (bd_essence b) \<and> es_Inputs e = es_Inputs (bd_essence b)"
  using GetTxEssenceData_Inr [OF assms(2)] assms(1)
  by (auto simp: iota_lib_ok_def Let_def)

lemma select_checked_outputs:
  "select_checked skip stop as b = Some (b', r) \<Longrightarrow>
     es_Outputs (bd_essence b') = es_Outputs (bd_essence b)"
proof (induction skip stop as b rule: select_checked.induct)
  case (2 skip stop a as b)
  then show ?case
    by (auto simp: add_inputs_essence split: sum.splits pass.splits)
qed simp

lemma getBasice_outputs:
  "getBasiceUnSpentOutputs N amount b = Some (b', r) \<Longrightarrow>
     es_Outputs (bd_essence b') = es_Outputs (bd_essence b)"
  by (auto simp: getBasiceUnSpentOutputs_def split: sum.splits option.splits
      dest: select_checked_outputs)

text \<open>With one pass, the selection's inputs are what was added, and the rest is what they exceed
  the amount by.\<close>

definition unspent_basic :: "attempt \<Rightarrow> (bytes \<times> iota_output) set" where
  "unspent_basic a = (case at_pages a of Inl e \<Rightarrow> {}
    | Inr ps \<Rightarrow> {x \<in> offered ps. at_spent a (fst x) = Inr False})"

definition native_offers :: "iota_node \<Rightarrow> (bytes \<times> iota_output) set" where
  "native_offers N = (case nd_native N of Inl e \<Rightarrow> {} | Inr ps \<Rightarrow> offered ps)"

lemma getBasice_single:
  assumes "getBasiceUnSpentOutputs N amount b = Some (b', Ok left)" and "nd_attempts N = [a]"
  shows "\<exists>s. b' = add_inputs (sl_inputs s) b \<and> selection_ok skip_basic s \<and>
    set (sl_inputs s) \<subseteq> unspent_basic a \<and> left + amount = deposits (sl_inputs s) \<and> amount \<le> deposits (sl_inputs s)"
proof -
  from assms obtain r where
    sel: "select_checked skip_basic (\<lambda>s. MAX_INPUT_COUNT \<le> sl_count s \<and> amount \<le> sl_sum s) [a] b =
      Some (b', r)"
    and "obind r (\<lambda>s. if sl_sum s < amount then Err (Errorf ''balance amount is not enough'')
        else Ok (sl_sum s - amount)) = Ok left"
    unfolding getBasiceUnSpentOutputs_def by (auto split: sum.splits option.splits)
  then obtain s where r: "r = Ok s" and le: "amount \<le> sl_sum s" and left: "left = sl_sum s - amount"
    by (auto simp: obind_Ok_conv not_less split: if_splits)
  have ok: "selection_ok skip_basic s" using sel r select_checked_ok by blast
  have "b' = add_inputs (sl_inputs s) b"
    using sel r by (auto split: sum.splits pass.splits)
  moreover have "set (sl_inputs s) \<subseteq> unspent_basic a"
    using sel r checked_pages_from
    by (fastforce simp: unspent_basic_def no_selection_def split: sum.splits pass.splits)
  ultimately show ?thesis using ok le left by (auto simp: selection_ok_def)
qed

lemma getNative_ok:
  assumes "getNativeTokenOutputs N t amount b = Ok (b', leftTok, leftSmr)"
  shows "\<exists>s. b' = add_inputs (sl_inputs s) b \<and> selection_ok (skip_native (it_tokenID t)) s \<and>
    set (sl_inputs s) \<subseteq> native_offers N \<and> leftTok + amount = native_total (sl_inputs s) \<and> 0 \<le> leftTok \<and> leftSmr = deposits (sl_inputs s)"
proof -
  from assms obtain pages s where
    pages: "nd_native N = Inr pages" and
    sel: "select_pages (skip_native (it_tokenID t)) (\<lambda>s. MAX_INPUT_COUNT \<le> sl_count s) pages
      no_selection = Ok s"
    and s: "\<not> sl_tokens s < amount" "b' = add_inputs (sl_inputs s) b" "leftTok = sl_tokens s - amount"
      "leftSmr = sl_sum s"
    unfolding getNativeTokenOutputs_def
    by (auto simp: obind_Ok_conv split: sum.splits if_splits)
  have "selection_ok (skip_native (it_tokenID t)) s" using sel by (rule select_pages_ok) simp
  moreover have "set (sl_inputs s) \<subseteq> native_offers N"
    using select_pages_from [OF sel] by (simp add: native_offers_def pages no_selection_def)
  ultimately show ?thesis using s by (auto simp: selection_ok_def)
qed

section \<open>Amounts of the outputs\<close>

definition amounts_out :: "iota_output list \<Rightarrow> u64" where
  "amounts_out os = sum_list (map out_Amount os)"

definition tokens_out :: "iota_output list \<Rightarrow> int" where
  "tokens_out os = sum_list (map token_amount os)"

lemma amounts_out_simps [simp]:
  "amounts_out [] = 0" "amounts_out (x # xs) = out_Amount x + amounts_out xs"
  "amounts_out (xs @ ys) = amounts_out xs + amounts_out ys"
  by (simp_all add: amounts_out_def)

lemma tokens_out_simps [simp]:
  "tokens_out [] = 0" "tokens_out (x # xs) = token_amount x + tokens_out xs"
  "tokens_out (xs @ ys) = tokens_out xs + tokens_out ys"
  by (simp_all add: tokens_out_def)

lemma token_amount_basic [simp]:
  "token_amount (basic_output am [] a md tg) = 0"
  "token_amount (basic_output am [(t, n)] a md tg) = n"
  "token_amount (o1\<lparr>out_Amount := x\<rparr>) = token_amount o1"
  by (simp_all add: token_amount_def)

text \<open>The change of a native transfer: it only adds outputs, and they account for what the
  deposits and the tokens exceed the transfer by.\<close>

lemma settle_native_balance:
  assumes "settle_native rent self tid toAm leftTok leftSmr basic b = Some (Ok b')"
    and out: "\<forall>b b1 r. basic b = Some (b1, r) \<longrightarrow>
      es_Outputs (bd_essence b1) = es_Outputs (bd_essence b)"
    and tok: "0 \<le> leftTok"
  shows "\<exists>os. es_Outputs (bd_essence b') = es_Outputs (bd_essence b) @ os \<and> tokens_out os = leftTok \<and>
    (es_Inputs (bd_essence b') = es_Inputs (bd_essence b) \<and> toAm + amounts_out os = leftSmr \<or>
     (\<exists>b0 b1 left. es_Inputs (bd_essence b0) = es_Inputs (bd_essence b) \<and>
        basic b0 = Some (b1, Ok left) \<and> es_Inputs (bd_essence b') = es_Inputs (bd_essence b1) \<and>
        toAm + amounts_out os = leftSmr + left))"
proof -
  define se where "se = basic_output 0 [(tid, leftTok)] self None None"
  define so where "so = (if leftTok > 0 then [se\<lparr>out_Amount := rent se\<rparr>] else [])"
  define b0 where "b0 = (if leftTok > 0 then AddOutput (se\<lparr>out_Amount := rent se\<rparr>) b else b)"
  define need where "need = toAm + amounts_out so"
  have b0: "es_Inputs (bd_essence b0) = es_Inputs (bd_essence b)"
    "es_Outputs (bd_essence b0) = es_Outputs (bd_essence b) @ so"
    by (simp_all add: b0_def so_def)
  have so: "tokens_out so = leftTok" using tok by (simp add: so_def se_def)
  have pair: "(if leftTok > 0 then (toAm + out_Amount (se\<lparr>out_Amount := rent se\<rparr>),
      AddOutput (se\<lparr>out_Amount := rent se\<rparr>) b) else (toAm, b)) = (need, b0)"
    by (simp add: need_def so_def b0_def)
  have eq: "(if need = leftSmr then Some (Ok b0) else case basic b0 of
      None \<Rightarrow> None | Some (b, Err e) \<Rightarrow> Some (Err (Wrapf ''get basic shimmer outputs error. '' e))
      | Some (b, Panic p) \<Rightarrow> Some (Panic p)
      | Some (b, Ok left) \<Rightarrow>
          if left + leftSmr < need + rent (basic_output 0 [] self None None)
          then Some (Err (Errorf ''balance amount is not enough. ''))
          else Some (Ok (AddOutput ((basic_output 0 [] self None None)\<lparr>out_Amount :=
            left + leftSmr - need\<rparr>) b))) = Some (Ok b')"
    using assms(1) unfolding settle_native_def Let_def se_def [symmetric] pair prod.case .
  show ?thesis
  proof (cases "need = leftSmr")
    case True
    with eq b0 so show ?thesis by (auto simp: need_def)
  next
    case False
    with eq obtain b1 left where b1: "basic b0 = Some (b1, Ok left)"
      and b': "b' = AddOutput ((basic_output 0 [] self None None)\<lparr>out_Amount :=
            left + leftSmr - need\<rparr>) b1"
      by (auto split: option.splits prod.splits outcome.splits if_splits)
    show ?thesis
      using b1 b' b0 so out [rule_format, OF b1]
      by (intro exI [of _ "so @ [(basic_output 0 [] self None None)\<lparr>out_Amount :=
            left + leftSmr - need\<rparr>]"]) (auto simp: need_def)
  qed
qed

section \<open>The transactions the group signs\<close>

lemma unsigned_basic_builder:
  assumes run: "getUnSignedTxDataBasic I N t toAddr amount tag = Some (Ok (hash, js))"
  shows "\<exists>b b0 b1 left os. GetTxEssenceData I b = Inr (hash, js) \<and> es_Inputs (bd_essence b0) = [] \<and>
    getBasiceUnSpentOutputs N (big_Uint64 amount) b0 = Some (b1, Ok left) \<and>
    es_Inputs (bd_essence b) = es_Inputs (bd_essence b1) \<and>
    es_Outputs (bd_essence b) = basic_output (big_Uint64 amount) [] toAddr
      (Some (bytes_of_string ''Unwrap'')) (Some tag) # os \<and> amounts_out os = left \<and> tokens_out os = 0"
proof -
  from run obtain info where "nd_Info N = Inr info"
    by (auto simp: getUnSignedTxDataBasic_def Let_def split: sum.splits)
  define b0 where "b0 = NewUnsignTransactionBuilder (pp_NetworkID info)"
  define o1 where "o1 = basic_output (big_Uint64 amount) [] toAddr
      (Some (bytes_of_string ''Unwrap'')) (Some tag)"
  from run obtain b1 left where
    b1: "getBasiceUnSpentOutputs N (big_Uint64 amount) b0 = Some (b1, Ok left)"
    and js: "GetTxEssenceData I (let b = AddOutput o1 b1 in if left > 0
        then AddOutput (basic_output left [] (it_addr t) None None) b else b) = Inr (hash, js)"
    unfolding getUnSignedTxDataBasic_def Let_def \<open>nd_Info N = Inr info\<close> b0_def o1_def
    by (auto simp: obind_Ok_conv case_rpc_Ok_conv split: option.splits)
  have o0: "es_Outputs (bd_essence b1) = []" using getBasice_outputs [OF b1] by (simp add: b0_def)
  show ?thesis
    by (rule exI [of _ "let b = AddOutput o1 b1 in if left > 0
        then AddOutput (basic_output left [] (it_addr t) None None) b else b"], rule exI [of _ b0],
        rule exI [of _ b1], rule exI [of _ left],
        rule exI [of _ "if left > 0 then [basic_output left [] (it_addr t) None None] else []"],
        use js b1 o0 in \<open>auto simp: Let_def b0_def o1_def word_gt_0\<close>)
qed

lemma unsigned_native_builder:
  assumes run: "getUnSignedTxDataNativeToken I N t toAddr amount tag = Some (Ok (hash, js))"
  shows "\<exists>b s os o1. GetTxEssenceData I b = Inr (hash, js) \<and>
    out_Native o1 = [(it_tokenID t, amount)] \<and> out_Conds o1 = [AddressUnlock toAddr] \<and>
    out_Tag o1 = Some tag \<and> out_basic o1 \<and> es_Outputs (bd_essence b) = o1 # os \<and>
    selection_ok (skip_native (it_tokenID t)) s \<and> set (sl_inputs s) \<subseteq> native_offers N \<and>
    tokens_out os + amount = native_total (sl_inputs s) \<and>
    (es_Inputs (bd_essence b) = map fst (sl_inputs s) \<and>
       amounts_out (o1 # os) = deposits (sl_inputs s) \<or>
     (\<exists>b0 b1 left. es_Inputs (bd_essence b0) = map fst (sl_inputs s) \<and>
        getBasiceUnSpentOutputs N 0 b0 = Some (b1, Ok left) \<and>
        es_Inputs (bd_essence b) = es_Inputs (bd_essence b1) \<and>
        amounts_out (o1 # os) = deposits (sl_inputs s) + left))"
proof -
  from run obtain info where info: "nd_Info N = Inr info"
    by (auto simp: getUnSignedTxDataNativeToken_def Let_def split: sum.splits)
  define o0 where "o0 = basic_output 0 [(it_tokenID t, amount)] toAddr
      (Some (bytes_of_string ''Unwrap'')) (Some tag)"
  define o1 where "o1 = o0\<lparr>out_Amount := storage_rent I info o0\<rparr>"
  define b0 where "b0 = AddOutput o1 (NewUnsignTransactionBuilder (pp_NetworkID info))"
  from run obtain b1 lt ls b where
    nat: "getNativeTokenOutputs N t amount b0 = Ok (b1, lt, ls)"
    and st: "settle_native (storage_rent I info) (it_addr t) (it_tokenID t) (out_Amount o1) lt ls
      (getBasiceUnSpentOutputs N 0) b1 = Some (Ok b)"
    and js: "GetTxEssenceData I b = Inr (hash, js)"
    unfolding getUnSignedTxDataNativeToken_def Let_def info b0_def o1_def o0_def
    by (auto simp: obind_Ok_conv case_rpc_Ok_conv split: option.splits outcome.splits)
  obtain s where s: "b1 = add_inputs (sl_inputs s) b0" "selection_ok (skip_native (it_tokenID t)) s"
    "lt + amount = native_total (sl_inputs s)" "0 \<le> lt" "ls = deposits (sl_inputs s)"
    "set (sl_inputs s) \<subseteq> native_offers N"
    using getNative_ok [OF nat] by blast
  have b1: "es_Inputs (bd_essence b1) = map fst (sl_inputs s)" "es_Outputs (bd_essence b1) = [o1]"
    by (simp_all add: s(1) add_inputs_essence b0_def)
  have keep: "\<forall>b b1 r. getBasiceUnSpentOutputs N 0 b = Some (b1, r) \<longrightarrow>
      es_Outputs (bd_essence b1) = es_Outputs (bd_essence b)"
    using getBasice_outputs by blast
  from settle_native_balance [OF st keep s(4)] obtain os where
    os: "es_Outputs (bd_essence b) = [o1] @ os" "tokens_out os = lt"
    and bal: "es_Inputs (bd_essence b) = map fst (sl_inputs s) \<and> out_Amount o1 + amounts_out os = ls \<or>
     (\<exists>b0 b1 left. es_Inputs (bd_essence b0) = map fst (sl_inputs s) \<and>
        getBasiceUnSpentOutputs N 0 b0 = Some (b1, Ok left) \<and>
        es_Inputs (bd_essence b) = es_Inputs (bd_essence b1) \<and>
        out_Amount o1 + amounts_out os = ls + left)"
    unfolding b1 by blast
  show ?thesis
    using js os bal s
    by (intro exI [of _ b] exI [of _ s] exI [of _ os] exI [of _ o1]) (auto simp: o1_def o0_def)
qed

section \<open>Properties\<close>

lemma unwrap_data_reads_back:
  assumes I: "iota_lib_ok I"
    and run: "CreateUnWrapTxData_iota L I N t to amount tag = Some (Ok (hash, js))"
    and amount: "0 \<le> amount" "amount < 2 ^ 64"
  shows "ValiditeUnWrapTxData_iota I t hash js = Ok \<lparr>bt_Txid = tag,
     bt_To = address_String I (Ed25519Address (FromHex L to)), bt_Amount = Some amount\<rparr>"
proof -
  have "uint (big_Uint64 amount) = amount"
    using amount by (simp add: big_Uint64_def uint_word_of_int)
  then consider
      "getUnSignedTxDataBasic I N t (Ed25519Address (FromHex L to)) amount tag = Some (Ok (hash, js))"
      "uint (big_Uint64 amount) = amount"
    | "getUnSignedTxDataNativeToken I N t (Ed25519Address (FromHex L to)) amount tag =
         Some (Ok (hash, js))"
    using run by (auto simp: CreateUnWrapTxData_iota_def Let_def split: if_splits)
  then obtain b o1 os where js: "GetTxEssenceData I b = Inr (hash, js)"
    and o1: "es_Outputs (bd_essence b) = o1 # os" "out_basic o1" "out_Tag o1 = Some tag"
      "out_Conds o1 = [AddressUnlock (Ed25519Address (FromHex L to))]"
      "getAmountFromOutput t o1 = amount"
  proof cases
    case 1
    from unsigned_basic_builder [OF 1(1)] 1(2) that show ?thesis
      by (auto simp: getAmountFromOutput_def)
  next
    case 2
    from unsigned_native_builder [OF 2] that show ?thesis
      by (auto simp: getAmountFromOutput_def)
  qed
  from GetTxEssenceData_read [OF I js] o1 show ?thesis
    by (auto simp: ValiditeUnWrapTxData_iota_def getTagDataFromFeature_def)
qed

text \<open>C5: the other validators read back what the requesting one asked for. The transaction data
  that \<open>CreateUnWrapTxData\<close> makes for a target, an amount and a tag passes
  \<open>ValiditeUnWrapTxData\<close> together with its own hash, and the check yields that tag, that target's
  address and that amount, for native tokens and, below 2^64, for the base coin.\<close>

theorem unwrap_data_roundtrip:
  assumes I: "iota_lib_ok I"
    and run: "CreateUnWrapTxData_iota L I N t to amount tag = Some (Ok (hash, js))"
    and amount: "0 \<le> amount" "amount < 2 ^ 64"
  shows "ValiditeUnWrapTxData_iota I t hash js = Ok \<lparr>bt_Txid = tag,
     bt_To = address_String I (Ed25519Address (FromHex L to)), bt_Amount = Some amount\<rparr>"
  using assms by (rule unwrap_data_reads_back)

text \<open>A concrete library and node for the witnesses: the library knows the JSON form of one
  transaction, which spends one output with native tokens and one basic output.\<close>

definition iota_demo :: "essence \<Rightarrow> iota_lib" where
  "iota_demo E =
     \<lparr>AddressFromPubKey = Ed25519Address, address_String = (\<lambda>a. ''addr''), Bech32 = (\<lambda>h a. h),
      Unmarshal_WrapOrder = (\<lambda>d. Inr \<lparr>w_Tag = [], w_From = ''from'', w_To = ''to'', w_Symbol = ''MATIC''\<rparr>),
      VBytes = (\<lambda>out. 1), Commitment = (\<lambda>ins. Inr [7]), SigningMessage = (\<lambda>e. Inr [8]),
      Essence_MarshalJSON = (\<lambda>e. if e = E then Inr [1] else Inl (Errorf ''json'')),
      Essence_UnmarshalJSON = (\<lambda>js. Inr E), FoundryIDLength = 38, MaxTagLength = 64\<rparr>"

lemma iota_demo_ok: "iota_lib_ok (iota_demo E)"
  by (simp add: iota_lib_ok_def iota_demo_def)

definition demo_self :: iota_address where "demo_self = Ed25519Address [5]"
definition demo_target :: bytes where "demo_target = replicate 32 6"

definition demo_smr_token :: iota_token where
  "demo_smr_token = \<lparr>it_rpc = ''rpc'', it_protoParas = None, it_publicKey = [5], it_hrp = ''smr'',
     it_addr = demo_self, it_addrBech32 = ''smr1'', it_symbol = ''SOON'', it_tokenID = [4]\<rparr>"

definition demo_iota_node :: iota_node where
  "demo_iota_node =
     \<lparr>nd_Info = Inr \<lparr>pp_NetworkID = 1, pp_VByteCost = 3\<rparr>, nd_Indexer = Inr (),
      nd_attempts = [\<lparr>at_pages = Inr [\<lparr>pg_ids = Inr [[2]],
        pg_outputs = [basic_output 100 [] demo_self None None]\<rparr>], at_spent = (\<lambda>i. Inr False)\<rparr>],
      nd_native = Inr [\<lparr>pg_ids = Inr [[0], [1]],
        pg_outputs = [basic_output 10 [([3], 9)] demo_self None None,
          basic_output 10 [([4], 70)] demo_self None None]\<rparr>],
      BlockMetadataByBlockID = (\<lambda>b. Inl (Errorf ''none'')), BlockByBlockID = (\<lambda>p b. Err (Errorf ''none'')),
      Serialize = (\<lambda>s. None), BuildBlock = (\<lambda>s. Inr [1]), SubmitBlock = (\<lambda>b. Inr [2])\<rparr>"

definition demo_essence :: essence where
  "demo_essence = \<lparr>es_NetworkID = 1, es_Inputs = [[1], [2]], es_Commitment = [7],
     es_Outputs = [basic_output 3 [([4], 60)] (Ed25519Address demo_target)
         (Some (bytes_of_string ''Unwrap'')) (Some [9]),
       basic_output 3 [([4], 10)] demo_self None None, basic_output 104 [] demo_self None None]\<rparr>"

lemma demo_unwrap_run:
  "CreateUnWrapTxData_iota eth_demo (iota_demo demo_essence) demo_iota_node demo_smr_token
     (hex_encode demo_target) 60 [9] = Some (Ok ([8], [1]))"
proof -
  have "FromHex eth_demo (hex_encode demo_target) = demo_target" by (simp add: eth_demo_def)
  moreover have "length demo_target = 32" by (simp add: demo_target_def)
  moreover have "getUnSignedTxDataNativeToken (iota_demo demo_essence) demo_iota_node demo_smr_token
      (Ed25519Address demo_target) 60 [9] = Some (Ok ([8], [1]))"
    by code_simp
  moreover have "MaxTagLength (iota_demo demo_essence) = 64" "it_tokenID demo_smr_token = [4]"
    "FoundryIDLength (iota_demo demo_essence) = 38"
    by (simp_all add: iota_demo_def demo_smr_token_def)
  ultimately show ?thesis
    by (simp add: CreateUnWrapTxData_iota_def Let_def Cons_replicate_eq)
qed

theorem unwrap_data_roundtrip_witness:
  "ValiditeUnWrapTxData_iota (iota_demo demo_essence) demo_smr_token [8] [1] =
     Ok \<lparr>bt_Txid = [9], bt_To = ''addr'', bt_Amount = Some 60\<rparr>"
  using unwrap_data_roundtrip [OF iota_demo_ok demo_unwrap_run] by (simp add: iota_demo_def)

lemma basic_no_tokens: "selection_ok skip_basic s \<Longrightarrow> native_total (sl_inputs s) = 0"
proof -
  assume "selection_ok skip_basic s"
  then have "\<forall>x \<in> set (sl_inputs s). token_amount (snd x) = 0"
    by (auto simp: selection_ok_def skip_basic_def token_amount_def)
  then have "map (token_amount \<circ> snd) (sl_inputs s) = map (\<lambda>x. 0) (sl_inputs s)" by simp
  then show ?thesis by (simp only: native_total_def) simp
qed

lemma basic_conserves:
  assumes "getUnSignedTxDataBasic I N t toAddr amount tag = Some (Ok (hash, js))"
    and one: "nd_attempts N = [a]"
  shows "\<exists>b ins. GetTxEssenceData I b = Inr (hash, js) \<and> es_Inputs (bd_essence b) = map fst ins \<and>
    set ins \<subseteq> unspent_basic a \<and> amounts_out (es_Outputs (bd_essence b)) = deposits ins \<and>
    tokens_out (es_Outputs (bd_essence b)) = native_total ins"
proof -
  from unsigned_basic_builder [OF assms(1)] obtain b b0 b1 left os where
    js: "GetTxEssenceData I b = Inr (hash, js)" and b0: "es_Inputs (bd_essence b0) = []"
    and sel: "getBasiceUnSpentOutputs N (big_Uint64 amount) b0 = Some (b1, Ok left)"
    and ins: "es_Inputs (bd_essence b) = es_Inputs (bd_essence b1)"
    and outs: "es_Outputs (bd_essence b) = basic_output (big_Uint64 amount) [] toAddr
      (Some (bytes_of_string ''Unwrap'')) (Some tag) # os" "amounts_out os = left" "tokens_out os = 0"
    by blast
  from getBasice_single [OF sel one] obtain s where s: "b1 = add_inputs (sl_inputs s) b0"
    "selection_ok skip_basic s" "set (sl_inputs s) \<subseteq> unspent_basic a"
    "left + big_Uint64 amount = deposits (sl_inputs s)"
    by blast
  show ?thesis
    by (rule exI [of _ b], rule exI [of _ "sl_inputs s"])
      (simp add: js ins outs b0 s add_inputs_essence basic_no_tokens add.commute [of _ left])
qed

lemma native_conserves:
  assumes "getUnSignedTxDataNativeToken I N t toAddr amount tag = Some (Ok (hash, js))"
    and one: "nd_attempts N = [a]"
  shows "\<exists>b ins. GetTxEssenceData I b = Inr (hash, js) \<and> es_Inputs (bd_essence b) = map fst ins \<and>
    set ins \<subseteq> native_offers N \<union> unspent_basic a \<and>
    amounts_out (es_Outputs (bd_essence b)) = deposits ins \<and>
    tokens_out (es_Outputs (bd_essence b)) = native_total ins"
proof -
  from unsigned_native_builder [OF assms(1)] obtain b os o1 and s :: selection where
    js: "GetTxEssenceData I b = Inr (hash, js)" and nat: "out_Native o1 = [(it_tokenID t, amount)]"
    and outs: "es_Outputs (bd_essence b) = o1 # os" and from_native: "set (sl_inputs s) \<subseteq> native_offers N"
    and tok: "tokens_out os + amount = native_total (sl_inputs s)"
    and bal: "es_Inputs (bd_essence b) = map fst (sl_inputs s) \<and>
       amounts_out (o1 # os) = deposits (sl_inputs s) \<or>
     (\<exists>b0 b1 left. es_Inputs (bd_essence b0) = map fst (sl_inputs s) \<and>
        getBasiceUnSpentOutputs N 0 b0 = Some (b1, Ok left) \<and>
        es_Inputs (bd_essence b) = es_Inputs (bd_essence b1) \<and>
        amounts_out (o1 # os) = deposits (sl_inputs s) + left)"
    by blast
  have o1: "token_amount o1 = amount" by (simp add: token_amount_def nat)
  from bal show ?thesis
  proof (elim disjE conjE exE)
    assume "es_Inputs (bd_essence b) = map fst (sl_inputs s)"
      and "amounts_out (o1 # os) = deposits (sl_inputs s)"
    with js outs from_native tok o1 show ?thesis
      by (intro exI [of _ b] exI [of _ "sl_inputs s"]) auto
  next
    fix b0 b1 left
    assume b0: "es_Inputs (bd_essence b0) = map fst (sl_inputs s)"
      and sel: "getBasiceUnSpentOutputs N 0 b0 = Some (b1, Ok left)"
      and ins: "es_Inputs (bd_essence b) = es_Inputs (bd_essence b1)"
      and am: "amounts_out (o1 # os) = deposits (sl_inputs s) + left"
    from getBasice_single [OF sel one] obtain r where r: "b1 = add_inputs (sl_inputs r) b0"
      "selection_ok skip_basic r" "set (sl_inputs r) \<subseteq> unspent_basic a"
      "left = deposits (sl_inputs r)"
      by auto
    have "tokens_out (o1 # os) = native_total (sl_inputs s @ sl_inputs r)"
      using tok o1 basic_no_tokens [OF r(2)] by simp
    then show ?thesis
      using js outs from_native am b0 ins r
      by (intro exI [of _ b] exI [of _ "sl_inputs s @ sl_inputs r"])
        (auto simp: add_inputs_essence)
  qed
qed

text \<open>C4: an unwrap transaction destroys and creates nothing. When one pass over the basic outputs
  is enough, the transaction data that \<open>CreateUnWrapTxData\<close> makes reads back as a transaction whose
  outputs hold (as uint64) the sum of the inputs' deposits and the native tokens of the inputs. Every
  input is an output that the indexer has offered in answer to the query for native tokens, which is
  not checked any further, or a basic output that the node has reported unspent.\<close>

theorem unwrap_tx_conserves:
  assumes I: "iota_lib_ok I"
    and run: "CreateUnWrapTxData_iota L I N t to amount tag = Some (Ok (hash, js))"
    and one: "nd_attempts N = [a]"
  shows "\<exists>e ins. Essence_UnmarshalJSON I js = Inr e \<and> SigningMessage I e = Inr hash \<and>
    es_Inputs e = map fst ins \<and> set ins \<subseteq> native_offers N \<union> unspent_basic a \<and>
    amounts_out (es_Outputs e) = deposits ins \<and> tokens_out (es_Outputs e) = native_total ins"
proof -
  from run consider
      "getUnSignedTxDataBasic I N t (Ed25519Address (FromHex L to)) amount tag = Some (Ok (hash, js))"
    | "getUnSignedTxDataNativeToken I N t (Ed25519Address (FromHex L to)) amount tag =
         Some (Ok (hash, js))"
    by (auto simp: CreateUnWrapTxData_iota_def Let_def split: if_splits)
  then obtain b ins where js: "GetTxEssenceData I b = Inr (hash, js)"
    and "es_Inputs (bd_essence b) = map fst ins \<and> set ins \<subseteq> native_offers N \<union> unspent_basic a \<and>
      amounts_out (es_Outputs (bd_essence b)) = deposits ins \<and>
      tokens_out (es_Outputs (bd_essence b)) = native_total ins"
  proof cases
    case 1
    from basic_conserves [OF 1 one] that show ?thesis by blast
  next
    case 2
    from native_conserves [OF 2 one] that show ?thesis by blast
  qed
  with GetTxEssenceData_read [OF I js] show ?thesis by fastforce
qed

theorem unwrap_tx_conserves_witness:
  "\<exists>ins. map fst ins = [[1], [2]] \<and> deposits ins = 110 \<and> native_total ins = 70"
proof -
  have one: "nd_attempts demo_iota_node = [hd (nd_attempts demo_iota_node)]"
    by (simp add: demo_iota_node_def)
  from unwrap_tx_conserves [OF iota_demo_ok demo_unwrap_run one] obtain e ins where
    e: "Essence_UnmarshalJSON (iota_demo demo_essence) [1] = Inr e"
    and ins: "es_Inputs e = map fst ins" "amounts_out (es_Outputs e) = deposits ins"
      "tokens_out (es_Outputs e) = native_total ins"
    by blast
  from e have "e = demo_essence" by (simp add: iota_demo_def)
  with ins show ?thesis
    by (intro exI [of _ ins]) (simp add: demo_essence_def)
qed

end
