(* ===== verification/Iota_Listen.thy ===== *)
theory Iota_Listen
  imports Iota_Unwrap
begin

text \<open>
  What the listener of tokens/iotasmr accepts as a wrap order, the checks of transactions by other
  validators, the block that is submitted, and the behaviour of the selection loops at their limits.
\<close>

section \<open>Orders\<close>

text \<open>The order of a message: that of a readable output.\<close>

definition accepted_order :: "iota_lib \<Rightarrow> iota_token \<Rightarrow> output_message \<Rightarrow> swap_order list" where
  "accepted_order I t m = (case m of
      RecOutput (Inr output) blockID index \<Rightarrow> (case fst (getWrapOrderByOutput I t output blockID) of
        None \<Rightarrow> [] | Some o1 \<Rightarrow> [o1])
    | _ \<Rightarrow> [])"

lemma error_order_error [simp]: "so_Error (error_order n e) \<noteq> None"
  by (simp add: error_order_def)

lemma getWrapOrderByOutput_no_error:
  "fst (getWrapOrderByOutput I t output blockID) = Some o1 \<Longrightarrow> so_Error o1 = None"
  by (auto simp: getWrapOrderByOutput_def Let_def split: if_splits sum.splits)

lemma dealNewOutput_orders:
  "dealNewOutput_iota I t output blockID index = (sent, err) \<Longrightarrow>
     sent = accepted_order I t (RecOutput (Inr output) blockID index)"
  by (auto simp: dealNewOutput_iota_def accepted_order_def Let_def
      split: prod.splits option.splits if_splits)

lemma accepted_no_error: "x \<in> set (accepted_order I t m) \<Longrightarrow> so_Error x = None"
  by (auto simp: accepted_order_def getWrapOrderByOutput_no_error
      split: output_message.splits sum.splits option.splits)

interpretation iota_outputs: output_handler "dealNewOutput_iota I t" "accepted_order I t"
  by unfold_locales (auto simp: dealNewOutput_orders accepted_no_error, simp add: accepted_order_def)

text \<open>C18: which outputs are wrap orders. An output yields an order exactly when it is a basic output
  whose only unlock condition is the bridge's address, that carries a positive amount (of the
  bridge's native token when that is its only native token, of the base coin otherwise) and
  metadata that parses; the order then has that amount, the block's id and the addresses of the
  metadata.\<close>

theorem getWrapOrderByOutput_iff:
  "fst (getWrapOrderByOutput I t output blockID) = Some o1 \<longleftrightarrow>
     out_basic output \<and> out_Conds output = [AddressUnlock (it_addr t)] \<and>
     0 < getAmountFromOutput t output \<and>
     (\<exists>data w. out_Metadata output = Some data \<and> Unmarshal_WrapOrder I data = Inr w \<and>
        o1 = \<lparr>so_TxID = blockID, so_FromToken = it_symbol t, so_ToToken = w_Symbol w,
          so_From = w_From w, so_To = w_To w, so_Amount = Some (getAmountFromOutput t output),
          so_Org = [], so_Error = None, so_Type = 0\<rparr>)"
proof -
  have c: "length cs = 1 \<and> conds_address cs = Some a \<longleftrightarrow> cs = [AddressUnlock a]" for cs a
    by (cases "(cs, a)" rule: prod.exhaust, cases cs rule: conds_address.cases) auto
  show ?thesis
    using c [of "out_Conds output" "it_addr t"]
    by (auto simp: getWrapOrderByOutput_def getWrapOrderFromMetaData_def Let_def
        split: option.splits sum.splits if_splits)
qed

lemma received_orders:
  assumes "ow_Info W = Inr info" and "ow_EventAPI W = Inr ()" and "ow_Connect W = None"
    and "ow_Subscribe W = Inr ms"
  shows "filter (\<lambda>x. so_Error x = None) (snd (StartWrapListen_iota I t W)) =
    concat (map (accepted_order I t) (takeWhile (\<lambda>m. \<not> is_event_error m) ms))"
proof -
  have eq: "getWrapOrderByOutput I (t\<lparr>it_protoParas := Some info\<rparr>) = getWrapOrderByOutput I t"
    by (intro ext) (simp add: getWrapOrderByOutput_def getAmountFromOutput_def Let_def
        cong: if_cong list.case_cong sum.case_cong)
  have "accepted_order I (t\<lparr>it_protoParas := Some info\<rparr>) = accepted_order I t"
    unfolding accepted_order_def eq by (rule refl)
  with assms show ?thesis
    by (simp add: StartWrapListen_iota_def Let_def iota_outputs.loop_orders [unfolded valid_orders_def])
qed

text \<open>The listener neither loses nor invents wraps. On a connection that comes up, the orders
  without an error that \<open>StartWrapListen\<close> sends are those of the outputs received before the
  connection fails, one for each in their order; outputs that are not wraps stop nothing.\<close>

theorem StartWrapListen_iota_orders:
  assumes "ow_Info W = Inr info" and "ow_EventAPI W = Inr ()" and "ow_Connect W = None"
    and "ow_Subscribe W = Inr ms"
  shows "filter (\<lambda>x. so_Error x = None) (snd (StartWrapListen_iota I t W)) =
    concat (map (accepted_order I t) (takeWhile (\<lambda>m. \<not> is_event_error m) ms))"
  using received_orders [OF assms] .

definition demo_output :: iota_output where
  "demo_output = basic_output 50 [([4], 60)] demo_self (Some [1]) None"

theorem StartWrapListen_iota_orders_witness:
  "map so_Amount (filter (\<lambda>x. so_Error x = None) (snd (StartWrapListen_iota (iota_demo demo_essence)
     demo_smr_token
     \<lparr>ow_Info = Inr \<lparr>pp_NetworkID = 1, pp_VByteCost = 3\<rparr>, ow_EventAPI = Inr (), ow_Connect = None,
       ow_Subscribe = Inr [RecOutput (Inr (demo_output\<lparr>out_Metadata := None\<rparr>)) ''b1'' 0,
         RecOutput (Inr demo_output) ''b2'' 0, EventError (Errorf ''closed''),
         RecOutput (Inr demo_output) ''b3'' 0]\<rparr>))) = [Some 60]"
  by (subst StartWrapListen_iota_orders) (simp_all, code_simp)

section \<open>Checks by other validators\<close>

text \<open>C40: \<open>CheckTxFailed\<close> of tokens/iotasmr never confirms a failed unwrap. Whatever the node answers and
  whatever transaction is named, also one that did fail with the output, amount and tag that are asked
  for, it returns an error or panics: its test of the output's address is inverted.\<close>

theorem CheckTxFailed_iota_never_ok:
  "\<not> is_ok (CheckTxFailed_iota I N t failedTx txid to amount d)"
proof -
  have "\<not> is_ok (failed_outputs I t txid to amount os)" for os
    by (induction os) (auto split: option.splits)
  then show ?thesis
    by (auto simp: CheckTxFailed_iota_def Let_def split: sum.splits outcome.splits block_payload.splits list.splits
        unlock.splits signature.splits)
qed

lemma user_output_Some:
  "user_output I t blockID os = Some order \<Longrightarrow>
     \<exists>o1 \<in> set os. fst (getWrapOrderByOutput I t o1 blockID) = Some order"
  by (induction os) (auto split: if_splits)

text \<open>A validator that checks a failed wrap of another accepts only a wrap it would have taken
  itself: \<open>CheckUserTx\<close> succeeds only for a block that the node knows and reports no conflict for, whose
  transaction has an output that is a wrap order, and returns that order's addresses and amount.\<close>

theorem CheckUserTx_iota_sound:
  assumes "CheckUserTx_iota I N t txid toCoin d = Ok (sender, receiver, amount)"
  shows "\<exists>meta tx os o1 order. BlockMetadataByBlockID N txid = Inr meta \<and> bm_ConflictReason meta = 0 \<and>
    BlockByBlockID N (it_protoParas t) txid = Ok (TxPayload tx) \<and> tr_OutputsSet tx = Inr os \<and> o1 \<in> set os \<and>
    fst (getWrapOrderByOutput I t o1 (bm_BlockID meta)) = Some order \<and>
    sender = so_From order \<and> receiver = so_To order \<and> amount = so_Amount order"
  using assms
  by (auto simp: CheckUserTx_iota_def dest!: user_output_Some
      split: if_splits sum.splits outcome.splits block_payload.splits option.splits)

section \<open>The submitted block\<close>

text \<open>What is submitted is what was signed for. When \<open>SendSignedTxData\<close> returns a block id, the
  node got a block built from the transaction of the data, its first input unlocked by the group's
  public key with the signature and every other input by a reference to the first.\<close>

theorem SendSignedTxData_iota_block:
  assumes "SendSignedTxData_iota L I N t signedHash txData = Ok bid"
  shows "\<exists>e block. Essence_UnmarshalJSON I txData = Inr e \<and>
    BuildBlock N \<lparr>se_Essence = e, se_Unlocks = take (length (es_Inputs e))
      (SignatureUnlock (Ed25519Signature (copy_bytes 32 (it_publicKey t))
        (copy_bytes 64 (FromHex L signedHash))) #
       replicate (length (es_Inputs e)) (ReferenceUnlock 0))\<rparr> = Inr block \<and>
    SubmitBlock N block = Inr bid"
proof -
  have unl: "map (\<lambda>i. if i = 0 then x else y) [0..<n] = take n (x # replicate n y)" for x y :: unlock and n
    by (rule nth_equalityI) (auto simp: nth_Cons')
  define sg where "sg = Ed25519Signature (copy_bytes 32 (it_publicKey t)) (copy_bytes 64 (FromHex L signedHash))"
  from assms obtain stx where stx: "NewBlockBuilder I N (it_protoParas t) txData sg = Ok stx"
    and send: "(case BuildBlock N stx of Inl e \<Rightarrow> Err e
      | Inr block \<Rightarrow> (case SubmitBlock N block of Inl e \<Rightarrow> Err e | Inr bid \<Rightarrow> Ok bid)) = Ok bid"
    unfolding SendSignedTxData_iota_def sg_def by (auto simp: obind_Ok_conv)
  from send obtain block where block: "BuildBlock N stx = Inr block" "SubmitBlock N block = Inr bid"
    by (cases "BuildBlock N stx") (auto simp: case_rpc_Ok_conv)
  from stx obtain e where "Essence_UnmarshalJSON I txData = Inr e"
    and "stx = \<lparr>se_Essence = e, se_Unlocks = take (length (es_Inputs e))
      (SignatureUnlock sg # replicate (length (es_Inputs e)) (ReferenceUnlock 0))\<rparr>"
    by (auto simp: NewBlockBuilder_def Let_def unl split: sum.splits option.splits)
  with block show ?thesis unfolding sg_def by blast
qed

definition demo_block_node :: iota_node where
  "demo_block_node = demo_iota_node\<lparr>
     BlockMetadataByBlockID := (\<lambda>b. Inr \<lparr>bm_BlockID = ''b2'', bm_Solid = True, bm_ConflictReason = 0\<rparr>),
     BlockByBlockID := (\<lambda>p b. Ok (TxPayload \<lparr>tr_OutputsSet = Inr [demo_output], tr_Unlocks = []\<rparr>))\<rparr>"

theorem CheckUserTx_iota_sound_witness:
  "map_option so_Amount (fst (getWrapOrderByOutput (iota_demo demo_essence) demo_smr_token demo_output ''b2''))
     = Some (Some 60)"
proof -
  have "CheckUserTx_iota (iota_demo demo_essence) demo_block_node demo_smr_token (replicate 32 1)
      ''MATIC'' 1 = Ok (''from'', ''to'', Some 60)"
    by code_simp
  from CheckUserTx_iota_sound [OF this] show ?thesis
    by (auto simp: demo_block_node_def)
qed

theorem SendSignedTxData_iota_block_witness:
  "\<exists>block. BuildBlock demo_iota_node \<lparr>se_Essence = demo_essence,
     se_Unlocks = [SignatureUnlock (Ed25519Signature (copy_bytes 32 [5]) (copy_bytes 64 [1, 2])),
       ReferenceUnlock 0]\<rparr> = Inr block"
proof -
  have "SendSignedTxData_iota eth_demo (iota_demo demo_essence) demo_iota_node
      (demo_smr_token\<lparr>it_protoParas := Some \<lparr>pp_NetworkID = 1, pp_VByteCost = 3\<rparr>\<rparr>) (hex_encode [1, 2]) [1]
    = Ok [2]"
    by code_simp
  from SendSignedTxData_iota_block [OF this] show ?thesis
    by (auto simp: iota_demo_def demo_essence_def demo_smr_token_def eth_demo_def numeral_2_eq_2)
qed

section \<open>The limits of the selection loops\<close>

text \<open>The limit on failed metadata requests is never reached. \<open>getUtxosCount\<close> is set to 0 again
  at the label the loop goes back to: when the state of the first eligible output cannot be read, or
  it is spent, in every pass, the selection does not end, however many passes there are.\<close>

theorem getBasice_never_gives_up:
  assumes "nd_Indexer N = Inr ()" and "nd_attempts N = replicate n a"
    and "at_pages a = Inr (p # ps)" and "pg_ids p = Inr (i # ids)" and "pg_outputs p = o1 # os"
    and "\<not> skip_basic o1" and "at_spent a i \<noteq> Inr False"
  shows "getBasiceUnSpentOutputs N amount b = None"
proof -
  have "select_checked skip_basic stop (replicate n a) b = None" for stop
    using assms(3-7) by (induction n arbitrary: b) (simp_all add: metadata_failed_def)
  with assms show ?thesis by (simp add: getBasiceUnSpentOutputs_def)
qed

definition spent_attempt :: attempt where
  "spent_attempt =
     \<lparr>at_pages = Inr [\<lparr>pg_ids = Inr [[2]], pg_outputs = [basic_output 100 [] demo_self None None]\<rparr>],
      at_spent = (\<lambda>i. Inr True)\<rparr>"

theorem getBasice_never_gives_up_witness:
  "getBasiceUnSpentOutputs (demo_iota_node\<lparr>nd_attempts := replicate 100 spent_attempt\<rparr>) 5 (NewUnsignTransactionBuilder 1) = None"
  by (rule getBasice_never_gives_up [where n = 100 and a = spent_attempt and p = "\<lparr>pg_ids = Inr [[2]],
      pg_outputs = [basic_output 100 [] demo_self None None]\<rparr>" and ps = "[]" and i = "[2]" and ids = "[]"
      and ?o1.0 = "basic_output 100 [] demo_self None None" and os = "[]"])
    (simp_all add: demo_iota_node_def skip_basic_def spent_attempt_def)

text \<open>Starting over does not take back the inputs. When a pass stops at an output whose state
  cannot be read and the next pass succeeds, the transaction keeps the inputs of the abandoned pass,
  the same outputs again among them, while only those of the second pass count as balance.\<close>

theorem getBasice_keeps_abandoned_inputs:
  assumes "nd_Indexer N = Inr ()" and "nd_attempts N = [a1, a2]"
    and "at_pages a1 = Inr ps1" and "at_pages a2 = Inr ps2"
    and "checked_pages skip_basic (\<lambda>s. MAX_INPUT_COUNT \<le> sl_count s \<and> amount \<le> sl_sum s) (at_spent a1) 0
      ps1 no_selection = StartOver ins"
    and "checked_pages skip_basic (\<lambda>s. MAX_INPUT_COUNT \<le> sl_count s \<and> amount \<le> sl_sum s) (at_spent a2) 0
      ps2 no_selection = Selected s"
    and "amount \<le> sl_sum s"
  shows "getBasiceUnSpentOutputs N amount b =
    Some (add_inputs (ins @ sl_inputs s) b, Ok (deposits (sl_inputs s) - amount))"
proof -
  have "sl_sum s = deposits (sl_inputs s)"
    using checked_pages_ok [OF assms(6) no_selection_ok] by (simp add: selection_ok_def)
  with assms show ?thesis by (simp add: getBasiceUnSpentOutputs_def add_inputs_def not_less)
qed

definition two_outputs :: "page list" where
  "two_outputs = [\<lparr>pg_ids = Inr [[1], [2]],
     pg_outputs = [basic_output 100 [] demo_self None None, basic_output 50 [] demo_self None None]\<rparr>]"

theorem getBasice_keeps_abandoned_inputs_witness:
  "map_option (\<lambda>(b, r). (es_Inputs (bd_essence b), r)) (getBasiceUnSpentOutputs (demo_iota_node\<lparr>nd_attempts :=
     [\<lparr>at_pages = Inr two_outputs, at_spent = (\<lambda>i. if i = [2] then Inl (Errorf ''timeout'') else Inr False)\<rparr>,
      \<lparr>at_pages = Inr two_outputs, at_spent = (\<lambda>i. Inr False)\<rparr>]\<rparr>) 120 (NewUnsignTransactionBuilder 1)) =
   Some ([[1], [1], [2]], Ok 30)"
proof -
  have "checked_pages skip_basic (\<lambda>s. MAX_INPUT_COUNT \<le> sl_count s \<and> 120 \<le> sl_sum s)
      (\<lambda>i. if i = [2] then Inl (Errorf ''timeout'') else Inr False) 0 two_outputs no_selection =
      StartOver [([1], basic_output 100 [] demo_self None None)]"
    by code_simp
  moreover have "checked_pages skip_basic (\<lambda>s. MAX_INPUT_COUNT \<le> sl_count s \<and> 120 \<le> sl_sum s)
      (\<lambda>i. Inr False) 0 two_outputs no_selection = Selected
      \<lparr>sl_inputs = [([1], basic_output 100 [] demo_self None None), ([2], basic_output 50 [] demo_self None None)],
        sl_sum = 150, sl_tokens = 0, sl_count = 2\<rparr>"
    by code_simp
  ultimately show ?thesis
    by (subst getBasice_keeps_abandoned_inputs)
      (auto simp: demo_iota_node_def add_inputs_def AddInput_def NewUnsignTransactionBuilder_def)
qed

text \<open>The \<open>break\<close> at \<open>MAX_INPUT_COUNT\<close> leaves the loop over one page only.\<close>

lemma select_pages_append:
  "select_pages skip stop (ps @ qs) s = obind (select_pages skip stop ps s) (select_pages skip stop qs)"
proof (induction ps arbitrary: s)
  case (Cons p ps)
  then show ?case
    by (cases "pg_ids p"; cases "select_outputs skip stop (projr (pg_ids p)) (pg_outputs p) s") auto
qed simp

definition offers_native :: "bytes \<Rightarrow> page \<Rightarrow> bool" where
  "offers_native tid p \<longleftrightarrow> (case (pg_ids p, pg_outputs p) of
     (Inr (i # ids), o1 # os) \<Rightarrow> \<not> skip_native tid o1 | _ \<Rightarrow> False)"

lemma full_selection_grows:
  assumes "list_all (offers_native tid) qs" and "MAX_INPUT_COUNT \<le> sl_count s"
  shows "\<exists>s'. select_pages (skip_native tid) (\<lambda>s. MAX_INPUT_COUNT \<le> sl_count s) qs s = Ok s' \<and>
    sl_count s' = sl_count s + length qs"
  using assms
proof (induction qs arbitrary: s)
  case (Cons q qs)
  then obtain i ids o1 os where q: "pg_ids q = Inr (i # ids)" "pg_outputs q = o1 # os"
      "\<not> skip_native tid o1"
    by (auto simp: offers_native_def split: sum.splits list.splits)
  have c: "sl_count (take_output i o1 s) = sl_count s + 1" by (simp add: take_output_def)
  with q Cons.prems have "select_outputs (skip_native tid) (\<lambda>s. MAX_INPUT_COUNT \<le> sl_count s) (i # ids)
      (o1 # os) s = Ok (take_output i o1 s)"
    by (simp add: index_at_Ok Let_def)
  with q Cons.IH [of "take_output i o1 s"] Cons.prems c show ?case by auto
qed simp

lemma select_outputs_count:
  assumes "select_outputs skip (\<lambda>s. n \<le> sl_count s) ids os s = Ok s'" and "sl_count s < n"
  shows "sl_count s' = min n (sl_count s + length (filter (\<lambda>o1. \<not> skip o1) os))"
  using assms
proof (induction os arbitrary: ids s)
  case (Cons o1 os)
  have c: "sl_count (take_output i o1 s) = sl_count s + 1" for i by (simp add: take_output_def)
  show ?case
  proof (cases "skip o1")
    case False
    with Cons.prems(1) obtain i where i: "(if n \<le> sl_count (take_output i o1 s) then Ok (take_output i o1 s)
        else select_outputs skip (\<lambda>s. n \<le> sl_count s) (tl ids) os (take_output i o1 s)) = Ok s'"
      by (auto simp: obind_Ok_conv Let_def)
    with Cons.IH [of "tl ids" "take_output i o1 s"] False Cons.prems(2) c [of i] show ?thesis
      by (auto split: if_splits)
  qed (use Cons in auto)
qed simp

lemma overfull_selection:
  assumes "getNativeTokenOutputs N t amount b = Ok (b', lt, ls)" and "nd_native N = Inr (p # qs)"
    and "MAX_INPUT_COUNT \<le> length (filter (\<lambda>o1. \<not> skip_native (it_tokenID t) o1) (pg_outputs p))"
    and "list_all (offers_native (it_tokenID t)) qs"
  shows "length (es_Inputs (bd_essence b')) = length (es_Inputs (bd_essence b)) + MAX_INPUT_COUNT + length qs"
proof -
  let ?stop = "\<lambda>s. MAX_INPUT_COUNT \<le> sl_count s"
  from assms(1,2) obtain s where s: "select_pages (skip_native (it_tokenID t)) ?stop (p # qs) no_selection = Ok s"
    and b': "b' = add_inputs (sl_inputs s) b"
    by (auto simp: getNativeTokenOutputs_def obind_Ok_conv split: sum.splits if_splits)
  then obtain ids s1 where one: "select_outputs (skip_native (it_tokenID t)) ?stop ids (pg_outputs p) no_selection = Ok s1"
    and rest: "select_pages (skip_native (it_tokenID t)) ?stop qs s1 = Ok s"
    by (auto simp: obind_Ok_conv split: sum.splits)
  have "sl_count no_selection = 0" "0 < MAX_INPUT_COUNT" by (simp_all add: no_selection_def MAX_INPUT_COUNT_def)
  with select_outputs_count [OF one] assms(3) have "sl_count s1 = MAX_INPUT_COUNT" by simp
  with full_selection_grows [OF assms(4), of s1] rest have "sl_count s = MAX_INPUT_COUNT + length qs" by simp
  moreover have "length (sl_inputs s) = sl_count s"
    using select_pages_ok [OF s no_selection_ok] by (simp add: selection_ok_def)
  ultimately show ?thesis by (simp add: b' add_inputs_essence)
qed

lemma select_checked_adds:
  "select_checked skip stop as b = Some (b', r) \<Longrightarrow>
     length (es_Inputs (bd_essence b)) \<le> length (es_Inputs (bd_essence b'))"
proof (induction skip stop as b rule: select_checked.induct)
  case (2 skip stop a as b)
  then show ?case by (fastforce simp: add_inputs_essence split: sum.splits pass.splits)
qed simp

lemma native_inputs_stay:
  assumes "getUnSignedTxDataNativeToken I N t toAddr amount tag = Some (Ok (hash, js))"
  shows "\<exists>b b0 b1 lt ls. GetTxEssenceData I b = Inr (hash, js) \<and> getNativeTokenOutputs N t amount b0 = Ok (b1, lt, ls) \<and>
    length (es_Inputs (bd_essence b1)) \<le> length (es_Inputs (bd_essence b))"
proof -
  from assms obtain b b0 b1 lt ls rent toAm where
    nat: "getNativeTokenOutputs N t amount b0 = Ok (b1, lt, ls)"
    and st: "settle_native rent (it_addr t) (it_tokenID t) toAm lt ls (getBasiceUnSpentOutputs N 0) b1 = Some (Ok b)"
    and js: "GetTxEssenceData I b = Inr (hash, js)"
    unfolding getUnSignedTxDataNativeToken_def Let_def
    by (auto simp: obind_Ok_conv case_rpc_Ok_conv split: sum.splits option.splits outcome.splits)
  have basic: "\<forall>b b1 r. getBasiceUnSpentOutputs N 0 b = Some (b1, r) \<longrightarrow> es_Outputs (bd_essence b1) = es_Outputs (bd_essence b)"
    "getBasiceUnSpentOutputs N 0 b2 = Some (b3, r) \<Longrightarrow>
       length (es_Inputs (bd_essence b2)) \<le> length (es_Inputs (bd_essence b3))" for b2 b3 r
    using getBasice_outputs
    by (blast, auto simp: getBasiceUnSpentOutputs_def split: sum.splits option.splits dest: select_checked_adds)
  have "0 \<le> lt" using getNative_ok [OF nat] by blast
  from settle_native_balance [OF st basic(1) this] have "length (es_Inputs (bd_essence b1)) \<le> length (es_Inputs (bd_essence b))"
    using basic(2) by (metis order_refl)
  with nat js show ?thesis by blast
qed

text \<open>C35: the limit on inputs holds for one page only. When the first page of the indexer's answer has
  \<open>MAX_INPUT_COUNT\<close> outputs of the token, and each further page starts with one, a transaction that
  \<open>CreateUnWrapTxData\<close> makes for the token has at least one input for each further page beyond
  \<open>MAX_INPUT_COUNT\<close>, which is more than the protocol takes.\<close>

theorem native_selection_past_limit:
  assumes "iota_lib_ok I" and "CreateUnWrapTxData_iota L I N t to amount tag = Some (Ok (hash, js))"
    and "it_tokenID t \<noteq> replicate (FoundryIDLength I) 0" and "nd_native N = Inr (p # qs)"
    and "MAX_INPUT_COUNT \<le> length (filter (\<lambda>o1. \<not> skip_native (it_tokenID t) o1) (pg_outputs p))"
    and "list_all (offers_native (it_tokenID t)) qs"
  shows "\<exists>e. Essence_UnmarshalJSON I js = Inr e \<and> MAX_INPUT_COUNT + length qs \<le> length (es_Inputs e)"
proof -
  have "getUnSignedTxDataNativeToken I N t (Ed25519Address (FromHex L to)) amount tag = Some (Ok (hash, js))"
    using assms(2,3) by (auto simp: CreateUnWrapTxData_iota_def Let_def split: if_splits)
  from native_inputs_stay [OF this] obtain b b0 b1 lt ls where
    b: "GetTxEssenceData I b = Inr (hash, js)" "getNativeTokenOutputs N t amount b0 = Ok (b1, lt, ls)"
    "length (es_Inputs (bd_essence b1)) \<le> length (es_Inputs (bd_essence b))" by blast
  from overfull_selection [OF b(2) assms(4-6)] b(3)
  have "MAX_INPUT_COUNT + length qs \<le> length (es_Inputs (bd_essence b))" by simp
  with GetTxEssenceData_read [OF assms(1) b(1)] show ?thesis by auto
qed

text \<open>A node with a full page of the token and another output of it.\<close>

definition demo_coin :: iota_output where "demo_coin = basic_output 10 [([4], 1)] demo_self None None"

definition demo_full_node :: iota_node where
  "demo_full_node = demo_iota_node\<lparr>nd_native := Inr
     [\<lparr>pg_ids = Inr (replicate 128 [1]), pg_outputs = replicate 128 demo_coin\<rparr>,
      \<lparr>pg_ids = Inr [[3]], pg_outputs = [demo_coin]\<rparr>]\<rparr>"

definition demo_full_essence :: essence where
  "demo_full_essence = \<lparr>es_NetworkID = 1, es_Inputs = replicate 128 [1] @ [[3], [2]], es_Commitment = [7],
     es_Outputs = [basic_output 3 [([4], 60)] (Ed25519Address demo_target)
         (Some (bytes_of_string ''Unwrap'')) (Some [9]),
       basic_output 3 [([4], 69)] demo_self None None, basic_output 1384 [] demo_self None None]\<rparr>"

lemma demo_full_run:
  "CreateUnWrapTxData_iota eth_demo (iota_demo demo_full_essence) demo_full_node demo_smr_token
     (hex_encode demo_target) 60 [9] = Some (Ok ([8], [1]))"
proof -
  have "FromHex eth_demo (hex_encode demo_target) = demo_target" by (simp add: eth_demo_def)
  moreover have "length demo_target = 32" by (simp add: demo_target_def)
  moreover have "getUnSignedTxDataNativeToken (iota_demo demo_full_essence) demo_full_node demo_smr_token
      (Ed25519Address demo_target) 60 [9] = Some (Ok ([8], [1]))"
    by code_simp
  moreover have "MaxTagLength (iota_demo demo_full_essence) = 64" "it_tokenID demo_smr_token = [4]"
    "FoundryIDLength (iota_demo demo_full_essence) = 38"
    by (simp_all add: iota_demo_def demo_smr_token_def)
  ultimately show ?thesis
    by (simp add: CreateUnWrapTxData_iota_def Let_def Cons_replicate_eq)
qed

theorem native_selection_past_limit_witness:
  "\<exists>e. Essence_UnmarshalJSON (iota_demo demo_full_essence) [1] = Inr e \<and> MAX_INPUT_COUNT + 1 \<le> length (es_Inputs e)"
proof -
  have s: "\<not> skip_native [4] demo_coin" by (simp add: skip_native_def demo_coin_def)
  have t: "it_tokenID demo_smr_token = [4]" by (simp add: demo_smr_token_def)
  have n: "it_tokenID demo_smr_token \<noteq> replicate (FoundryIDLength (iota_demo demo_full_essence)) 0"
    by (simp add: t iota_demo_def Cons_replicate_eq)
  have p: "nd_native demo_full_node = Inr [\<lparr>pg_ids = Inr (replicate 128 [1]), pg_outputs = replicate 128 demo_coin\<rparr>,
      \<lparr>pg_ids = Inr [[3]], pg_outputs = [demo_coin]\<rparr>]" by (simp add: demo_full_node_def)
  have m: "MAX_INPUT_COUNT \<le> length (filter (\<lambda>o1. \<not> skip_native (it_tokenID demo_smr_token) o1)
      (pg_outputs \<lparr>pg_ids = Inr (replicate 128 [1]), pg_outputs = replicate 128 demo_coin\<rparr>))"
    using s by (simp add: t MAX_INPUT_COUNT_def)
  have q: "list_all (offers_native (it_tokenID demo_smr_token)) [\<lparr>pg_ids = Inr [[3]], pg_outputs = [demo_coin]\<rparr>]"
    using s by (simp add: t offers_native_def)
  from native_selection_past_limit [OF iota_demo_ok demo_full_run n p m q] show ?thesis by simp
qed

end
