(* ===== verification/Smr.thy ===== *)
theory Smr
  imports Iota_Listen
begin

text \<open>
  Package tokens/smr (detect.go, send.go and the structs of types.go): the token on the Shimmer
  ledger that one key sends for. \<open>smr_token\<close> is the struct \<open>ShimmerToken\<close>. A wrap order comes
  from the metadata of an output or else from the tagged data of the block that holds it. The
  loops over the event client and the change of a transfer are those of tokens/iotasmr
  (\<open>output_loop\<close>, \<open>settle_native\<close>), which repeats this code; the selections differ in their limits.
  The node and the library's transaction builder are the parameter \<open>smr_node\<close>.
\<close>

record smr_token =
  st_rpc :: string
  st_publicKey :: bytes
  st_hrp :: string
  st_address :: iota_address
  st_walletAddr :: string
  st_tokenID :: bytes
  st_symbol :: string

text \<open>\<open>BlockPayload\<close> as far as it is read: the public keys of the unlocks and the tagged data.\<close>

record block_json =
  bp_Unlocks :: "string list"
  bp_Tag :: string
  bp_Data :: string

text \<open>The payload of a block, and of a transaction what \<open>MarshalJSON\<close> makes of it.\<close>

datatype smr_payload = NoTransaction | Transaction "bytes rpc"

record smr_node =
  sn_Info :: "proto_params rpc"
  sn_Indexer :: "unit rpc"
  sn_basic :: "page list rpc"
  sn_native :: "page list rpc"
  sn_BlockID :: "string \<Rightarrow> bytes rpc"                \<comment> \<open>\<open>iotago.BlockIDFromHexString\<close>\<close>
  sn_Block :: "bytes \<Rightarrow> smr_payload rpc"
  sn_BlockJSON :: "bytes \<Rightarrow> block_json rpc"          \<comment> \<open>\<open>json.Unmarshal\<close>\<close>
  sn_HexDecode :: "string \<Rightarrow> bytes rpc"              \<comment> \<open>\<open>hexutil.Decode\<close>\<close>
  sn_ParseAddress :: "string \<Rightarrow> iota_address rpc"
  sn_Build :: "tx_builder \<Rightarrow> string \<Rightarrow> bytes \<Rightarrow> bytes rpc"  \<comment> \<open>with the tag and the signer's key\<close>
  sn_Submit :: "bytes \<Rightarrow> bytes rpc"

definition NewShimmerToken ::
    "eth_lib \<Rightarrow> iota_lib \<Rightarrow> string \<Rightarrow> string \<Rightarrow> string \<Rightarrow> string \<Rightarrow> string \<Rightarrow> smr_token outcome" where
  "NewShimmerToken L I url publicKey symbol tokenID hrp = (case hex_decode tokenID of
      Inl e \<Rightarrow> Panic ''tokenID error''
    | Inr nativeID \<Rightarrow>
        let foundryID = copy_bytes (FoundryIDLength I) nativeID;
            pubKey = FromHex L publicKey
        in if length pubKey \<noteq> 32 then Panic ''NewShimmerToken, wrong public key''
           else let edAddr = AddressFromPubKey I pubKey in
             Ok \<lparr>st_rpc = url, st_publicKey = pubKey, st_hrp = hrp, st_address = edAddr,
                 st_walletAddr = Bech32 I hrp edAddr, st_tokenID = foundryID, st_symbol = symbol\<rparr>)"

section \<open>Wrap orders (detect.go)\<close>

definition wrap_metadata_smr :: "iota_lib \<Rightarrow> iota_output \<Rightarrow> wrap_order rpc" where
  "wrap_metadata_smr I output = (case out_Metadata output of
      None \<Rightarrow> Inl (Errorf ''meta data is null'')
    | Some data \<Rightarrow> (case Unmarshal_WrapOrder I data of
        Inl e \<Rightarrow> Inl (Wrapf ''payload data Unmarshal error. '' e)
      | Inr w \<Rightarrow> Inr (case out_Tag output of None \<Rightarrow> w | Some tag \<Rightarrow> w\<lparr>w_Tag := string_of_bytes tag\<rparr>)))"

text \<open>\<open>getBlock\<close>: \<open>Inr None\<close> when the bridge itself has signed the block.\<close>

definition getBlock :: "eth_lib \<Rightarrow> iota_lib \<Rightarrow> smr_node \<Rightarrow> smr_token \<Rightarrow> string \<Rightarrow> wrap_order option rpc" where
  "getBlock L I N t blockID = (case sn_BlockID N blockID of
      Inl e \<Rightarrow> Inl (Wrapf ''block id error. '' e)
    | Inr blockId \<Rightarrow> (case sn_Block N blockId of
        Inl e \<Rightarrow> Inl (Wrapf ''get block with id from node error. '' e)
      | Inr NoTransaction \<Rightarrow> Inl (Errorf ''payload type error. '')
      | Inr (Transaction (Inl e)) \<Rightarrow> Inl (Wrapf ''marshalJSON the payload of block error. '' e)
      | Inr (Transaction (Inr data)) \<Rightarrow> (case sn_BlockJSON N data of
          Inl e \<Rightarrow> Inl (Wrapf ''marshalJSON the payload to struct error. '' e)
        | Inr blockPayload \<Rightarrow> (case bp_Unlocks blockPayload of
            [] \<Rightarrow> Inl (Errorf ''block's publickey error. '')
          | key # _ \<Rightarrow> (case sn_HexDecode N key of
              Inl e \<Rightarrow> Inl (Wrapf ''block's publickey is error. '' e)
            | Inr pubKey \<Rightarrow>
                if length pubKey \<noteq> 32 then Inl (Errorf ''block's publickey is error. '')
                else let userAddr = AddressFromPubKey I pubKey in
                  if userAddr = st_address t then Inr None
                  else if length (bp_Data blockPayload) > 0
                  then (case Unmarshal_WrapOrder I (FromHex L (bp_Data blockPayload)) of
                      Inl e \<Rightarrow> Inl (Errorf ''payload data Unmarshal error. '')
                    | Inr w \<Rightarrow> Inr (Some (w\<lparr>w_From := Bech32 I (st_hrp t) userAddr,
                        w_Tag := string_of_bytes (FromHex L (bp_Tag blockPayload))\<rparr>)))
                  else Inl (Errorf ''payload data is null''))))))"

definition smr_amount :: "smr_token \<Rightarrow> iota_output \<Rightarrow> int" where
  "smr_amount t output = (case out_Native output of
      [(tid, amount)] \<Rightarrow> if tid = st_tokenID t then amount else uint (out_Amount output)
    | _ \<Rightarrow> uint (out_Amount output))"

definition smr_order :: "smr_token \<Rightarrow> string \<Rightarrow> int \<Rightarrow> wrap_order \<Rightarrow> string \<Rightarrow> swap_order" where
  "smr_order t blockID userAmount w org =
     \<lparr>so_TxID = blockID, so_FromToken = st_symbol t, so_ToToken = w_Symbol w, so_From = w_From w,
      so_To = w_To w, so_Amount = Some userAmount, so_Org = org, so_Error = None, so_Type = 0\<rparr>"

definition dealNewOutput_smr :: "eth_lib \<Rightarrow> iota_lib \<Rightarrow> smr_node \<Rightarrow> smr_token \<Rightarrow> iota_output \<Rightarrow> string \<Rightarrow> nat
    \<Rightarrow> swap_order list \<times> go_error option" where
  "dealNewOutput_smr L I N t output blockID index =
     (if \<not> out_basic output then ([], Some (Errorf ''output.Type error. ''))
      else if length (out_Conds output) \<noteq> 1 \<or> conds_address (out_Conds output) = None
      then ([], Some (Errorf ''output.UnlockCondition error. ''))
      else if conds_address (out_Conds output) \<noteq> Some (st_address t) then ([], None)
      else let userAmount = smr_amount t output in
        if userAmount \<le> 0 then ([], Some (Errorf ''tokens of output is empty. ''))
        else (case wrap_metadata_smr I output of
            Inr w \<Rightarrow> ([smr_order t blockID userAmount w []], None)
          | Inl err \<Rightarrow> (case getBlock L I N t blockID of
              Inl err1 \<Rightarrow> ([], Some (Wrapf ''unknow wrap order. '' err1))
            | Inr None \<Rightarrow> ([], None)
            | Inr (Some w) \<Rightarrow> ([smr_order t blockID userAmount w (w_Tag w)],
                Some (Errorf ''use Payload Data to Wrap'')))))"

definition StartWrapListen_smr :: "eth_lib \<Rightarrow> iota_lib \<Rightarrow> smr_node \<Rightarrow> smr_token \<Rightarrow> output_world
    \<Rightarrow> swap_order list" where
  "StartWrapListen_smr L I N t W = (case ow_Info W of
      Inl e \<Rightarrow> [error_order 0 (Wrapf ''get Shimmer Node Info error. '' e)]
    | Inr info \<Rightarrow> (case ow_EventAPI W of
        Inl e \<Rightarrow> [error_order 0 (Wrapf ''get shimmer event client error. '' e)]
      | Inr _ \<Rightarrow> (case ow_Connect W of
          Some e \<Rightarrow> [error_order 0 (Wrapf ''connect to iota node error. '' e)]
        | None \<Rightarrow> (case ow_Subscribe W of
            Inl e \<Rightarrow> [error_order 0 (Wrapf ''get sub from shimmer event client error. '' e)]
          | Inr ms \<Rightarrow> output_loop (dealNewOutput_smr L I N t) ms))))"

section \<open>Methods that answer without looking (send.go)\<close>

definition MultiSignType_smr :: "smr_token \<Rightarrow> int" where "MultiSignType_smr t = CenterSign"
definition ChainID_smr :: "smr_token \<Rightarrow> string" where "ChainID_smr t = st_hrp t"
definition Symbol_smr :: "smr_token \<Rightarrow> string" where "Symbol_smr t = st_symbol t"
definition PublicKey_smr :: "smr_token \<Rightarrow> bytes" where "PublicKey_smr t = st_publicKey t"
definition KeyType_smr :: "smr_token \<Rightarrow> string" where "KeyType_smr t = ''EC256K1''"
definition Address_smr :: "smr_token \<Rightarrow> string" where "Address_smr t = st_walletAddr t"

definition CheckSentTx_smr :: "bytes \<Rightarrow> bool \<times> go_error option" where
  "CheckSentTx_smr txid = (True, None)"

definition CheckUserTx_smr :: "bytes \<Rightarrow> string \<Rightarrow> int \<Rightarrow> (string \<times> string \<times> int option) outcome" where
  "CheckUserTx_smr txid toCoin d = Ok ([], [], None)"

definition CheckTxFailed_smr :: "bytes \<Rightarrow> bytes \<Rightarrow> string \<Rightarrow> int option \<Rightarrow> int \<Rightarrow> unit outcome" where
  "CheckTxFailed_smr failedTx txid to amount d = Ok ()"

definition CheckUnWrapTx_smr :: "bytes \<Rightarrow> string \<Rightarrow> string \<Rightarrow> int option \<Rightarrow> unit outcome" where
  "CheckUnWrapTx_smr txid to symbol amount = Ok ()"

definition SendSignedTxData_smr :: "string \<Rightarrow> bytes \<Rightarrow> bytes outcome" where
  "SendSignedTxData_smr signedHash txData = Ok []"

definition SendWrap_smr :: "string \<Rightarrow> int option \<Rightarrow> string \<Rightarrow> bytes \<Rightarrow> bytes outcome" where
  "SendWrap_smr txid amount to prv = Ok []"

definition CreateUnWrapTxData_smr :: "string \<Rightarrow> int \<Rightarrow> bytes \<Rightarrow> (bytes \<times> bytes) outcome" where
  "CreateUnWrapTxData_smr addr amount extra = Err (Errorf ''don't support this method'')"

definition ValiditeUnWrapTxData_smr :: "bytes \<Rightarrow> bytes \<Rightarrow> base_tx outcome" where
  "ValiditeUnWrapTxData_smr hash txData = Err (Errorf ''don't support this method'')"

section \<open>Sending (send.go)\<close>

definition getNativeTokenOutputs_smr :: "smr_node \<Rightarrow> smr_token \<Rightarrow> int \<Rightarrow> tx_builder
    \<Rightarrow> (tx_builder \<times> int \<times> u64) outcome" where
  "getNativeTokenOutputs_smr N t amount b = (case sn_Indexer N of
      Inl e \<Rightarrow> Err e
    | Inr _ \<Rightarrow> (case sn_native N of
        Inl e \<Rightarrow> Err e
      | Inr pages \<Rightarrow>
          obind (select_pages (skip_native (st_tokenID t))
            (\<lambda>s. MAX_INPUT_COUNT \<le> sl_count s \<and> amount \<le> sl_tokens s) pages no_selection) (\<lambda>s.
          if sl_tokens s < amount then Err (Errorf ''balance amount is not enough. '')
          else Ok (add_inputs (sl_inputs s) b, sl_tokens s - amount, sl_sum s))))"

definition getBasiceUnSpentOutputs_smr :: "smr_node \<Rightarrow> tx_builder \<Rightarrow> tx_builder \<times> u64 outcome" where
  "getBasiceUnSpentOutputs_smr N b = (case sn_Indexer N of
      Inl e \<Rightarrow> (b, Err e)
    | Inr _ \<Rightarrow> (case sn_basic N of
        Inl e \<Rightarrow> (b, Err e)
      | Inr pages \<Rightarrow>
          (case select_pages skip_basic (\<lambda>s. MAX_INPUT_COUNT div 2 \<le> sl_count s) pages no_selection of
             Ok s \<Rightarrow> (add_inputs (sl_inputs s) b, Ok (sl_sum s))
           | Err e \<Rightarrow> (b, Err e)
           | Panic p \<Rightarrow> (b, Panic p))))"

text \<open>The wallet address is the one of the token's public key, whatever the private key is.\<close>

definition getWalletAddress :: "iota_lib \<Rightarrow> smr_token \<Rightarrow> bytes \<Rightarrow> iota_address \<times> bytes" where
  "getWalletAddress I t prv = (AddressFromPubKey I (st_publicKey t), prv @ st_publicKey t)"

definition SendUnWrap_smr :: "iota_lib \<Rightarrow> smr_node \<Rightarrow> smr_token \<Rightarrow> string \<Rightarrow> int \<Rightarrow> string \<Rightarrow> bytes
    \<Rightarrow> bytes outcome" where
  "SendUnWrap_smr I N t txid amount to prv = (case sn_ParseAddress N (''0x'' @ to) of
      Inl e \<Rightarrow> Err (Wrapf ''send shimmer address error. '' e)
    | Inr toAddr \<Rightarrow>
        let (addr, signer) = getWalletAddress I t prv in
        (case sn_Info N of
           Inl e \<Rightarrow> Err (Wrapf ''get shimmerr node info error. '' e)
         | Inr info \<Rightarrow>
             let outputTo = basic_output 0 [(st_tokenID t, amount)] toAddr None None;
                 outputTo = outputTo\<lparr>out_Amount := storage_rent I info outputTo\<rparr>;
                 b = AddOutput outputTo (NewUnsignTransactionBuilder (pp_NetworkID info))
             in (case getNativeTokenOutputs_smr N t amount b of
                   Err e \<Rightarrow> Err (Wrapf ''get native token outputs error. '' e)
                 | Panic p \<Rightarrow> Panic p
                 | Ok (b, leftTokenAmount, leftSmrAmount) \<Rightarrow>
                     (case settle_native (storage_rent I info) addr (st_tokenID t) (out_Amount outputTo)
                         leftTokenAmount leftSmrAmount (\<lambda>b. Some (getBasiceUnSpentOutputs_smr N b)) b of
                        None \<Rightarrow> Panic ''unreachable''
                      | Some r \<Rightarrow> obind r (\<lambda>b. case sn_Build N b ''TpBridge'' signer of
                          Inl e \<Rightarrow> Err (Wrapf ''build block error. '' e)
                        | Inr block \<Rightarrow> (case sn_Submit N block of
                            Inl e \<Rightarrow> Err (Wrapf ''send block to node error. '' e)
                          | Inr bid \<Rightarrow> Ok bid))))))"

section \<open>Lemmas\<close>

lemma native_smr_ok:
  assumes "getNativeTokenOutputs_smr N t amount b = Ok (b', leftTok, leftSmr)"
    and "sn_native N = Inr nps"
  shows "\<exists>s :: selection. b' = add_inputs (sl_inputs s) b \<and> set (sl_inputs s) \<subseteq> offered nps \<and>
    leftTok + amount = native_total (sl_inputs s) \<and> 0 \<le> leftTok \<and> leftSmr = deposits (sl_inputs s)"
proof -
  from assms obtain s where
    sel: "select_pages (skip_native (st_tokenID t))
      (\<lambda>s. MAX_INPUT_COUNT \<le> sl_count s \<and> amount \<le> sl_tokens s) nps no_selection = Ok s"
    and s: "\<not> sl_tokens s < amount" "b' = add_inputs (sl_inputs s) b" "leftTok = sl_tokens s - amount"
      "leftSmr = sl_sum s"
    unfolding getNativeTokenOutputs_smr_def
    by (auto simp: obind_Ok_conv split: sum.splits if_splits)
  have "selection_ok (skip_native (st_tokenID t)) s" using sel by (rule select_pages_ok) simp
  moreover have "set (sl_inputs s) \<subseteq> offered nps"
    using select_pages_from [OF sel] by (simp add: no_selection_def)
  ultimately show ?thesis using s by (auto simp: selection_ok_def)
qed

lemma basic_smr_outputs:
  "getBasiceUnSpentOutputs_smr N b = (b', r) \<Longrightarrow>
     es_Outputs (bd_essence b') = es_Outputs (bd_essence b)"
  by (auto simp: getBasiceUnSpentOutputs_smr_def add_inputs_essence split: sum.splits outcome.splits)

lemma basic_smr_ok:
  assumes "getBasiceUnSpentOutputs_smr N b = (b', Ok left)" and "sn_basic N = Inr bps"
  shows "\<exists>s :: selection. b' = add_inputs (sl_inputs s) b \<and> set (sl_inputs s) \<subseteq> offered bps \<and>
    native_total (sl_inputs s) = 0 \<and> left = deposits (sl_inputs s)"
proof -
  from assms obtain s where
    sel: "select_pages skip_basic (\<lambda>s. MAX_INPUT_COUNT div 2 \<le> sl_count s) bps no_selection = Ok s"
    and s: "b' = add_inputs (sl_inputs s) b" "left = sl_sum s"
    unfolding getBasiceUnSpentOutputs_smr_def by (auto split: sum.splits outcome.splits)
  have ok: "selection_ok skip_basic s" using sel by (rule select_pages_ok) simp
  moreover have "set (sl_inputs s) \<subseteq> offered bps"
    using select_pages_from [OF sel] by (simp add: no_selection_def)
  ultimately show ?thesis using s basic_no_tokens [OF ok] by (auto simp: selection_ok_def)
qed

text \<open>What the selections and the change make of a builder that holds one output.\<close>

lemma settled_smr:
  assumes nat: "getNativeTokenOutputs_smr N t amount b0 = Ok (b1, lt, ls)"
    and st: "settle_native rent self (st_tokenID t) (out_Amount o1) lt ls
      (\<lambda>b. Some (getBasiceUnSpentOutputs_smr N b)) b1 = Some (Ok b)"
    and b0: "es_Inputs (bd_essence b0) = []" "es_Outputs (bd_essence b0) = [o1]"
    and tok1: "token_amount o1 = amount"
    and pages: "sn_native N = Inr nps" "sn_basic N = Inr bps"
  shows "\<exists>ins os. es_Outputs (bd_essence b) = o1 # os \<and> es_Inputs (bd_essence b) = map fst ins \<and>
    set ins \<subseteq> offered nps \<union> offered bps \<and> amounts_out (o1 # os) = deposits ins \<and>
    tokens_out (o1 # os) = native_total ins"
proof -
  obtain s :: selection where s: "b1 = add_inputs (sl_inputs s) b0" "set (sl_inputs s) \<subseteq> offered nps"
    "lt + amount = native_total (sl_inputs s)" "0 \<le> lt" "ls = deposits (sl_inputs s)"
    using native_smr_ok [OF nat pages(1)] by blast
  have b1: "es_Inputs (bd_essence b1) = map fst (sl_inputs s)" "es_Outputs (bd_essence b1) = [o1]"
    by (simp_all add: s(1) add_inputs_essence b0)
  have keep: "\<forall>b b1 r. Some (getBasiceUnSpentOutputs_smr N b) = Some (b1, r) \<longrightarrow>
      es_Outputs (bd_essence b1) = es_Outputs (bd_essence b)"
    using basic_smr_outputs by blast
  from settle_native_balance [OF st keep s(4)] obtain os where
    os: "es_Outputs (bd_essence b) = [o1] @ os" "tokens_out os = lt"
    and bal: "es_Inputs (bd_essence b) = map fst (sl_inputs s) \<and> out_Amount o1 + amounts_out os = ls \<or>
     (\<exists>b0 b1 left. es_Inputs (bd_essence b0) = map fst (sl_inputs s) \<and>
        Some (getBasiceUnSpentOutputs_smr N b0) = Some (b1, Ok left) \<and>
        es_Inputs (bd_essence b) = es_Inputs (bd_essence b1) \<and>
        out_Amount o1 + amounts_out os = ls + left)"
    unfolding b1 by blast
  from bal show ?thesis
  proof (elim disjE conjE exE)
    assume "es_Inputs (bd_essence b) = map fst (sl_inputs s)" "out_Amount o1 + amounts_out os = ls"
    with s os tok1 show ?thesis by (intro exI [of _ "sl_inputs s"] exI [of _ os]) auto
  next
    fix c0 c1 left
    assume i0: "es_Inputs (bd_essence c0) = map fst (sl_inputs s)"
      and sel: "Some (getBasiceUnSpentOutputs_smr N c0) = Some (c1, Ok left)"
      and rest: "es_Inputs (bd_essence b) = es_Inputs (bd_essence c1)"
        "out_Amount o1 + amounts_out os = ls + left"
    from sel basic_smr_ok [OF _ pages(2)] obtain q :: selection where
      q: "c1 = add_inputs (sl_inputs q) c0" "set (sl_inputs q) \<subseteq> offered bps"
        "native_total (sl_inputs q) = 0" "left = deposits (sl_inputs q)"
      by blast
    with i0 rest s os tok1 show ?thesis
      by (intro exI [of _ "sl_inputs s @ sl_inputs q"] exI [of _ os]) (auto simp: add_inputs_essence)
  qed
qed

lemma smr_send_Ok:
  assumes "obind r (\<lambda>b. case sn_Build N b tag signer of
        Inl e \<Rightarrow> Err (Wrapf ''build block error. '' e)
      | Inr block \<Rightarrow> (case sn_Submit N block of
          Inl e \<Rightarrow> Err (Wrapf ''send block to node error. '' e) | Inr bid \<Rightarrow> Ok bid)) = Ok bid"
  shows "\<exists>b block. r = Ok b \<and> sn_Build N b tag signer = Inr block \<and> sn_Submit N block = Inr bid"
proof -
  from assms obtain b where b: "r = Ok b" by (auto simp: obind_Ok_conv)
  with assms show ?thesis by (cases "sn_Build N b tag signer") (auto split: sum.splits)
qed

section \<open>Properties\<close>

text \<open>C17: a Shimmer payout is what was asked for and balances. When \<open>SendUnWrap\<close> returns a block id,
  the block submitted holds a transaction whose first output gives the amount of the token to the
  address asked for, whose inputs are outputs the indexer has offered, and whose outputs hold the
  deposits (as uint64) and the native tokens of the inputs.\<close>

theorem SendUnWrap_smr_pays:
  assumes run: "SendUnWrap_smr I N t txid amount to prv = Ok bid"
    and pages: "sn_native N = Inr nps" "sn_basic N = Inr bps"
  shows "\<exists>b ins block toAddr o1 os. sn_Build N b ''TpBridge'' (prv @ st_publicKey t) = Inr block \<and>
    sn_Submit N block = Inr bid \<and> sn_ParseAddress N (''0x'' @ to) = Inr toAddr \<and>
    es_Outputs (bd_essence b) = o1 # os \<and> out_Conds o1 = [AddressUnlock toAddr] \<and>
    out_Native o1 = [(st_tokenID t, amount)] \<and>
    es_Inputs (bd_essence b) = map fst ins \<and> set ins \<subseteq> offered nps \<union> offered bps \<and>
    amounts_out (o1 # os) = deposits ins \<and> tokens_out (o1 # os) = native_total ins"
proof -
  from run obtain toAddr info where addr: "sn_ParseAddress N (''0x'' @ to) = Inr toAddr"
    and info: "sn_Info N = Inr info"
    by (auto simp: SendUnWrap_smr_def getWalletAddress_def split: sum.splits)
  define o0 where "o0 = basic_output 0 [(st_tokenID t, amount)] toAddr None None"
  define o1 where "o1 = o0\<lparr>out_Amount := storage_rent I info o0\<rparr>"
  define b0 where "b0 = AddOutput o1 (NewUnsignTransactionBuilder (pp_NetworkID info))"
  from run obtain b1 lt ls r where
    nat: "getNativeTokenOutputs_smr N t amount b0 = Ok (b1, lt, ls)"
    and st: "settle_native (storage_rent I info) (AddressFromPubKey I (st_publicKey t)) (st_tokenID t)
      (out_Amount o1) lt ls (\<lambda>b. Some (getBasiceUnSpentOutputs_smr N b)) b1 = Some r"
    and fin: "obind r (\<lambda>b. case sn_Build N b ''TpBridge'' (prv @ st_publicKey t) of
        Inl e \<Rightarrow> Err (Wrapf ''build block error. '' e)
      | Inr block \<Rightarrow> (case sn_Submit N block of
          Inl e \<Rightarrow> Err (Wrapf ''send block to node error. '' e) | Inr bid \<Rightarrow> Ok bid)) = Ok bid"
    unfolding SendUnWrap_smr_def addr info getWalletAddress_def Let_def b0_def o1_def o0_def
    by (auto split: outcome.splits option.splits)
  from smr_send_Ok [OF fin] obtain b block where b: "r = Ok b"
    and block: "sn_Build N b ''TpBridge'' (prv @ st_publicKey t) = Inr block" "sn_Submit N block = Inr bid"
    by blast
  have o1: "out_Conds o1 = [AddressUnlock toAddr]" "out_Native o1 = [(st_tokenID t, amount)]"
    "token_amount o1 = amount"
    by (simp_all add: o1_def o0_def)
  have b0: "es_Inputs (bd_essence b0) = []" "es_Outputs (bd_essence b0) = [o1]"
    by (simp_all add: b0_def)
  from settled_smr [OF nat st [unfolded b] b0 o1(3) pages] block addr o1(1,2)
  show ?thesis by blast
qed

definition demo_shimmer :: smr_token where
  "demo_shimmer = \<lparr>st_rpc = ''rpc'', st_publicKey = [5], st_hrp = ''smr'', st_address = demo_self,
     st_walletAddr = ''smr1'', st_tokenID = [4], st_symbol = ''SOON''\<rparr>"

text \<open>A node with one output of the token and one basic output, and a block without metadata but with
  tagged data.\<close>

definition demo_smr_node :: smr_node where
  "demo_smr_node =
     \<lparr>sn_Info = Inr \<lparr>pp_NetworkID = 1, pp_VByteCost = 3\<rparr>, sn_Indexer = Inr (),
      sn_basic = Inr [\<lparr>pg_ids = Inr [[2]], pg_outputs = [basic_output 100 [] demo_self None None]\<rparr>],
      sn_native = Inr [\<lparr>pg_ids = Inr [[1]], pg_outputs = [basic_output 10 [([4], 70)] demo_self None None]\<rparr>],
      sn_BlockID = (\<lambda>s. Inr [1]), sn_Block = (\<lambda>b. Inr (Transaction (Inr [2]))),
      sn_BlockJSON = (\<lambda>d. Inr \<lparr>bp_Unlocks = [''key''], bp_Tag = hex_encode [9], bp_Data = hex_encode [1]\<rparr>),
      sn_HexDecode = (\<lambda>s. Inr demo_target), sn_ParseAddress = (\<lambda>s. Inr (Ed25519Address demo_target)),
      sn_Build = (\<lambda>b tag sig. Inr (concat (es_Inputs (bd_essence b)))), sn_Submit = (\<lambda>b. Inr b)\<rparr>"

theorem SendUnWrap_smr_pays_witness:
  "\<exists>ins o1 os. concat (map fst ins) = [1, 2] \<and> out_Native o1 = [([4], 60)] \<and>
     tokens_out (o1 # os) = native_total ins"
proof -
  have run: "SendUnWrap_smr (iota_demo demo_essence) demo_smr_node demo_shimmer ''tx'' 60 ''addr'' [7] = Ok [1, 2]"
    by code_simp
  have pages: "sn_native demo_smr_node = Inr (projr (sn_native demo_smr_node))"
    "sn_basic demo_smr_node = Inr (projr (sn_basic demo_smr_node))"
    by (simp_all add: demo_smr_node_def)
  from SendUnWrap_smr_pays [OF run pages] obtain b ins block where
    "sn_Build demo_smr_node b ''TpBridge'' ([7] @ st_publicKey demo_shimmer) = Inr block"
    "sn_Submit demo_smr_node block = Inr [1, 2]" "es_Inputs (bd_essence b) = map fst ins"
    and o1: "\<exists>o1 os. out_Native o1 = [(st_tokenID demo_shimmer, 60)] \<and> tokens_out (o1 # os) = native_total ins"
    by blast
  then have "concat (map fst ins) = [1, 2]" by (auto simp: demo_smr_node_def)
  with o1 show ?thesis by (simp add: demo_shimmer_def) blast
qed

text \<open>A Shimmer wrap by tagged data is credited to who has signed it. An order that
  \<open>dealNewOutput\<close> sends comes from an output that only the bridge's address unlocks, with the
  positive amount of that output; it is either the output's metadata and no error is reported, or,
  with the report ''use Payload Data to Wrap'', the tagged data of the block, and then its sender is
  the address of the key that signed the block's first unlock, which is not the bridge's.\<close>

theorem dealNewOutput_smr_sound:
  assumes "dealNewOutput_smr L I N t output blockID index = (sent, err)" and "o1 \<in> set sent"
  shows "sent = [o1] \<and> out_basic output \<and> out_Conds output = [AddressUnlock (st_address t)] \<and>
    so_Amount o1 = Some (smr_amount t output) \<and> 0 < smr_amount t output \<and> so_TxID o1 = blockID \<and>
    (if err = None
     then \<exists>w. wrap_metadata_smr I output = Inr w \<and> so_From o1 = w_From w \<and> so_To o1 = w_To w
     else \<exists>bid data p key keys pk. err = Some (Errorf ''use Payload Data to Wrap'') \<and>
       sn_BlockID N blockID = Inr bid \<and> sn_Block N bid = Inr (Transaction (Inr data)) \<and>
       sn_BlockJSON N data = Inr p \<and> bp_Unlocks p = key # keys \<and> sn_HexDecode N key = Inr pk \<and>
       AddressFromPubKey I pk \<noteq> st_address t \<and> so_From o1 = Bech32 I (st_hrp t) (AddressFromPubKey I pk))"
proof -
  have c: "length cs = 1 \<and> conds_address cs = Some a \<longleftrightarrow> cs = [AddressUnlock a]" for cs a
    by (cases "(cs, a)" rule: prod.exhaust, cases cs rule: conds_address.cases) auto
  have g: "getBlock L I N t blockID = Inr (Some w) \<Longrightarrow> \<exists>bid data p key keys pk.
       sn_BlockID N blockID = Inr bid \<and> sn_Block N bid = Inr (Transaction (Inr data)) \<and>
       sn_BlockJSON N data = Inr p \<and> bp_Unlocks p = key # keys \<and> sn_HexDecode N key = Inr pk \<and>
       AddressFromPubKey I pk \<noteq> st_address t \<and> w_From w = Bech32 I (st_hrp t) (AddressFromPubKey I pk)" for w
    by (auto simp: getBlock_def Let_def split: sum.splits smr_payload.splits list.splits if_splits)
  show ?thesis
    using assms c [of "out_Conds output" "st_address t"] g
    by (auto simp: dealNewOutput_smr_def smr_order_def Let_def split: if_splits sum.splits option.splits)
qed

theorem dealNewOutput_smr_sound_witness:
  "\<exists>pk. sn_HexDecode demo_smr_node ''key'' = Inr pk \<and> AddressFromPubKey (iota_demo demo_essence) pk \<noteq> demo_self"
proof -
  have "case dealNewOutput_smr eth_demo (iota_demo demo_essence) demo_smr_node demo_shimmer
      (demo_output\<lparr>out_Metadata := None\<rparr>) ''b1'' 0 of (sent, err) \<Rightarrow> sent \<noteq> [] \<and> err \<noteq> None"
    by code_simp
  then obtain sent err where d: "dealNewOutput_smr eth_demo (iota_demo demo_essence) demo_smr_node demo_shimmer
      (demo_output\<lparr>out_Metadata := None\<rparr>) ''b1'' 0 = (sent, err)" and "sent \<noteq> []" "err \<noteq> None"
    by blast
  then obtain o1 where "o1 \<in> set sent" by (cases sent) auto
  from dealNewOutput_smr_sound [OF d this] \<open>err \<noteq> None\<close> show ?thesis
    by (auto simp: demo_smr_node_def demo_shimmer_def)
qed

end
