(* ===== verification/Smpc.thy ===== *)
theory Smpc
  imports Evm_Contract
begin

text \<open>
  Package smpc (smpc.go, types.go, init.go): the JSON-RPC client of the node of the signing group.

  A call of the node is a function of the method and its argument; \<open>client\<close> is nil until
  \<open>InitSmpc\<close>, and a call through nil panics. Every operation returns the calls it has made
  beside its result. The JSON, RLP and signature functions of the libraries are the parameter
  \<open>smpc_lib\<close>; \<open>strconv.ParseUint\<close> with base 0, which reads the nonce, is modelled.
\<close>

section \<open>Structs (types.go)\<close>

record smpc_response =
  rs_Status :: string
  rs_Tip :: string
  rs_Error :: string
  rs_Data :: bytes                      \<comment> \<open>the value of any type, opaque\<close>

record sign_data =
  sd_TxType :: string
  sd_PubKey :: string
  sd_InputCode :: string
  sd_MsgContext :: "string list"
  sd_MsgHash :: "string list"
  sd_Keytype :: string
  sd_GroupID :: string
  sd_ThresHold :: string
  sd_Mode :: string
  sd_AcceptTimeOut :: string
  sd_TimeStamp :: string

record accept_sign_data =
  ad_TxType :: string
  ad_Key :: string
  ad_Accept :: string
  ad_MsgHash :: "string list"
  ad_MsgContext :: "string list"
  ad_TimeStamp :: string

record sign_status =
  ss_Status :: string
  ss_Rsv :: "string list"

record sign_info =
  sg_Account :: string
  sg_GroupID :: string
  sg_Key :: string
  sg_KeyType :: string
  sg_Mode :: string
  sg_MsgContext :: "string list"
  sg_MsgHash :: "string list"
  sg_Nonce :: string
  sg_PubKey :: string
  sg_ThresHold :: string
  sg_TimeStamp :: string

record smpc_lib =
  json_response :: "bytes \<Rightarrow> smpc_response rpc"
  json_data :: "bytes \<Rightarrow> bytes rpc"
  json_dataResult :: "bytes \<Rightarrow> string rpc"
  json_status :: "string \<Rightarrow> sign_status rpc"
  json_infos :: "bytes \<Rightarrow> sign_info list rpc"
  json_signData :: "sign_data \<Rightarrow> bytes"
  json_acceptSign :: "accept_sign_data \<Rightarrow> bytes"
  signer_Hash :: "eth_tx \<Rightarrow> bytes"
  crypto_Sign :: "bytes \<Rightarrow> bytes \<Rightarrow> bytes rpc"       \<comment> \<open>hash, private key\<close>
  tx_WithSignature :: "eth_tx \<Rightarrow> bytes \<Rightarrow> signed_tx rpc"
  rlp_Encode :: "signed_tx \<Rightarrow> bytes rpc"

type_synonym rpc_call = "string \<Rightarrow> string \<Rightarrow> bytes rpc"
type_synonym call_log = "(string \<times> string) list"

record smpc_conn =
  sm_client :: "rpc_call option"
  sm_account :: string

definition InitSmpc :: "(string \<Rightarrow> rpc_call) \<Rightarrow> string \<Rightarrow> string \<Rightarrow> smpc_conn" where
  "InitSmpc ethrpc_New url addr = \<lparr>sm_client = Some (ethrpc_New url), sm_account = addr\<rparr>"

definition client_Call :: "smpc_conn \<Rightarrow> string \<Rightarrow> string \<Rightarrow> bytes rpc outcome" where
  "client_Call M method arg = (case sm_client M of
      None \<Rightarrow> Panic ''nil pointer dereference'' | Some call \<Rightarrow> Ok (call method arg))"

definition getJSONData :: "smpc_lib \<Rightarrow> bytes \<Rightarrow> bytes rpc" where
  "getJSONData S successResponse = (case json_response S successResponse of
      Inl e \<Rightarrow> Inl (Wrapf ''getJSONData Unmarshal json fail: '' e)
    | Inr rep \<Rightarrow>
        if rs_Status rep \<noteq> ''Success'' then Inl (Errorf (rs_Error rep))
        else (case json_data S (rs_Data rep) of
            Inl e \<Rightarrow> Inl (Wrapf ''getJSONData Marshal json fail: '' e)
          | Inr repData \<Rightarrow> Inr repData))"

definition getJSONResult :: "smpc_lib \<Rightarrow> bytes \<Rightarrow> string rpc" where
  "getJSONResult S successResponse = (case getJSONData S successResponse of
      Inl e \<Rightarrow> Inl e
    | Inr repData \<Rightarrow> (case json_dataResult S repData of
        Inl e \<Rightarrow> Inl (Wrapf ''getJSONResult Unmarshal json fail: '' e)
      | Inr result \<Rightarrow> Inr result))"

definition SmpcToAddr :: string where
  "SmpcToAddr = ''0x00000000000000000000000000000000000000dc''"

definition signTX :: "eth_lib \<Rightarrow> smpc_lib \<Rightarrow> bytes \<Rightarrow> u64 \<Rightarrow> bytes \<Rightarrow> string rpc" where
  "signTX L S privatekey nonce playload =
     (let tx = NewTransaction nonce (HexToAddress L SmpcToAddr) 0 100000 80000 playload in
      case crypto_Sign S (signer_Hash S tx) privatekey of
        Inl e \<Rightarrow> Inl (Wrapf ''signature create error, '' e)
      | Inr signature \<Rightarrow> (case tx_WithSignature S tx signature of
          Inl e \<Rightarrow> Inl (Wrapf ''signer with signature error. '' e)
        | Inr sigTx \<Rightarrow> (case rlp_Encode S sigTx of
            Inl e \<Rightarrow> Inl (Wrapf ''EncodeToBytes error. '' e)
          | Inr txdata \<Rightarrow> Inr (Bytes2Hex L txdata))))"

section \<open>Reading the nonce\<close>

text \<open>\<open>strconv.ParseUint(s, 0, 64)\<close>, where the caller takes the value and drops the error: 0 for
  text that is no number, 2^64-1 for a number out of range. The base comes from the prefix, and
  an underscore may separate digits.\<close>

definition lower_char :: "char \<Rightarrow> char" where
  "lower_char c = (let n = (of_char c :: nat) in if 65 \<le> n \<and> n \<le> 90 then char_of (n + 32) else c)"

definition digit_of :: "char \<Rightarrow> nat option" where
  "digit_of c = (let n = (of_char c :: nat); l = (of_char (lower_char c) :: nat) in
     if 48 \<le> n \<and> n \<le> 57 then Some (n - 48)
     else if 97 \<le> l \<and> l \<le> 122 then Some (l - 87) else None)"

text \<open>Where the digits start, and their base.\<close>

fun number_base :: "string \<Rightarrow> nat \<times> string" where
  "number_base (c # p # d # ds) =
     (if c = CHR ''0'' then
        (if lower_char p = CHR ''b'' then (2, d # ds)
         else if lower_char p = CHR ''o'' then (8, d # ds)
         else if lower_char p = CHR ''x'' then (16, d # ds)
         else (8, p # d # ds))
      else (10, c # p # d # ds))"
| "number_base (c # ds) = (if c = CHR ''0'' then (8, ds) else (10, c # ds))"
| "number_base [] = (10, [])"

text \<open>The loop over the digits: a syntax error is \<open>Inl 0\<close>, overflow \<open>Inl (2^64 - 1)\<close>.\<close>

fun parse_digits :: "nat \<Rightarrow> string \<Rightarrow> nat \<Rightarrow> nat + nat" where
  "parse_digits base [] n = Inr n"
| "parse_digits base (c # cs) n =
     (if c = CHR ''_'' then parse_digits base cs n
      else case digit_of c of
        None \<Rightarrow> Inl 0
      | Some d \<Rightarrow>
          if base \<le> d then Inl 0
          else if 2 ^ 64 \<le> n * base + d then Inl (2 ^ 64 - 1)
          else parse_digits base cs (n * base + d))"

text \<open>\<open>underscoreOK\<close>: \<open>saw\<close> is the class of the last character.\<close>

fun underscore_loop :: "bool \<Rightarrow> char \<Rightarrow> string \<Rightarrow> bool" where
  "underscore_loop hex saw [] \<longleftrightarrow> saw \<noteq> CHR ''_''"
| "underscore_loop hex saw (c # cs) =
     (let n = (of_char c :: nat); l = (of_char (lower_char c) :: nat) in
      if 48 \<le> n \<and> n \<le> 57 \<or> hex \<and> 97 \<le> l \<and> l \<le> 102 then underscore_loop hex (CHR ''0'') cs
      else if c = CHR ''_'' then saw = CHR ''0'' \<and> underscore_loop hex (CHR ''_'') cs
      else saw \<noteq> CHR ''_'' \<and> underscore_loop hex (CHR ''!'') cs)"

fun underscoreOK :: "string \<Rightarrow> bool" where
  "underscoreOK (c # p # cs) =
     (if c = CHR ''0'' \<and> lower_char p \<in> {CHR ''b'', CHR ''o'', CHR ''x''}
      then underscore_loop (lower_char p = CHR ''x'') (CHR ''0'') cs
      else underscore_loop False (CHR ''^'') (c # p # cs))"
| "underscoreOK s = underscore_loop False (CHR ''^'') s"

definition ParseUint_value :: "string \<Rightarrow> u64" where
  "ParseUint_value s =
     (if s = [] then 0
      else let (base, ds) = number_base s in
        (case parse_digits base ds 0 of
           Inl v \<Rightarrow> of_nat v
         | Inr n \<Rightarrow> if CHR ''_'' \<in> set ds \<and> \<not> underscoreOK s then 0 else of_nat n))"

section \<open>Operations (smpc.go)\<close>

text \<open>\<open>now_ms\<close> is \<open>time.Now().UnixMilli()\<close>.\<close>

definition sign_request :: "string \<Rightarrow> string \<Rightarrow> string \<Rightarrow> string \<Rightarrow> string \<Rightarrow> string \<Rightarrow> int \<Rightarrow> sign_data" where
  "sign_request pubkey gid context hash threshold keyType now_ms =
     \<lparr>sd_TxType = ''SIGN'', sd_PubKey = pubkey, sd_InputCode = '''', sd_MsgContext = [context],
      sd_MsgHash = [hash], sd_Keytype = keyType, sd_GroupID = gid, sd_ThresHold = threshold,
      sd_Mode = ''0'', sd_AcceptTimeOut = ''1200'', sd_TimeStamp = int_text now_ms\<rparr>"

definition Sign :: "eth_lib \<Rightarrow> smpc_lib \<Rightarrow> smpc_conn \<Rightarrow> int \<Rightarrow> string \<Rightarrow> string \<Rightarrow> string \<Rightarrow> string \<Rightarrow> string
    \<Rightarrow> string \<Rightarrow> bytes \<Rightarrow> string outcome \<times> call_log" where
  "Sign L S M now_ms pubkey gid context hash threshold keyType pk =
     (case client_Call M ''smpc_getSignNonce'' (sm_account M) of
        Panic p \<Rightarrow> (Panic p, [])
      | Err e \<Rightarrow> (Err e, [])
      | Ok r \<Rightarrow>
          let calls = [(''smpc_getSignNonce'', sm_account M)] in
          (case r of
             Inl e \<Rightarrow> (Err (Wrapf ''smpc_getSignNonce error. '' e), calls)
           | Inr signNonce \<Rightarrow> (case getJSONResult S signNonce of
               Inl e \<Rightarrow> (Err (Wrapf ''getJSONResult of smpc_getSignNonce error. '' e), calls)
             | Inr nonceStr \<Rightarrow>
                 let nonce = ParseUint_value nonceStr;
                     txdata = sign_request pubkey gid context hash threshold keyType now_ms;
                     playload = json_signData S txdata in
                 (case signTX L S pk nonce playload of
                    Inl e \<Rightarrow> (Err (Wrapf ''signTx error. '' e), calls)
                  | Inr rawTX \<Rightarrow>
                      let calls = calls @ [(''smpc_sign'', rawTX)] in
                      (case client_Call M ''smpc_sign'' rawTX of
                         Panic p \<Rightarrow> (Panic p, calls)
                       | Err e \<Rightarrow> (Err e, calls)
                       | Ok (Inl e) \<Rightarrow> (Err (Wrapf ''call smpc_sign error. '' e), calls)
                       | Ok (Inr reqKeyID) \<Rightarrow> (case getJSONResult S reqKeyID of
                           Inl e \<Rightarrow> (Err (Wrapf ''call smpc_sign getJSONResult error. '' e), calls)
                         | Inr keyID \<Rightarrow> (Ok keyID, calls)))))))"

definition ErrNoAccept :: go_error where
  "ErrNoAccept = Errorf ''get sign accept data fail from db''"

definition GetSignStatus :: "smpc_lib \<Rightarrow> smpc_conn \<Rightarrow> string \<Rightarrow> string list rpc outcome" where
  "GetSignStatus S M keyID = obind (client_Call M ''smpc_getSignStatus'' keyID) (\<lambda>r. Ok (case r of
      Inl e \<Rightarrow> Inl (Wrapf ''smpc_getSignStatus rpc error. '' e)
    | Inr reqStatus \<Rightarrow> (case getJSONResult S reqStatus of
        Inl e \<Rightarrow> Inl e
      | Inr statusJSONStr \<Rightarrow> (case json_status S statusJSONStr of
          Inl e \<Rightarrow> Inl (Wrapf ''unmarshal statusJSONStr fail. '' e)
        | Inr statusJSON \<Rightarrow>
            if ss_Status statusJSON = ''Timeout'' \<or> ss_Status statusJSON = ''Failure''
            then Inl (Errorf (''smpc_getSignStatus='' @ ss_Status statusJSON))
            else if ss_Status statusJSON = ''Success'' then Inr (ss_Rsv statusJSON)
            else Inr []))))"

definition GetCurNodeSignInfo :: "smpc_lib \<Rightarrow> smpc_conn \<Rightarrow> sign_info list rpc outcome" where
  "GetCurNodeSignInfo S M = obind (client_Call M ''smpc_getCurNodeSignInfo'' (sm_account M)) (\<lambda>r. Ok (case r of
      Inl e \<Rightarrow> Inl e
    | Inr reqListRep \<Rightarrow> (case getJSONData S reqListRep of
        Inl e \<Rightarrow> Inl (Wrapf ''smpc_getCurNodeSignInfo getJSONData error. '' e)
      | Inr reqListJSON \<Rightarrow> (case json_infos S reqListJSON of
          Inl e \<Rightarrow> Inl (Wrapf ''unmarshal signCurNodeInfo fail. '' e)
        | Inr keyList \<Rightarrow> Inr keyList))))"

definition accept_data :: "sign_info \<Rightarrow> bool \<Rightarrow> int \<Rightarrow> accept_sign_data" where
  "accept_data keyInfo agree now_ms =
     \<lparr>ad_TxType = ''ACCEPTSIGN'', ad_Key = sg_Key keyInfo,
      ad_Accept = (if agree then ''AGREE'' else ''DISAGREE''), ad_MsgHash = sg_MsgHash keyInfo,
      ad_MsgContext = sg_MsgContext keyInfo, ad_TimeStamp = int_text now_ms\<rparr>"

definition AcceptSign :: "eth_lib \<Rightarrow> smpc_lib \<Rightarrow> smpc_conn \<Rightarrow> int \<Rightarrow> sign_info \<Rightarrow> bool \<Rightarrow> bytes
    \<Rightarrow> go_error option outcome \<times> call_log" where
  "AcceptSign L S M now_ms keyInfo agree pk =
     (let playload = json_acceptSign S (accept_data keyInfo agree now_ms) in
      case signTX L S pk 0 playload of
        Inl e \<Rightarrow> (Ok (Some e), [])
      | Inr rawTX \<Rightarrow> (case client_Call M ''smpc_acceptSign'' rawTX of
          Panic p \<Rightarrow> (Panic p, [])
        | Err e \<Rightarrow> (Err e, [])
        | Ok (Inl e) \<Rightarrow> (Ok (Some e), [(''smpc_acceptSign'', rawTX)])
        | Ok (Inr acceptSignRep) \<Rightarrow>
            (Ok (case getJSONResult S acceptSignRep of Inl e \<Rightarrow> Some e | Inr r \<Rightarrow> None),
             [(''smpc_acceptSign'', rawTX)])))"

section \<open>Lemmas\<close>

lemma client_Call_Ok: "sm_client M = Some call \<Longrightarrow> client_Call M method arg = Ok (call method arg)"
  by (simp add: client_Call_def)

lemma digit_of_text:
  assumes "d < 10"
  shows "digit_of (char_of (48 + d)) = Some d" "(char_of (48 + d) :: char) \<noteq> CHR ''_''"
    "(char_of (48 + d) :: char) = CHR ''0'' \<longleftrightarrow> d = 0"
proof -
  have n: "(of_char (char_of (48 + d) :: char) :: nat) = 48 + d" using assms by simp
  show "digit_of (char_of (48 + d)) = Some d" using assms n by (simp add: digit_of_def Let_def)
  show "(char_of (48 + d) :: char) \<noteq> CHR ''_''"
  proof
    assume "(char_of (48 + d) :: char) = CHR ''_''"
    then have "48 + d = (of_char CHR ''_'' :: nat)" using n by simp
    then show False using assms by simp
  qed
  show "(char_of (48 + d) :: char) = CHR ''0'' \<longleftrightarrow> d = 0"
  proof
    assume "(char_of (48 + d) :: char) = CHR ''0''"
    then have "48 + d = (of_char CHR ''0'' :: nat)" using n by simp
    then show "d = 0" by simp
  next
    assume "d = 0"
    moreover have "(char_of (48 + 0 :: nat) :: char) = CHR ''0''" by code_simp
    ultimately show "(char_of (48 + d) :: char) = CHR ''0''" by simp
  qed
qed

lemma parse_digits_append:
  "parse_digits base (xs @ ys) n = (case parse_digits base xs n of Inl v \<Rightarrow> Inl v | Inr m \<Rightarrow> parse_digits base ys m)"
  by (induction xs arbitrary: n) (auto split: option.split)

lemma parse_nat_text: "n < 2 ^ 64 \<Longrightarrow> parse_digits 10 (nat_text n) 0 = Inr n"
proof (induction n rule: nat_text.induct)
  case (1 n)
  show ?case
  proof (cases "n < 10")
    case True
    with "1.prems" show ?thesis by (simp add: nat_text.simps digit_of_text)
  next
    case False
    have "n mod 10 < 10" by simp
    with False "1.IH" "1.prems" show ?thesis
      by (subst nat_text.simps) (simp add: parse_digits_append digit_of_text)
  qed
qed

lemma nat_text_chars: "CHR ''_'' \<notin> set (nat_text n)"
proof (induction n rule: nat_text.induct)
  case (1 n)
  then show ?case
    using digit_of_text(2) [of "n mod 10"] digit_of_text(2) [of n]
    by (subst nat_text.simps) (auto simp: eq_commute [of "CHR ''_''"])
qed

lemma nat_text_head:
  "\<exists>c cs. nat_text n = c # cs \<and> (c = CHR ''0'' \<longrightarrow> n = 0 \<and> cs = [])"
proof (induction n rule: nat_text.induct)
  case (1 n)
  show ?case
  proof (cases "n < 10")
    case True
    then show ?thesis by (subst nat_text.simps) (simp add: digit_of_text)
  next
    case False
    with "1.IH" show ?thesis by (subst nat_text.simps) auto
  qed
qed

section \<open>Properties\<close>

text \<open>The nonce of the group's node is read back exactly: for every number below 2^64,
  \<open>ParseUint\<close> with base 0 of its decimal text is that number, although a leading zero or
  letter would have selected another base.\<close>

theorem ParseUint_decimal:
  assumes "n < 2 ^ 64"
  shows "ParseUint_value (nat_text n) = of_nat n"
proof -
  obtain c cs where t: "nat_text n = c # cs" and z: "c = CHR ''0'' \<longrightarrow> n = 0 \<and> cs = []"
    using nat_text_head [of n] by blast
  show ?thesis
  proof (cases "c = CHR ''0''")
    case True
    with z t show ?thesis by (simp add: ParseUint_value_def)
  next
    case False
    have "number_base (c # cs) = (10, c # cs)"
      using False by (cases "c # cs" rule: number_base.cases) auto
    with t parse_nat_text [OF assms] nat_text_chars [of n] show ?thesis
      by (auto simp: ParseUint_value_def)
  qed
qed

theorem ParseUint_decimal_witness: "ParseUint_value (nat_text 4711) = 4711"
  using ParseUint_decimal [of 4711] by simp

text \<open>What the group's node got from \<open>Sign\<close>: at most one request, the signed transaction of the
  node's nonce whose payload asks for exactly this hash, context, key and threshold; a key id comes
  back only after that request.\<close>

lemma Sign_calls:
  assumes "Sign L S M now pubkey gid context hash threshold keyType pk = (res, calls)"
  shows "calls = [] \<and> (\<forall>k. res \<noteq> Ok k) \<or> calls = [(''smpc_getSignNonce'', sm_account M)] \<and> (\<forall>k. res \<noteq> Ok k) \<or>
    (\<exists>nonce rawTX. signTX L S pk nonce (json_signData S
        (sign_request pubkey gid context hash threshold keyType now)) = Inr rawTX \<and>
      calls = [(''smpc_getSignNonce'', sm_account M), (''smpc_sign'', rawTX)])"
  using assms
  by (auto simp: Sign_def Let_def split: outcome.splits sum.splits)

lemma AcceptSign_calls:
  assumes "AcceptSign L S M now info agree pk = (res, calls)"
  shows "calls = [] \<or> (\<exists>rawTX. signTX L S pk 0 (json_acceptSign S (accept_data info agree now)) = Inr rawTX \<and>
    calls = [(''smpc_acceptSign'', rawTX)])"
  using assms by (auto simp: AcceptSign_def Let_def split: outcome.splits sum.splits)

text \<open>Signatures are taken only from a finished round: \<open>GetSignStatus\<close> yields a signature only
  when the node answered with success, the status it reports is ''Success'' and the signature is
  among those reported; a timeout, a failure and a pending round yield none.\<close>

theorem GetSignStatus_signatures:
  assumes "GetSignStatus S M keyID = Ok (Inr rsvs)" and "rsv \<in> set rsvs"
  shows "\<exists>call rep res st. sm_client M = Some call \<and> call ''smpc_getSignStatus'' keyID = Inr rep \<and>
    getJSONResult S rep = Inr res \<and> json_status S res = Inr st \<and> ss_Status st = ''Success'' \<and>
    rsv \<in> set (ss_Rsv st)"
  using assms
  by (auto simp: GetSignStatus_def client_Call_def obind_Ok_conv split: option.splits sum.splits if_splits)

text \<open>A client of the node for the witnesses: every call succeeds, every round is finished.\<close>

definition smpc_demo :: smpc_lib where
  "smpc_demo =
     \<lparr>json_response = (\<lambda>r. Inr \<lparr>rs_Status = ''Success'', rs_Tip = [], rs_Error = [], rs_Data = r\<rparr>),
      json_data = Inr, json_dataResult = (\<lambda>r. Inr (string_of_bytes r)),
      json_status = (\<lambda>s. Inr \<lparr>ss_Status = ''Success'', ss_Rsv = [''abcd'']\<rparr>),
      json_infos = (\<lambda>r. Inr []), json_signData = (\<lambda>d. [1]), json_acceptSign = (\<lambda>d. [2]),
      signer_Hash = tx_Data, crypto_Sign = (\<lambda>h k. Inr (h @ k)),
      tx_WithSignature = (\<lambda>tx sg. Inr \<lparr>st_tx = tx, st_sig = sg\<rparr>), rlp_Encode = (\<lambda>t. Inr (st_sig t))\<rparr>"

definition demo_smpc_conn :: smpc_conn where
  "demo_smpc_conn = InitSmpc (\<lambda>url method arg. Inr (bytes_of_string ''17'')) ''http'' ''0xab''"

theorem GetSignStatus_signatures_witness:
  "\<exists>st. json_status smpc_demo ''17'' = Inr st \<and> ss_Status st = ''Success'' \<and> ''abcd'' \<in> set (ss_Rsv st)"
proof -
  have run: "GetSignStatus smpc_demo demo_smpc_conn ''key'' = Ok (Inr [''abcd''])" by code_simp
  from GetSignStatus_signatures [OF run, of "''abcd''"] show ?thesis
    by (auto simp: smpc_demo_def)
qed

end
