(* ===== verification/Tools_Aes.thy ===== *)
theory Tools_Aes
  imports Prelude_Go
begin

unbundle bit_operations_syntax

text \<open>
  Package tools (tools/aes.go): the password at rest. \<open>GenerateRandomSeed\<close>,
  \<open>CreateKey\<close>, \<open>AesCBCEncrypt\<close>/\<open>AesCBCDecrypt\<close>, \<open>GetEncryptString\<close>/
  \<open>GetDecryptString\<close> and \<open>getKeyAndIv\<close>.

  Parameters, in \<open>crypto_lib\<close>: the digests, the AES block function and its inverse under a
  key, and the float expression of \<open>CreateKey\<close> as the int64 it is converted to. The CBC
  mode of \<open>crypto/cipher\<close>, the padding and the hex text are modelled. A nil slice and an
  empty slice are both \<open>[]\<close>.
\<close>

record crypto_lib =
  md5_sum :: "bytes \<Rightarrow> bytes"
  sha256_sum :: "bytes \<Rightarrow> bytes"
  sha512_sum :: "bytes \<Rightarrow> bytes"
  aes_enc :: "bytes \<Rightarrow> bytes \<Rightarrow> bytes"   \<comment> \<open>key, block\<close>
  aes_dec :: "bytes \<Rightarrow> bytes \<Rightarrow> bytes"
  sin_wave :: "nat \<Rightarrow> int"              \<comment> \<open>\<open>int64(123456 + i * sin(i))\<close>\<close>

definition crypto_lib_ok :: "crypto_lib \<Rightarrow> bool" where
  "crypto_lib_ok C \<longleftrightarrow>
     (\<forall>x. length (md5_sum C x) = 16) \<and>
     (\<forall>k b. length b = 16 \<longrightarrow> length (aes_enc C k b) = 16) \<and>
     (\<forall>k b. length b = 16 \<longrightarrow> aes_dec C k (aes_enc C k b) = b)"

section \<open>Keys\<close>

text \<open>\<open>GenerateRandomSeed\<close> with the two 32-bit numbers it reads from the random source.\<close>

definition GenerateRandomSeed :: "32 word \<Rightarrow> 32 word \<Rightarrow> u64" where
  "GenerateRandomSeed n1 n2 = push_bit (unat n1) (32 :: u64) + ucast n2"

definition CreateKey :: "crypto_lib \<Rightarrow> u64 \<Rightarrow> nat \<Rightarrow> bytes" where
  "CreateKey C seed nSize =
     (if nSize \<noteq> 16 \<and> nSize \<noteq> 32 \<and> nSize \<noteq> 64 then []
      else let data = map (\<lambda>i. word_of_int (go_rem (sin_wave C i) 256)) [0..<nSize * 4] in
        if nSize = 16 then md5_sum C data
        else if nSize = 32 then sha256_sum C data
        else sha512_sum C data)"

definition MD5 :: "crypto_lib \<Rightarrow> string \<Rightarrow> bytes" where
  "MD5 C str = take 16 (md5_sum C (bytes_of_string str))"

type_synonym seeds = "u64 \<times> u64 \<times> u64 \<times> u64"

fun getKeyAndIv :: "crypto_lib \<Rightarrow> seeds \<Rightarrow> (bytes \<times> bytes) outcome" where
  "getKeyAndIv C (s0, s1, s2, s3) =
     obind (slice_to 8 (CreateKey C s1 16)) (\<lambda>a.
     obind (slice_from 8 (CreateKey C s2 16)) (\<lambda>b.
     Ok (CreateKey C s0 16 @ a @ b, CreateKey C s3 16)))"

section \<open>The block mode\<close>

definition xor_bytes :: "bytes \<Rightarrow> bytes \<Rightarrow> bytes" where
  "xor_bytes a b = map2 (XOR) a b"

text \<open>\<open>aes.NewCipher\<close> accepts keys of 16, 24 and 32 bytes. \<open>CryptBlocks\<close> on whole blocks,
  in the two directions; the callers only pass whole blocks.\<close>

definition aes_key_ok :: "bytes \<Rightarrow> bool" where
  "aes_key_ok key \<longleftrightarrow> length key \<in> {16, 24, 32}"

function cbc_encrypt :: "(bytes \<Rightarrow> bytes) \<Rightarrow> bytes \<Rightarrow> bytes \<Rightarrow> bytes" where
  "cbc_encrypt E iv xs =
     (if length xs < 16 then []
      else let c = E (xor_bytes (take 16 xs) iv) in c @ cbc_encrypt E c (drop 16 xs))"
  by pat_completeness auto
termination by (relation "measure (\<lambda>(E, iv, xs). length xs)") auto

function cbc_decrypt :: "(bytes \<Rightarrow> bytes) \<Rightarrow> bytes \<Rightarrow> bytes \<Rightarrow> bytes" where
  "cbc_decrypt D iv xs =
     (if length xs < 16 then []
      else xor_bytes (D (take 16 xs)) iv @ cbc_decrypt D (take 16 xs) (drop 16 xs))"
  by pat_completeness auto
termination by (relation "measure (\<lambda>(D, iv, xs). length xs)") auto

declare cbc_encrypt.simps [simp del] cbc_decrypt.simps [simp del]

text \<open>PKCS#7 padding as both encryption functions write it out.\<close>

definition pad_blocks :: "bytes \<Rightarrow> bytes" where
  "pad_blocks raw = (let padding = 16 - length raw mod 16 in
     raw @ replicate padding (of_nat padding))"

text \<open>The last byte is the padding length; a buffer that is not longer than it becomes nil.\<close>

definition unpad_blocks :: "bytes \<Rightarrow> bytes" where
  "unpad_blocks enData = (let n = length enData; unpadding = unat (enData ! (n - 1)) in
     if n > unpadding then take (n - unpadding) enData else [])"

section \<open>Encryption and decryption\<close>

definition AesCBCEncrypt :: "crypto_lib \<Rightarrow> string \<Rightarrow> bytes \<Rightarrow> bytes \<Rightarrow> string outcome" where
  "AesCBCEncrypt C source key aesCbcIv =
     (if \<not> aes_key_ok key then Ok ''''
      else let rawData = pad_blocks (bytes_of_string source) in
        obind (slice_to 16 aesCbcIv) (\<lambda>iv.
        Ok (hex_encode (cbc_encrypt (aes_enc C key) iv rawData))))"

definition AesCBCDecrypt :: "crypto_lib \<Rightarrow> string \<Rightarrow> bytes \<Rightarrow> bytes \<Rightarrow> string outcome" where
  "AesCBCDecrypt C encrypt key aesCbcIv =
     (if \<not> aes_key_ok key then Ok ''''
      else case hex_decode encrypt of
        Inl e \<Rightarrow> Ok ''''
      | Inr enData \<Rightarrow>
          if length enData < 16 \<or> length enData mod 16 \<noteq> 0 then Ok ''''
          else obind (slice_to 16 aesCbcIv) (\<lambda>iv.
            Ok (string_of_bytes (unpad_blocks (cbc_decrypt (aes_dec C key) iv enData)))))"

text \<open>\<open>cipher.NewCBCEncrypter\<close> panics when the iv is not one block long.\<close>

definition GetEncryptString :: "crypto_lib \<Rightarrow> string \<Rightarrow> seeds \<Rightarrow> string outcome" where
  "GetEncryptString C source seeds =
     obind (getKeyAndIv C seeds) (\<lambda>(key, iv).
       if \<not> aes_key_ok key then Ok ''''
       else let rawData = pad_blocks (bytes_of_string source) in
         if length iv \<noteq> 16 then Panic ''cipher.NewCBCEncrypter: IV length must equal block size''
         else Ok (hex_encode (cbc_encrypt (aes_enc C key) iv rawData)))"

definition GetDecryptString :: "crypto_lib \<Rightarrow> string \<Rightarrow> seeds \<Rightarrow> bytes outcome" where
  "GetDecryptString C encrypt seeds =
     obind (getKeyAndIv C seeds) (\<lambda>(key, iv).
       if \<not> aes_key_ok key then Ok []
       else case hex_decode encrypt of
         Inl e \<Rightarrow> Ok []
       | Inr enData \<Rightarrow>
           if length enData < 16 \<or> length enData mod 16 \<noteq> 0 then Ok []
           else if length iv \<noteq> 16 then Panic ''cipher.NewCBCDecrypter: IV length must equal block size''
           else Ok (unpad_blocks (cbc_decrypt (aes_dec C key) iv enData)))"

section \<open>Lemmas\<close>

lemma length_xor_bytes [simp]: "length (xor_bytes a b) = min (length a) (length b)"
  by (simp add: xor_bytes_def)

lemma xor_bytes_cancel: "length a \<le> length b \<Longrightarrow> xor_bytes (xor_bytes a b) b = a"
  unfolding xor_bytes_def by (rule nth_equalityI) (auto simp: xor.assoc)

lemma length_pad_blocks: "length (pad_blocks raw) = (length raw div 16 + 1) * 16"
proof -
  have "length raw + (16 - length raw mod 16) = (length raw div 16 + 1) * 16"
    by presburger
  then show ?thesis by (simp add: pad_blocks_def Let_def)
qed

lemma unpad_pad_blocks: "unpad_blocks (pad_blocks raw) = raw"
proof -
  define p where "p = 16 - length raw mod 16"
  have p: "0 < p" "p \<le> 16" unfolding p_def by simp_all
  have "unat (of_nat p :: byte) = p" using p by (subst unat_of_nat) simp
  moreover have "(raw @ replicate p (of_nat p)) ! (length raw + (p - 1)) = (of_nat p :: byte)"
    using p by (simp only: nth_append_length_plus nth_replicate)
  ultimately show ?thesis
    using p by (simp add: unpad_blocks_def pad_blocks_def Let_def flip: p_def)
qed

lemma cbc_step:
  assumes "length b = 16"
  shows "cbc_encrypt E iv (b @ xs) = (let c = E (xor_bytes b iv) in c @ cbc_encrypt E c xs)"
    and "cbc_decrypt D iv (b @ xs) = xor_bytes (D b) iv @ cbc_decrypt D b xs"
  using assms by (simp_all add: cbc_encrypt.simps [of E iv "b @ xs"]
      cbc_decrypt.simps [of D iv "b @ xs"])

lemma cbc_decrypt_encrypt:
  assumes E: "\<And>b. length b = 16 \<Longrightarrow> length (E b) = 16"
    and DE: "\<And>b. length b = 16 \<Longrightarrow> D (E b) = b"
  shows "length iv = 16 \<Longrightarrow> length xs = n * 16 \<Longrightarrow>
    cbc_decrypt D iv (cbc_encrypt E iv xs) = xs \<and> length (cbc_encrypt E iv xs) = n * 16"
proof (induction n arbitrary: iv xs)
  case 0
  then show ?case by (simp add: cbc_encrypt.simps cbc_decrypt.simps)
next
  case (Suc n)
  define b ys where "b = take 16 xs" and "ys = drop 16 xs"
  have xs: "xs = b @ ys" and b: "length b = 16" and ys: "length ys = n * 16"
    using Suc.prems by (simp_all add: b_def ys_def)
  define c where "c = E (xor_bytes b iv)"
  have c: "length c = 16" unfolding c_def using E b Suc.prems by simp
  have "D c = xor_bytes b iv" unfolding c_def using DE b Suc.prems by simp
  then have "xor_bytes (D c) iv = b" using b Suc.prems by (simp add: xor_bytes_cancel)
  moreover note Suc.IH [OF c ys]
  ultimately show ?case
    using b c by (simp add: xs cbc_step Let_def flip: c_def)
qed

lemma getKeyAndIv_ok:
  assumes "crypto_lib_ok C"
  shows "\<exists>key iv. getKeyAndIv C seeds = Ok (key, iv) \<and> length key = 32 \<and> length iv = 16"
proof -
  have "length (CreateKey C s 16) = 16" for s
    using assms by (simp add: CreateKey_def crypto_lib_ok_def Let_def)
  then show ?thesis by (cases seeds) (simp add: slice_to_Ok slice_from_Ok)
qed

lemma getKeyAndIv_seed: "getKeyAndIv C seeds = getKeyAndIv C seeds'"
  by (cases seeds; cases seeds') (simp add: CreateKey_def)

section \<open>Properties\<close>

lemma decrypt_encrypt:
  assumes "crypto_lib_ok C" and "GetEncryptString C src seeds = Ok enc"
  shows "GetDecryptString C enc seeds' = Ok (bytes_of_string src)"
proof -
  obtain key iv where k: "getKeyAndIv C seeds = Ok (key, iv)" "length key = 32" "length iv = 16"
    using getKeyAndIv_ok [OF assms(1)] by blast
  have k': "getKeyAndIv C seeds' = Ok (key, iv)" using getKeyAndIv_seed k(1) by metis
  define raw where "raw = pad_blocks (bytes_of_string src)"
  have len: "length raw = (length (bytes_of_string src) div 16 + 1) * 16"
    by (simp add: raw_def length_pad_blocks)
  have cbc: "cbc_decrypt (aes_dec C key) iv (cbc_encrypt (aes_enc C key) iv raw) = raw \<and>
      length (cbc_encrypt (aes_enc C key) iv raw) = (length (bytes_of_string src) div 16 + 1) * 16"
    using assms(1) by (intro cbc_decrypt_encrypt k len) (simp_all add: crypto_lib_ok_def)
  have "enc = hex_encode (cbc_encrypt (aes_enc C key) iv raw)"
    using assms(2) k by (simp add: GetEncryptString_def aes_key_ok_def raw_def)
  then show ?thesis
    using cbc k k' unpad_pad_blocks [of "bytes_of_string src"]
    by (simp add: GetDecryptString_def aes_key_ok_def raw_def)
qed

text \<open>C34: the password survives its encryption at rest. Whatever the text, the empty one
  included, decrypting the hex text of \<open>GetEncryptString\<close> gives its bytes back, for any digests
  of the right length and any block function with an inverse. The seeds of the two calls need
  not agree: \<open>CreateKey\<close> does not use its seed.\<close>

theorem GetDecryptString_GetEncryptString:
  assumes "crypto_lib_ok C" and "GetEncryptString C src seeds = Ok enc"
  shows "GetDecryptString C enc seeds' = Ok (bytes_of_string src)"
  using assms by (rule decrypt_encrypt)

text \<open>A stand-in for the digests and the block function, for the witnesses: constant digests of
  the right length and a block function that complements every byte.\<close>

definition demo_crypto :: crypto_lib where
  "demo_crypto = \<lparr>md5_sum = (\<lambda>x. replicate 16 7), sha256_sum = (\<lambda>x. replicate 32 7),
     sha512_sum = (\<lambda>x. replicate 64 7), aes_enc = (\<lambda>k. map NOT), aes_dec = (\<lambda>k. map NOT),
     sin_wave = (\<lambda>i. 123456)\<rparr>"

lemma demo_crypto_ok: "crypto_lib_ok demo_crypto"
  by (simp add: crypto_lib_ok_def demo_crypto_def comp_def)

lemma GetEncryptString_total:
  assumes "crypto_lib_ok C" shows "\<exists>enc. GetEncryptString C src seeds = Ok enc"
proof -
  obtain key iv where "getKeyAndIv C seeds = Ok (key, iv)" "length key = 32" "length iv = 16"
    using getKeyAndIv_ok [OF assms(1)] by blast
  then show ?thesis by (simp add: GetEncryptString_def aes_key_ok_def Let_def)
qed

theorem GetDecryptString_GetEncryptString_witness:
  "\<exists>enc. GetEncryptString demo_crypto ''pass'' (1, 2, 3, 4) = Ok enc \<and>
     GetDecryptString demo_crypto enc (5, 6, 7, 8) = Ok (bytes_of_string ''pass'')"
  using GetEncryptString_total [OF demo_crypto_ok]
    GetDecryptString_GetEncryptString [OF demo_crypto_ok] by blast

text \<open>There is one cipher behind two interfaces. With the key and iv that \<open>getKeyAndIv\<close> derives,
  \<open>AesCBCEncrypt\<close> gives the text of \<open>GetEncryptString\<close>, and \<open>AesCBCDecrypt\<close> the characters of
  \<open>GetDecryptString\<close>, for every input, whether it is a ciphertext or not.\<close>

theorem AesCBC_is_GetEncryptString:
  assumes "crypto_lib_ok C" and "getKeyAndIv C seeds = Ok (key, iv)"
  shows "GetEncryptString C src seeds = AesCBCEncrypt C src key iv \<and>
    AesCBCDecrypt C enc key iv = obind (GetDecryptString C enc seeds) (\<lambda>b. Ok (string_of_bytes b))"
proof -
  have "length key = 32" "length iv = 16"
    using getKeyAndIv_ok [OF assms(1), of seeds] assms(2) by auto
  then show ?thesis
    using assms(2)
    by (simp add: GetEncryptString_def AesCBCEncrypt_def GetDecryptString_def AesCBCDecrypt_def aes_key_ok_def
        slice_to_def string_of_bytes_def split: sum.split)
qed

theorem AesCBC_is_GetEncryptString_witness:
  "\<exists>key iv enc. getKeyAndIv demo_crypto (1, 2, 3, 4) = Ok (key, iv) \<and>
     AesCBCEncrypt demo_crypto ''pass'' key iv = Ok enc \<and> AesCBCDecrypt demo_crypto enc key iv = Ok ''pass''"
proof -
  obtain key iv enc where k: "getKeyAndIv demo_crypto (1, 2, 3, 4) = Ok (key, iv)"
    and e: "GetEncryptString demo_crypto ''pass'' (1, 2, 3, 4) = Ok enc"
    using getKeyAndIv_ok [OF demo_crypto_ok] GetEncryptString_total [OF demo_crypto_ok] by blast
  have "string_of_bytes (bytes_of_string ''pass'') = ''pass''" by code_simp
  with AesCBC_is_GetEncryptString [OF demo_crypto_ok k] decrypt_encrypt [OF demo_crypto_ok e] k e
  show ?thesis by fastforce
qed

text \<open>The key material does not depend on the random seeds: any two seed vectors give the
  same key and iv, so the seeds add no secrecy to the encrypted password.\<close>

theorem keys_ignore_seeds:
  "CreateKey C s n = CreateKey C s' n \<and> getKeyAndIv C seeds = getKeyAndIv C seeds'"
  using getKeyAndIv_seed by (auto simp: CreateKey_def)

text \<open>The random seed is 32 shifted left by a random 32-bit count, so whenever the count is
  at least 59 the shifted part has left the 64 bits and the seed is the second number alone.\<close>

theorem GenerateRandomSeed_high_part_lost:
  assumes "59 \<le> unat n1"
  shows "GenerateRandomSeed n1 n2 = ucast n2 \<and> unat (GenerateRandomSeed n1 n2) < 2 ^ 32"
proof -
  have "push_bit (unat n1) (32 :: u64) = push_bit (unat n1 + 5) 1"
    by (simp add: push_bit_eq_mult power_add)
  also have "\<dots> = 0" using assms by (intro bit_word_eqI) (auto simp: bit_simps)
  finally have eq: "GenerateRandomSeed n1 n2 = ucast n2" by (simp add: GenerateRandomSeed_def)
  have "unat n2 < 2 ^ LENGTH(32)" by (rule unsigned_less)
  then have "unat (ucast n2 :: u64) < 2 ^ 32" by (simp add: unsigned_ucast_eq take_bit_eq_mod)
  with eq show ?thesis by simp
qed

theorem GenerateRandomSeed_high_part_lost_witness:
  "59 \<le> unat (1000 :: 32 word) \<and> GenerateRandomSeed 1000 5 = 5"
  using GenerateRandomSeed_high_part_lost [of 1000 5] by simp

end
