(* ===== verification/Config.thy ===== *)
theory Config
  imports Tools_Aes "HOL-Library.AList"
begin

text \<open>
  Package config (config.go): the configuration and the keystores.

  The decoded file is the argument \<open>all_config\<close>; reading a file and decrypting a keystore with a
  password are parameters. The package's variables are the record \<open>config\<close>. Its maps are
  association lists; Go meets the entries of a map in any order, here in the order of the list, so
  that only the choice among several panics may differ. Durations are in seconds.
\<close>

record config_token =
  ct_Symbol :: string
  ct_NodeRpc :: string
  ct_NodeWss :: string
  ct_ScanEventType :: int
  ct_ScanMaxHeight :: u64
  ct_MultiSignType :: int
  ct_PublicKey :: string
  ct_Contract :: string
  ct_MinAmount :: "int option"
  ct_KeyStore :: string
  ct_Account :: bytes
  ct_GasPriceUpper :: int

record wrap_pair =
  wp_SrcToken :: string
  wp_DestToken :: string

record smpc_config =
  sc_NodeUrl :: string
  sc_Gid :: string
  sc_Accounts :: "string list"
  sc_ThresHold :: string
  sc_KeyStore :: string
  sc_Account :: string

record db_config =
  dc_Host :: string
  dc_Port :: string
  dc_DbName :: string
  dc_Usr :: string
  dc_Pwd :: string

record server_config =
  vc_DetectCount :: int
  vc_DetectTime :: int
  vc_AcceptTime :: int
  vc_AcceptOverTime :: int

record txerr_config =
  tc_NodeRpc :: string
  tc_NodeWss :: string
  tc_Contract :: string
  tc_ScanEventType :: int
  tc_TimePeriod :: i64

record all_config =
  al_Version :: string
  al_PendingTime :: int
  al_Server :: server_config
  al_Smpc :: smpc_config
  al_Db :: db_config
  al_Tokens :: "config_token list"
  al_Pairs :: "wrap_pair list"
  al_TxErrorRecord :: txerr_config

record config =
  cf_Version :: string
  cf_PendingTime :: int
  cf_Server :: server_config
  cf_Smpc :: smpc_config
  cf_Db :: db_config
  cf_Tokens :: "(string \<times> config_token) list"
  cf_WrapPairs :: "(string \<times> string) list"
  cf_seeds :: seeds
  cf_password :: string
  cf_keyJsons :: "(string \<times> string) list"
  cf_TxErrorRecord :: txerr_config

text \<open>\<open>os.ReadFile\<close>, \<open>keystore.DecryptKey\<close> with the address and the key, and the address as text.\<close>

record key_lib =
  ReadFile :: "string \<Rightarrow> string rpc"
  DecryptKey :: "string \<Rightarrow> string \<Rightarrow> (bytes \<times> bytes) rpc"
  account_Hex :: "bytes \<Rightarrow> string"

section \<open>checkKeyStore and GetPrivateKey\<close>

fun check_tokens :: "key_lib \<Rightarrow> string \<Rightarrow> (string \<times> config_token) list
    \<Rightarrow> ((string \<times> config_token) list \<times> (string \<times> string) list) outcome" where
  "check_tokens K pwd [] = Ok ([], [])"
| "check_tokens K pwd ((symbol, t) # ts) =
     (if length (ct_KeyStore t) = 0
      then obind (check_tokens K pwd ts) (\<lambda>(ts', js). Ok ((symbol, t) # ts', js))
      else case DecryptKey K (ct_KeyStore t) pwd of
        Inl e \<Rightarrow> Panic (symbol @ '' keystore error : '' @ error_text e)
      | Inr (addr, key) \<Rightarrow> obind (check_tokens K pwd ts) (\<lambda>(ts', js).
          Ok ((symbol, t\<lparr>ct_Account := addr\<rparr>) # ts', AList.update symbol (ct_KeyStore t) js)))"

definition checkKeyStore :: "crypto_lib \<Rightarrow> key_lib \<Rightarrow> config \<Rightarrow> config outcome" where
  "checkKeyStore C K conf =
     obind (GetDecryptString C (cf_password conf) (cf_seeds conf)) (\<lambda>pwd.
     obind (check_tokens K (string_of_bytes pwd) (cf_Tokens conf)) (\<lambda>(ts, js).
     case DecryptKey K (sc_KeyStore (cf_Smpc conf)) (string_of_bytes pwd) of
       Inl e \<Rightarrow> Panic (''Smpc keystore error : '' @ error_text e)
     | Inr (addr, key) \<Rightarrow>
         Ok (conf\<lparr>cf_Tokens := ts, cf_Smpc := (cf_Smpc conf)\<lparr>sc_Account := account_Hex K addr\<rparr>,
           cf_keyJsons := AList.update ''smpc'' (sc_KeyStore (cf_Smpc conf)) js\<rparr>)))"

text \<open>A symbol without a keystore decrypts nil.\<close>

definition GetPrivateKey :: "crypto_lib \<Rightarrow> key_lib \<Rightarrow> config \<Rightarrow> string \<Rightarrow> (bytes \<times> bytes) rpc outcome" where
  "GetPrivateKey C K conf symbol =
     obind (GetDecryptString C (cf_password conf) (cf_seeds conf)) (\<lambda>pwd.
     Ok (DecryptKey K (case map_of (cf_keyJsons conf) symbol of None \<Rightarrow> '''' | Some j \<Rightarrow> j)
       (string_of_bytes pwd)))"

section \<open>Load\<close>

fun load_tokens :: "key_lib \<Rightarrow> config_token list \<Rightarrow> (string \<times> config_token) list
    \<Rightarrow> (string \<times> config_token) list outcome" where
  "load_tokens K [] ts = Ok ts"
| "load_tokens K (t # rest) ts =
     obind (if length (ct_KeyStore t) > 0
            then (case ReadFile K (ct_KeyStore t) of
                Inl e \<Rightarrow> Panic ''Read keystore file fail.''
              | Inr keyjson \<Rightarrow> Ok (t\<lparr>ct_KeyStore := keyjson\<rparr>))
            else Ok t) (\<lambda>tt.
     if ct_MinAmount t = None then Panic (ct_Symbol t @ ''s MinAmount must to be set.'')
     else load_tokens K rest (AList.update (ct_Symbol t) tt ts))"

definition load_pairs :: "wrap_pair list \<Rightarrow> (string \<times> string) list" where
  "load_pairs ps = fold (\<lambda>p. AList.update (wp_SrcToken p) (wp_DestToken p)) ps []"

definition Load :: "crypto_lib \<Rightarrow> key_lib \<Rightarrow> all_config rpc \<Rightarrow> string \<Rightarrow> seeds \<Rightarrow> config outcome" where
  "Load C K file pwd sds = (case file of
      Inl e \<Rightarrow> Panic (error_text e)
    | Inr all \<Rightarrow>
        obind (load_tokens K (al_Tokens all) []) (\<lambda>ts.
        case ReadFile K (sc_KeyStore (al_Smpc all)) of
          Inl e \<Rightarrow> Panic ''Read keystore file fail.''
        | Inr keyjson \<Rightarrow> checkKeyStore C K
            \<lparr>cf_Version = al_Version all, cf_PendingTime = al_PendingTime all, cf_Server = al_Server all,
             cf_Smpc = (al_Smpc all)\<lparr>sc_KeyStore := keyjson\<rparr>, cf_Db = al_Db all, cf_Tokens = ts,
             cf_WrapPairs = load_pairs (al_Pairs all), cf_seeds = sds, cf_password = pwd,
             cf_keyJsons = [], cf_TxErrorRecord = al_TxErrorRecord all\<rparr>))"

section \<open>Lemmas\<close>

lemma load_tokens_inv:
  assumes "load_tokens K cts ts = Ok ts'" and "distinct (map fst ts)"
    and "\<And>s t. (s, t) \<in> set ts \<Longrightarrow> ct_MinAmount t \<noteq> None"
  shows "distinct (map fst ts') \<and> (\<forall>(s, t) \<in> set ts'. ct_MinAmount t \<noteq> None)"
  using assms
proof (induction K cts ts rule: load_tokens.induct)
  case (2 K t rest ts)
  from "2.prems"(1) obtain tt where
    tt: "(if length (ct_KeyStore t) > 0 then (case ReadFile K (ct_KeyStore t) of
        Inl e \<Rightarrow> Panic ''Read keystore file fail.'' | Inr keyjson \<Rightarrow> Ok (t\<lparr>ct_KeyStore := keyjson\<rparr>))
      else Ok t) = Ok tt"
    and go: "(if ct_MinAmount t = None then Panic (ct_Symbol t @ ''s MinAmount must to be set.'')
      else load_tokens K rest (AList.update (ct_Symbol t) tt ts)) = Ok ts'"
    unfolding load_tokens.simps obind_Ok_conv by blast
  from tt have same: "ct_MinAmount tt = ct_MinAmount t" by (auto split: if_splits sum.splits)
  from go have some: "ct_MinAmount t \<noteq> None"
    and rest: "load_tokens K rest (AList.update (ct_Symbol t) tt ts) = Ok ts'"
    by (auto split: if_splits)
  have d: "distinct (map fst (AList.update (ct_Symbol t) tt ts))"
    using "2.prems"(2) by (rule distinct_update)
  have "ct_MinAmount u \<noteq> None" if "(s, u) \<in> set (AList.update (ct_Symbol t) tt ts)" for s u
  proof -
    have "map_of (AList.update (ct_Symbol t) tt ts) s = Some u" using that d by simp
    then show ?thesis
      using "2.prems"(3) same some by (auto simp: update_conv dest: map_of_SomeD split: if_splits)
  qed
  with "2.IH" [OF some rest d] show ?case by simp
qed auto

lemma check_tokens_keys:
  assumes "check_tokens K pwd ts = Ok (ts', js)" and "distinct (map fst ts)"
  shows "map fst ts' = map fst ts \<and> (\<forall>s. map_of js s \<noteq> None \<longrightarrow> s \<in> fst ` set ts) \<and>
    (\<forall>s t. (s, t) \<in> set ts' \<longrightarrow> (\<exists>t0. (s, t0) \<in> set ts \<and> ct_MinAmount t = ct_MinAmount t0) \<and>
      (ct_KeyStore t \<noteq> [] \<longrightarrow> (\<exists>key. map_of js s = Some (ct_KeyStore t) \<and>
         DecryptKey K (ct_KeyStore t) pwd = Inr (ct_Account t, key))))"
  using assms
proof (induction K pwd ts arbitrary: ts' js rule: check_tokens.induct)
  case (2 K pwd symbol t ts)
  show ?case
  proof (cases "length (ct_KeyStore t) = 0")
    case True
    with "2.prems" obtain ts1 where r: "check_tokens K pwd ts = Ok (ts1, js)" "ts' = (symbol, t) # ts1"
      by (auto simp: obind_Ok_conv)
    have "distinct (map fst ts)" using "2.prems"(2) by simp
    note ih = "2.IH"(1) [OF True r(1) this]
    then have "\<exists>t0. (s, t0) \<in> set ((symbol, t) # ts) \<and> ct_MinAmount u = ct_MinAmount t0"
      if "(s, u) \<in> set ts1" for s u
      using that by (meson list.set_intros(2))
    with ih r(2) True show ?thesis by auto
  next
    case False
    with "2.prems" obtain addr key ts1 js1 where
      d: "DecryptKey K (ct_KeyStore t) pwd = Inr (addr, key)" and
      r: "check_tokens K pwd ts = Ok (ts1, js1)" and
      e: "ts' = (symbol, t\<lparr>ct_Account := addr\<rparr>) # ts1" "js = AList.update symbol (ct_KeyStore t) js1"
      by (auto simp: obind_Ok_conv split: sum.splits)
    have dist: "distinct (map fst ts)" "symbol \<notin> fst ` set ts" using "2.prems"(2) by auto
    have ih: "map fst ts1 = map fst ts" "\<And>s. map_of js1 s \<noteq> None \<Longrightarrow> s \<in> fst ` set ts"
      "\<And>s t. (s, t) \<in> set ts1 \<Longrightarrow> (\<exists>t0. (s, t0) \<in> set ts \<and> ct_MinAmount t = ct_MinAmount t0) \<and>
        (ct_KeyStore t \<noteq> [] \<longrightarrow> (\<exists>key. map_of js1 s = Some (ct_KeyStore t) \<and>
         DecryptKey K (ct_KeyStore t) pwd = Inr (ct_Account t, key)))"
      using "2.IH"(2) [OF False d refl r dist(1)] by blast+
    have ne: "s \<noteq> symbol" if "(s, u) \<in> set ts1" for s u
      using that ih(3) dist(2) by (metis fst_conv image_eqI)
    show ?thesis
      unfolding e using ih d ne by (auto simp: update_conv)
  qed
qed auto

section \<open>Properties\<close>

text \<open>C33: a configuration that loads can sign: after \<open>Load\<close> every token has a minimum amount, the
  password opens the keystore of every token that names one and yields the key of the account that
  the token got, and it opens the keystore of the signing group. (A token called ''smpc'' would
  lose its keystore to the group's.)\<close>

theorem Load_keys_open:
  assumes "Load C K file pwd sds = Ok conf"
  shows "(\<forall>s t. map_of (cf_Tokens conf) s = Some t \<longrightarrow> ct_MinAmount t \<noteq> None \<and>
      (ct_KeyStore t \<noteq> [] \<and> s \<noteq> ''smpc'' \<longrightarrow>
         (\<exists>key. GetPrivateKey C K conf s = Ok (Inr (ct_Account t, key))))) \<and>
    (\<exists>addr key. GetPrivateKey C K conf ''smpc'' = Ok (Inr (addr, key)) \<and>
       sc_Account (cf_Smpc conf) = account_Hex K addr)"
proof -
  from assms obtain all :: all_config and ts keyjson where
    ts: "load_tokens K (al_Tokens all) [] = Ok ts"
    and chk: "checkKeyStore C K
      \<lparr>cf_Version = al_Version all, cf_PendingTime = al_PendingTime all, cf_Server = al_Server all,
       cf_Smpc = (al_Smpc all)\<lparr>sc_KeyStore := keyjson\<rparr>, cf_Db = al_Db all, cf_Tokens = ts,
       cf_WrapPairs = load_pairs (al_Pairs all), cf_seeds = sds, cf_password = pwd,
       cf_keyJsons = [], cf_TxErrorRecord = al_TxErrorRecord all\<rparr> = Ok conf"
    by (auto simp: Load_def ok_convs)
  from chk obtain w ts' js addr key where
    w: "GetDecryptString C pwd sds = Ok w" and
    ct: "check_tokens K (string_of_bytes w) ts = Ok (ts', js)" and
    dk: "DecryptKey K keyjson (string_of_bytes w) = Inr (addr, key)" and
    conf: "cf_Tokens conf = ts'" "cf_keyJsons conf = AList.update ''smpc'' keyjson js"
      "cf_password conf = pwd" "cf_seeds conf = sds" "sc_Account (cf_Smpc conf) = account_Hex K addr"
    by (auto simp: checkKeyStore_def ok_convs)
  have inv: "distinct (map fst ts)" "\<And>s t. (s, t) \<in> set ts \<Longrightarrow> ct_MinAmount t \<noteq> None"
    using load_tokens_inv [OF ts] by auto
  have keys: "map_of ts' s = Some t \<Longrightarrow> ct_MinAmount t \<noteq> None \<and> (ct_KeyStore t \<noteq> [] \<longrightarrow>
      (\<exists>key. map_of js s = Some (ct_KeyStore t) \<and>
         DecryptKey K (ct_KeyStore t) (string_of_bytes w) = Inr (ct_Account t, key)))" for s t
    using check_tokens_keys [OF ct inv(1)] inv(2) by (metis map_of_SomeD)
  show ?thesis
    using keys w dk conf by (auto simp: GetPrivateKey_def update_conv)
qed

text \<open>The tokens and the pair of config/conf.toml, with keystores that one password opens.\<close>

definition conf_SOON :: config_token where
  "conf_SOON = \<lparr>ct_Symbol = ''SOON'', ct_NodeRpc = ''https://api.shimmer.network'',
     ct_NodeWss = ''https://api.shimmer.network'', ct_ScanEventType = 0, ct_ScanMaxHeight = 0,
     ct_MultiSignType = 3, ct_PublicKey = hex_encode (replicate 32 5), ct_Contract = hex_encode [4],
     ct_MinAmount = Some 1, ct_KeyStore = ''./config/smpc_k'', ct_Account = [], ct_GasPriceUpper = 0\<rparr>"

definition conf_sSOON :: config_token where
  "conf_sSOON = \<lparr>ct_Symbol = ''sSOON'', ct_NodeRpc = ''https://json-rpc.evm.shimmer.network'',
     ct_NodeWss = ''wss://ws.json-rpc.evm.shimmer.network'', ct_ScanEventType = 0,
     ct_ScanMaxHeight = 1000, ct_MultiSignType = 0, ct_PublicKey = [],
     ct_Contract = ''0x'' @ hex_encode (replicate 20 9),
     ct_MinAmount = Some 1, ct_KeyStore = ''./config/smpc_k'', ct_Account = [], ct_GasPriceUpper = 10\<rparr>"

definition conf_file :: all_config where
  "conf_file = \<lparr>al_Version = ''0.9.1'', al_PendingTime = 300,
     al_Server = \<lparr>vc_DetectCount = 60, vc_DetectTime = 10, vc_AcceptTime = 30, vc_AcceptOverTime = 7200\<rparr>,
     al_Smpc = \<lparr>sc_NodeUrl = [], sc_Gid = [], sc_Accounts = [], sc_ThresHold = [],
       sc_KeyStore = ''./config/smpc_k'', sc_Account = []\<rparr>,
     al_Db = \<lparr>dc_Host = ''127.0.0.1'', dc_Port = ''3306'', dc_DbName = ''smpc'', dc_Usr = ''root'', dc_Pwd = ''851012''\<rparr>,
     al_Tokens = [conf_SOON, conf_sSOON],
     al_Pairs = [\<lparr>wp_SrcToken = ''SOON'', wp_DestToken = ''sSOON''\<rparr>],
     al_TxErrorRecord = \<lparr>tc_NodeRpc = [], tc_NodeWss = [], tc_Contract = [], tc_ScanEventType = 0,
       tc_TimePeriod = 3600\<rparr>\<rparr>"

definition demo_keys :: key_lib where
  "demo_keys = \<lparr>ReadFile = (\<lambda>f. Inr ''json''),
     DecryptKey = (\<lambda>j p. if j = ''json'' then Inr (replicate 20 8, [3]) else Inl (Errorf ''keystore'')),
     account_Hex = (\<lambda>a. hex_encode a)\<rparr>"

definition demo_config :: config where
  "demo_config = (case Load demo_crypto demo_keys (Inr conf_file) [] (1, 2, 3, 4) of Ok c \<Rightarrow> c)"

lemma demo_decrypt: "GetDecryptString demo_crypto [] (1, 2, 3, 4) = Ok []"
  by code_simp

lemma demo_Load: "Load demo_crypto demo_keys (Inr conf_file) [] (1, 2, 3, 4) = Ok demo_config"
  by (simp add: demo_config_def Load_def conf_file_def conf_SOON_def conf_sSOON_def demo_keys_def
      checkKeyStore_def demo_decrypt)

lemma demo_config_tokens:
  "cf_Tokens demo_config = [(''SOON'', conf_SOON\<lparr>ct_KeyStore := ''json'', ct_Account := replicate 20 8\<rparr>),
     (''sSOON'', conf_sSOON\<lparr>ct_KeyStore := ''json'', ct_Account := replicate 20 8\<rparr>)]"
  "cf_WrapPairs demo_config = [(''SOON'', ''sSOON'')]"
  "cf_PendingTime demo_config = 300"
  by (simp_all add: demo_config_def Load_def conf_file_def conf_SOON_def conf_sSOON_def demo_keys_def
      checkKeyStore_def demo_decrypt load_pairs_def)

theorem Load_keys_open_witness:
  "\<exists>key. GetPrivateKey demo_crypto demo_keys demo_config ''sSOON'' = Ok (Inr (replicate 20 8, key))"
proof -
  have "map_of (cf_Tokens demo_config) ''sSOON'' =
      Some (conf_sSOON\<lparr>ct_KeyStore := ''json'', ct_Account := replicate 20 8\<rparr>)"
    by (simp add: demo_config_tokens)
  with Load_keys_open [OF demo_Load] show ?thesis by fastforce
qed

end
