(* ===== verification/Server_State.thy ===== *)
theory Server_State
  imports Server_Queues Evm_Detect Tx_Error Smr Smpc Config
begin

text \<open>
  Package server: the tokens behind the interfaces of tokens/token.go, the variables of
  server/var.go as one record, the outside world of a handler, and \<open>ListenTokens\<close>, which sets the
  server up.

  \<open>source_token\<close> are the implementations of \<open>SourceToken\<close>; the only \<open>DestinationToken\<close> and the only
  \<open>tokens.EvmToken\<close> is \<open>evm_token\<close>. A nil interface is \<open>None\<close>. A method of an interface is the
  function with the suffix \<open>_src\<close>, which dispatches to the packages.

  \<open>server_env\<close> is what one handler sees of the outside while it runs: the libraries, the nodes of
  the chains, the node of the signing group with its answers to each poll, the failures of the
  database and the clock. \<open>sv_trace\<close> is a ghost variable, the calls that move funds or sign, in
  their order. Sleeping and log messages are left out.
\<close>

section \<open>Tokens\<close>

datatype source_token = IotaTok iota_token | SmrTok smr_token | EvmTok evm_token

text \<open>\<open>MsgContext\<close> and the JSON functions for it.\<close>

record msg_context =
  mc_SrcToken :: string
  mc_DestToken :: string
  mc_Method :: string
  mc_TxData :: bytes
  mc_Timestamp :: i64

record server_env =
  en_L :: eth_lib
  en_I :: iota_lib
  en_C :: crypto_lib
  en_K :: key_lib
  en_S :: smpc_lib
  en_conf :: config
  en_eth :: "evm_token \<Rightarrow> eth_env"
  en_iota :: "iota_token \<Rightarrow> iota_node"
  en_smr :: "smr_token \<Rightarrow> smr_node"
  en_smpc :: smpc_conn
  en_polls :: "nat \<Rightarrow> smpc_conn"
  en_store :: "go_error option"
  en_accounts :: "go_error option"
  en_now_ms :: int
  en_ctx_Marshal :: "msg_context \<Rightarrow> string"
  en_ctx_Unmarshal :: "string \<Rightarrow> msg_context rpc"

definition en_now :: "server_env \<Rightarrow> int" where "en_now E = en_now_ms E div 1000"

definition env_key :: "server_env \<Rightarrow> string \<Rightarrow> (bytes \<times> bytes) rpc outcome" where
  "env_key E symbol = GetPrivateKey (en_C E) (en_K E) (en_conf E) symbol"

fun MultiSignType_src :: "source_token \<Rightarrow> int" where
  "MultiSignType_src (IotaTok t) = MultiSignType_iota t"
| "MultiSignType_src (SmrTok t) = MultiSignType_smr t"
| "MultiSignType_src (EvmTok t) = MultiSignType_evm t"

fun ChainID_src :: "source_token \<Rightarrow> string" where
  "ChainID_src (IotaTok t) = ChainID_iota t"
| "ChainID_src (SmrTok t) = ChainID_smr t"
| "ChainID_src (EvmTok t) = ChainID_evm t"

fun Symbol_src :: "source_token \<Rightarrow> string" where
  "Symbol_src (IotaTok t) = Symbol_iota t"
| "Symbol_src (SmrTok t) = Symbol_smr t"
| "Symbol_src (EvmTok t) = Symbol_evm t"

fun PublicKey_src :: "source_token \<Rightarrow> bytes" where
  "PublicKey_src (IotaTok t) = PublicKey_iota t"
| "PublicKey_src (SmrTok t) = PublicKey_smr t"
| "PublicKey_src (EvmTok t) = PublicKey_evm t"

fun KeyType_src :: "source_token \<Rightarrow> string" where
  "KeyType_src (IotaTok t) = KeyType_iota t"
| "KeyType_src (SmrTok t) = KeyType_smr t"
| "KeyType_src (EvmTok t) = KeyType_evm t"

fun Address_src :: "eth_lib \<Rightarrow> source_token \<Rightarrow> string" where
  "Address_src L (IotaTok t) = Address_iota t"
| "Address_src L (SmrTok t) = Address_smr t"
| "Address_src L (EvmTok t) = Address_evm L t"

fun CheckSentTx_src :: "server_env \<Rightarrow> source_token \<Rightarrow> bytes \<Rightarrow> bool \<times> go_error option" where
  "CheckSentTx_src E (IotaTok t) txid = CheckSentTx_iota (en_iota E t) txid"
| "CheckSentTx_src E (SmrTok t) txid = CheckSentTx_smr txid"
| "CheckSentTx_src E (EvmTok t) txid = CheckSentTx_evm (en_L E) (en_eth E t) txid"

fun CheckUserTx_src :: "server_env \<Rightarrow> source_token \<Rightarrow> bytes \<Rightarrow> string \<Rightarrow> int
    \<Rightarrow> (string \<times> string \<times> int option) outcome" where
  "CheckUserTx_src E (IotaTok t) txid toCoin d = CheckUserTx_iota (en_I E) (en_iota E t) t txid toCoin d"
| "CheckUserTx_src E (SmrTok t) txid toCoin d = CheckUserTx_smr txid toCoin d"
| "CheckUserTx_src E (EvmTok t) txid toCoin d = CheckUserTx_evm (en_L E) (en_eth E t) t txid toCoin d"

text \<open>\<open>SendUnWrap\<close> with the EVM transactions it broadcasts. A Shimmer transfer of a nil amount ends
  in a nil dereference; the orders to a Shimmer token all have an amount.\<close>

fun SendUnWrap_src :: "server_env \<Rightarrow> source_token \<Rightarrow> string \<Rightarrow> int option \<Rightarrow> string \<Rightarrow> bytes
    \<Rightarrow> bytes outcome \<times> signed_tx list" where
  "SendUnWrap_src E (IotaTok t) txid amount to prv = (SendUnWrap_iota txid amount to prv, [])"
| "SendUnWrap_src E (SmrTok t) txid amount to prv = (case amount of
      None \<Rightarrow> (Panic ''nil pointer dereference'', [])
    | Some am \<Rightarrow> (SendUnWrap_smr (en_I E) (en_smr E t) t txid am to prv, []))"
| "SendUnWrap_src E (EvmTok t) txid amount to prv =
     SendUnWrap_evm (en_L E) (en_eth E t) t txid amount to prv"

text \<open>\<open>None\<close>: the call does not return.\<close>

fun CreateUnWrapTxData_src :: "server_env \<Rightarrow> source_token \<Rightarrow> string \<Rightarrow> int option \<Rightarrow> bytes
    \<Rightarrow> (bytes \<times> bytes) outcome option" where
  "CreateUnWrapTxData_src E (IotaTok t) to amount tag = (case amount of
      None \<Rightarrow> Some (CreateUnWrapTxData_nil (en_L E) (en_I E) (en_iota E t) t to tag)
    | Some am \<Rightarrow> CreateUnWrapTxData_iota (en_L E) (en_I E) (en_iota E t) t to am tag)"
| "CreateUnWrapTxData_src E (SmrTok t) to amount tag = Some (Err (Errorf ''don't support this method''))"
| "CreateUnWrapTxData_src E (EvmTok t) to amount tag = Some (CreateUnWrapTxData_evm to amount tag)"

text \<open>A nil id is \<open>None\<close>.\<close>

fun SendSignedTxData_src :: "server_env \<Rightarrow> source_token \<Rightarrow> string \<Rightarrow> bytes \<Rightarrow> bytes option outcome" where
  "SendSignedTxData_src E (IotaTok t) signedHash txData =
     obind (SendSignedTxData_iota (en_L E) (en_I E) (en_iota E t) t signedHash txData) (\<lambda>h. Ok (Some h))"
| "SendSignedTxData_src E (SmrTok t) signedHash txData =
     obind (SendSignedTxData_smr signedHash txData) (\<lambda>h. Ok None)"
| "SendSignedTxData_src E (EvmTok t) signedHash txData =
     obind (fst (SendSignedTxData_evm (en_L E) (en_eth E t) t signedHash txData)) (\<lambda>h. Ok (Some h))"

fun ValiditeUnWrapTxData_src :: "server_env \<Rightarrow> source_token \<Rightarrow> bytes \<Rightarrow> bytes \<Rightarrow> base_tx outcome" where
  "ValiditeUnWrapTxData_src E (IotaTok t) hash txData = ValiditeUnWrapTxData_iota (en_I E) t hash txData"
| "ValiditeUnWrapTxData_src E (SmrTok t) hash txData = ValiditeUnWrapTxData_smr hash txData"
| "ValiditeUnWrapTxData_src E (EvmTok t) hash txData = ValiditeUnWrapTxData_evm hash txData"

section \<open>The server's variables\<close>

datatype effect =
    WrapSent string "int option" string           \<comment> \<open>\<open>SendWrap\<close>: transaction id, amount, target\<close>
  | UnWrapSent string "int option" string         \<comment> \<open>\<open>SendUnWrap\<close>\<close>
  | SignAsked string call_log                      \<comment> \<open>\<open>smpc.Sign\<close> for a transaction id, and its calls\<close>
  | SignAccepted string call_log                   \<comment> \<open>\<open>smpc.AcceptSign\<close> for a key\<close>

record server =
  sv_src :: "string \<Rightarrow> source_token option"
  sv_dest :: "string \<Rightarrow> evm_token option"
  sv_dealed :: dealed_orders
  sv_iota :: "source_token sent_iota"
  sv_evm :: "string \<Rightarrow> evm_token evm_queue option"
  sv_users :: sent_evm_map
  sv_accepted :: "string \<Rightarrow> bool"
  sv_db :: database
  sv_trace :: "effect list"

definition server_init :: "database \<Rightarrow> server" where
  "server_init db = \<lparr>sv_src = Map.empty, sv_dest = Map.empty, sv_dealed = NewDealedOrdersCheck,
     sv_iota = empty_sent_iota, sv_evm = Map.empty, sv_users = NewSentEvmMap, sv_accepted = (\<lambda>k. False),
     sv_db = db, sv_trace = []\<rparr>"

definition queue_key :: "eth_lib \<Rightarrow> evm_token \<Rightarrow> string" where
  "queue_key L t = Address_evm L t @ ChainID_evm t"

text \<open>\<open>sentEvmTxes[key].Push\<close>: an unknown key is a nil queue.\<close>

definition push_sent :: "string \<Rightarrow> bytes \<Rightarrow> evm_token \<Rightarrow> int \<Rightarrow> server \<Rightarrow> server outcome" where
  "push_sent key h t now st = (case sv_evm st key of
      None \<Rightarrow> Panic ''nil pointer dereference''
    | Some q \<Rightarrow> Ok (st\<lparr>sv_evm := (sv_evm st)(key \<mapsto> evm_Push h t now q)\<rparr>))"

section \<open>ListenTokens\<close>

definition NewSourceChain :: "server_env \<Rightarrow> eth_env \<Rightarrow> config_token \<Rightarrow> source_token outcome" where
  "NewSourceChain E N conf =
     (if ct_Symbol conf = ''IOTA'' then obind (NewIotaSmrToken (en_L E) (en_I E) (ct_NodeRpc conf)
         (ct_PublicKey conf) (ct_Symbol conf) (ct_Contract conf) ''iota'') (\<lambda>t. Ok (IotaTok t))
      else if ct_Symbol conf = ''ATOI'' then obind (NewIotaSmrToken (en_L E) (en_I E) (ct_NodeRpc conf)
         (ct_PublicKey conf) (ct_Symbol conf) (ct_Contract conf) ''atoi'') (\<lambda>t. Ok (IotaTok t))
      else if ct_Symbol conf = ''SOON'' then obind (NewShimmerToken (en_L E) (en_I E) (ct_NodeRpc conf)
         (ct_PublicKey conf) (ct_Symbol conf) (ct_Contract conf) ''smr'') (\<lambda>t. Ok (SmrTok t))
      else (case NewEvmToken (en_L E) N (ct_NodeRpc conf) (ct_NodeWss conf) (ct_Contract conf)
          (ct_Symbol conf) (ct_Account conf) (ct_ScanEventType conf) (ct_ScanMaxHeight conf)
          (ct_GasPriceUpper conf) of
        Inl e \<Rightarrow> Panic (error_text e) | Inr token \<Rightarrow> Ok (EvmTok token)))"

definition NewDestinationChain :: "server_env \<Rightarrow> eth_env \<Rightarrow> config_token \<Rightarrow> evm_token outcome" where
  "NewDestinationChain E N conf = (case NewEvmToken (en_L E) N (ct_NodeRpc conf) (ct_NodeWss conf)
      (ct_Contract conf) (ct_Symbol conf) (ct_Account conf) (ct_ScanEventType conf)
      (ct_ScanMaxHeight conf) (ct_GasPriceUpper conf) of
     Inl e \<Rightarrow> Panic (error_text e) | Inr chain \<Rightarrow> Ok chain)"

definition new_queue :: "string \<Rightarrow> server \<Rightarrow> server" where
  "new_queue key st = (case sv_evm st key of
      Some q \<Rightarrow> st
    | None \<Rightarrow> st\<lparr>sv_evm := (sv_evm st)(key \<mapsto> NewSentEvmTxQueue)\<rparr>)"

text \<open>One pair; \<open>dial\<close> is the node a new EVM token connects to. A symbol without a token in the
  configuration is a nil pointer. The pair of tokens is what the two listeners run with.\<close>

definition listen_pair :: "server_env \<Rightarrow> (config_token \<Rightarrow> eth_env) \<Rightarrow> string \<times> string \<Rightarrow> server
    \<Rightarrow> (server \<times> source_token \<times> evm_token) outcome" where
  "listen_pair E dial pair st = (case pair of (src, dest) \<Rightarrow>
     (case (map_of (cf_Tokens (en_conf E)) src, map_of (cf_Tokens (en_conf E)) dest) of
        (Some c1, Some c2) \<Rightarrow>
          obind (NewSourceChain E (dial c1) c1) (\<lambda>t1.
          obind (NewDestinationChain E (dial c2) c2) (\<lambda>t2.
          let st = st\<lparr>sv_src := (sv_src st)(src \<mapsto> t1), sv_dest := (sv_dest st)(dest \<mapsto> t2)\<rparr>;
              st = (if MultiSignType_src t1 = EvmMultiSign
                    then new_queue (Address_src (en_L E) t1 @ ChainID_src t1) st else st);
              st = (if MultiSignType_evm t2 = EvmMultiSign then new_queue (queue_key (en_L E) t2) st else st)
          in Ok (st, t1, t2)))
      | (Some c1, None) \<Rightarrow> obind (NewSourceChain E (dial c1) c1) (\<lambda>t1. Panic ''nil pointer dereference'')
      | (None, c2) \<Rightarrow> Panic ''nil pointer dereference''))"

fun listen_pairs :: "server_env \<Rightarrow> (config_token \<Rightarrow> eth_env) \<Rightarrow> (string \<times> string) list \<Rightarrow> server
    \<Rightarrow> (server \<times> (source_token \<times> evm_token) list) outcome" where
  "listen_pairs E dial [] st = Ok (st, [])"
| "listen_pairs E dial (p # ps) st = obind (listen_pair E dial p st) (\<lambda>(st, t1, t2).
     obind (listen_pairs E dial ps st) (\<lambda>(st, ts). Ok (st, (t1, t2) # ts)))"

definition ListenTokens :: "server_env \<Rightarrow> (config_token \<Rightarrow> eth_env) \<Rightarrow> server
    \<Rightarrow> (server \<times> (source_token \<times> evm_token) list) outcome" where
  "ListenTokens E dial st =
     listen_pairs E dial (cf_WrapPairs (en_conf E)) (st\<lparr>sv_evm := Map.empty\<rparr>)"

end
