(* ===== verification/Server_Deal.thy ===== *)
theory Server_Deal
  imports Server_State
begin

text \<open>
  Package server, detect.go: what the server does with an order. \<open>dealWrapOrder\<close> pays out on the
  destination chain, \<open>dealUnWrapOrder\<close> on the source chain, either with the server's own key or by a
  request to the signing group followed by polling (\<open>detectSignStatus\<close>); \<open>listenWrap\<close> and
  \<open>listenUnWrap\<close> filter what a listener delivers. A handler is one step on the state; an outcome
  that is a panic ends the process. \<open>dealUnWrapOrder\<close> may not return (\<open>None\<close>), when the selection of
  inputs starts over forever.
\<close>

section \<open>Orders\<close>

definition amount_text :: "int option \<Rightarrow> string" where
  "amount_text a = (case a of None \<Rightarrow> ''<nil>'' | Some i \<Rightarrow> int_text i)"

definition traced :: "effect \<Rightarrow> server \<Rightarrow> server" where
  "traced x st = st\<lparr>sv_trace := sv_trace st @ [x]\<rparr>"

definition order_row :: "swap_order \<Rightarrow> int \<Rightarrow> int \<Rightarrow> db_order" where
  "order_row order wrap now_ms =
     \<lparr>wo_TxID = so_TxID order,
      wo_SrcToken = (if wrap = 1 then so_FromToken order else so_ToToken order),
      wo_DestToken = (if wrap = 1 then so_ToToken order else so_FromToken order), wo_Wrap = wrap,
      wo_From = so_From order, wo_To = so_To order, wo_Amount = amount_text (so_Amount order),
      wo_Hash = [], wo_State = 0, wo_Ts = now_ms, wo_Org = so_Org order\<rparr>"

text \<open>After a transaction on an EVM chain: it is queued to be rechecked, and the user's transaction
  is remembered as served.\<close>

definition evm_sent :: "server_env \<Rightarrow> evm_token \<Rightarrow> swap_order \<Rightarrow> bytes \<Rightarrow> server \<Rightarrow> server outcome" where
  "evm_sent E t order h st =
     obind (push_sent (queue_key (en_L E) t) (BytesToHash (en_L E) h) t (en_now E) st) (\<lambda>st.
     Ok (st\<lparr>sv_users := map_Push (FromHex (en_L E) (so_TxID order)) (en_now E) (sv_users st)\<rparr>))"

text \<open>The part of \<open>dealWrapOrder\<close> after the order is stored.\<close>

definition wrap_by_key :: "server_env \<Rightarrow> evm_token \<Rightarrow> swap_order \<Rightarrow> server \<Rightarrow> server outcome" where
  "wrap_by_key E t2 order st = obind (env_key E (Symbol_evm t2)) (\<lambda>key. case key of
      Inl e \<Rightarrow> Ok st
    | Inr (_, prv) \<Rightarrow>
        let (res, sent) = SendWrap_evm (en_L E) (en_eth E t2) t2 (so_TxID order) (so_Amount order)
              (so_To order) prv;
            st = traced (WrapSent (so_TxID order) (so_Amount order) (so_To order)) st
        in (case res of
          Panic p \<Rightarrow> Panic p
        | Err e \<Rightarrow> Ok st
        | Ok h \<Rightarrow> if MultiSignType_evm t2 = EvmMultiSign then evm_sent E t2 order h st else Ok st))"

definition dealWrapOrder :: "server_env \<Rightarrow> evm_token option \<Rightarrow> swap_order \<Rightarrow> server \<Rightarrow> server outcome" where
  "dealWrapOrder E dest order st = (case dest of
      None \<Rightarrow> Panic ''nil pointer dereference''
    | Some t2 \<Rightarrow>
      if so_ToToken order \<noteq> Symbol_evm t2 then Ok st
      else let (dealed, fresh) = Check (so_TxID order) (sv_dealed st);
               st = st\<lparr>sv_dealed := dealed\<rparr>
        in if \<not> fresh then Ok st
        else let (db, wo, err) = StoreSwapOrder (en_store E) (order_row order 1 (en_now_ms E)) (sv_db st);
                 st = st\<lparr>sv_db := db\<rparr>
          in wrap_by_key E t2 order st)"

text \<open>The polls of \<open>detectSignStatus\<close>: \<open>i\<close> of them are done, \<open>n\<close> are left.\<close>

fun detect_polls :: "server_env \<Rightarrow> string \<Rightarrow> bytes \<Rightarrow> source_token \<Rightarrow> nat \<Rightarrow> nat \<Rightarrow> bytes option outcome" where
  "detect_polls E keyID txData t i 0 = Ok None"
| "detect_polls E keyID txData t i (Suc n) =
     obind (GetSignStatus (en_S E) (en_polls E i) keyID) (\<lambda>r.
     case (case r of Inl e \<Rightarrow> [] | Inr rsvs \<Rightarrow> rsvs) of
       [] \<Rightarrow> detect_polls E keyID txData t (i + 1) n
     | rsv # _ \<Rightarrow> (case SendSignedTxData_src E t rsv txData of
         Err e \<Rightarrow> Ok None | Ok txID \<Rightarrow> Ok txID | Panic p \<Rightarrow> Panic p))"

definition detectSignStatus :: "server_env \<Rightarrow> string \<Rightarrow> bytes \<Rightarrow> source_token \<Rightarrow> bytes option outcome" where
  "detectSignStatus E keyID txData t =
     detect_polls E keyID txData t 0 (nat (vc_DetectCount (cf_Server (en_conf E))))"

definition UnwrapMethod :: string where "UnwrapMethod = ''unwrap''"

text \<open>The part of \<open>dealUnWrapOrder\<close> for the tokens of the signing group, from \<open>tag\<close> on.\<close>

definition unwrap_by_group :: "server_env \<Rightarrow> source_token \<Rightarrow> swap_order \<Rightarrow> db_order \<Rightarrow> server
    \<Rightarrow> server outcome option" where
  "unwrap_by_group E t1 order wo st =
     (let tag = FromHex (en_L E) (wo_TxID wo) in
      case CreateUnWrapTxData_src E t1 (so_To order) (so_Amount order) tag of
        None \<Rightarrow> None
      | Some (Panic p) \<Rightarrow> Some (Panic p)
      | Some (Err e) \<Rightarrow> Some (Ok st)
      | Some (Ok (hash, txData)) \<Rightarrow>
          let msContext = en_ctx_Marshal E \<lparr>mc_SrcToken = wo_SrcToken wo, mc_DestToken = wo_DestToken wo,
                mc_Method = UnwrapMethod, mc_TxData = txData, mc_Timestamp = word_of_int (en_now E)\<rparr>
          in Some (obind (env_key E ''smpc'') (\<lambda>key. case key of
               Inl e \<Rightarrow> Ok st
             | Inr (_, prv) \<Rightarrow>
                 let smpc = cf_Smpc (en_conf E);
                     (res, calls) = Sign (en_L E) (en_S E) (en_smpc E) (en_now_ms E)
                       (Bytes2Hex (en_L E) (PublicKey_src t1)) (sc_Gid smpc) msContext
                       (hexutil_Encode (en_L E) hash) (sc_ThresHold smpc) (KeyType_src t1) prv;
                     st = traced (SignAsked (so_TxID order) calls) st
                 in (case res of
                      Panic p \<Rightarrow> Panic p
                    | Err e \<Rightarrow> Ok st
                    | Ok keyID \<Rightarrow> obind (detectSignStatus E keyID txData t1) (\<lambda>txid. Ok (case txid of
                        None \<Rightarrow> st
                      | Some h \<Rightarrow> st\<lparr>sv_iota := iota_push (wo\<lparr>wo_Hash := hex_encode h\<rparr>) t1 (sv_iota st)\<rparr>))))))"

text \<open>The part for the tokens the server's own key sends for.\<close>

definition unwrap_by_key :: "server_env \<Rightarrow> source_token \<Rightarrow> swap_order \<Rightarrow> server \<Rightarrow> server outcome" where
  "unwrap_by_key E t1 order st = obind (env_key E (Symbol_src t1)) (\<lambda>key. case key of
      Inl e \<Rightarrow> Ok st
    | Inr (_, prv) \<Rightarrow>
        let (res, sent) = SendUnWrap_src E t1 (so_TxID order) (so_Amount order) (so_To order) prv;
            st = traced (UnWrapSent (so_TxID order) (so_Amount order) (so_To order)) st
        in (case res of
             Panic p \<Rightarrow> Panic p
           | Err e \<Rightarrow> Ok st
           | Ok h \<Rightarrow>
               if MultiSignType_src t1 = EvmMultiSign
               then (case t1 of EvmTok t \<Rightarrow> evm_sent E t order h st | _ \<Rightarrow> Ok st)
               else Ok st))"

definition dealUnWrapOrder :: "server_env \<Rightarrow> source_token option \<Rightarrow> swap_order \<Rightarrow> server
    \<Rightarrow> server outcome option" where
  "dealUnWrapOrder E src order st = (case src of
      None \<Rightarrow> Some (Panic ''nil pointer dereference'')
    | Some t1 \<Rightarrow>
      if so_ToToken order \<noteq> Symbol_src t1 then Some (Ok st)
      else if MultiSignType_src t1 = SmpcSign \<and>
        \<not> fst (CheckAccountsState (en_accounts E) (sc_Accounts (cf_Smpc (en_conf E))) (en_now E) (sv_db st))
      then Some (Ok st)
      else let (dealed, fresh) = Check (so_TxID order) (sv_dealed st);
               st = st\<lparr>sv_dealed := dealed\<rparr>
        in if \<not> fresh then Some (Ok st)
        else let (db, wo, err) = StoreSwapOrder (en_store E) (order_row order (- 1) (en_now_ms E)) (sv_db st);
                 st = st\<lparr>sv_db := db\<rparr>
          in if err \<noteq> None \<and> MultiSignType_src t1 \<noteq> EvmMultiSign then Some (Ok st)
             else if MultiSignType_src t1 \<noteq> SmpcSign then Some (unwrap_by_key E t1 order st)
             else unwrap_by_group E t1 order wo st)"

section \<open>Listeners\<close>

text \<open>The loop over one channel: whether an error ended it. An amount below the token's minimum is
  passed over; the token is looked up in the configuration by the symbol it reports.\<close>

definition below_min :: "config \<Rightarrow> string \<Rightarrow> swap_order \<Rightarrow> bool outcome" where
  "below_min conf symbol order = (case so_Amount order of
      None \<Rightarrow> Panic ''nil pointer dereference''
    | Some amount \<Rightarrow> (case map_of (cf_Tokens conf) symbol of
        None \<Rightarrow> Panic ''nil pointer dereference''
      | Some t \<Rightarrow> (case ct_MinAmount t of
          None \<Rightarrow> Panic ''nil pointer dereference''
        | Some m \<Rightarrow> Ok (amount < m))))"

fun listenWrap :: "(nat \<Rightarrow> server_env) \<Rightarrow> source_token \<Rightarrow> evm_token \<Rightarrow> nat \<Rightarrow> swap_order list \<Rightarrow> server
    \<Rightarrow> server outcome" where
  "listenWrap W t1 t2 i [] st = Ok st"
| "listenWrap W t1 t2 i (order # orders) st =
     (if so_Error order \<noteq> None
      then if so_Type order = 0 then Ok st else listenWrap W t1 t2 (i + 1) orders st
      else obind (below_min (en_conf (W i)) (Symbol_src t1) order) (\<lambda>small.
        if small then listenWrap W t1 t2 (i + 1) orders st
        else obind (dealWrapOrder (W i) (Some t2) order st) (listenWrap W t1 t2 (i + 1) orders)))"

fun listenUnWrap :: "(nat \<Rightarrow> server_env) \<Rightarrow> source_token \<Rightarrow> evm_token \<Rightarrow> nat \<Rightarrow> swap_order list \<Rightarrow> server
    \<Rightarrow> server outcome option" where
  "listenUnWrap W t1 t2 i [] st = Some (Ok st)"
| "listenUnWrap W t1 t2 i (order # orders) st =
     (if so_Error order \<noteq> None
      then if so_Type order = 0 then Some (Ok st) else listenUnWrap W t1 t2 (i + 1) orders st
      else case below_min (en_conf (W i)) (Symbol_evm t2) order of
        Err e \<Rightarrow> Some (Err e)
      | Panic p \<Rightarrow> Some (Panic p)
      | Ok small \<Rightarrow>
          if small then listenUnWrap W t1 t2 (i + 1) orders st
          else (case dealUnWrapOrder (W i) (Some t1) order st of
              None \<Rightarrow> None
            | Some (Ok st') \<Rightarrow> listenUnWrap W t1 t2 (i + 1) orders st'
            | Some r \<Rightarrow> Some r))"

text \<open>The outer loops: the connections that a listener makes one after the other, with the orders that each
  of them delivers. Every 24 hours \<open>DealedOrdersCheck.expired\<close> clears the handled orders, in the
  middle of a connection or between two. A connection that is not lost is the last one.\<close>

datatype arrival = Delivered swap_order | NextDay

definition next_day :: "server \<Rightarrow> server" where
  "next_day st = st\<lparr>sv_dealed := dealed_expired (sv_dealed st)\<rparr>"

text \<open>One connection; the result tells whether it was lost.\<close>

fun listenWrap_days :: "(nat \<Rightarrow> server_env) \<Rightarrow> source_token \<Rightarrow> evm_token \<Rightarrow> nat \<Rightarrow> arrival list \<Rightarrow> server
    \<Rightarrow> (server \<times> bool) outcome" where
  "listenWrap_days W t1 t2 i [] st = Ok (st, False)"
| "listenWrap_days W t1 t2 i (NextDay # as) st = listenWrap_days W t1 t2 (i + 1) as (next_day st)"
| "listenWrap_days W t1 t2 i (Delivered order # as) st = obind (listenWrap W t1 t2 i [order] st) (\<lambda>st.
     if goes_on order then listenWrap_days W t1 t2 (i + 1) as st else Ok (st, True))"

fun listenWrap_loop :: "(nat \<Rightarrow> server_env) \<Rightarrow> source_token \<Rightarrow> evm_token \<Rightarrow> nat \<Rightarrow> arrival list list \<Rightarrow> server
    \<Rightarrow> server outcome" where
  "listenWrap_loop W t1 t2 i [] st = Ok st"
| "listenWrap_loop W t1 t2 i (c # cs) st = obind (listenWrap_days W t1 t2 i c st) (\<lambda>(st, lost).
     if lost then listenWrap_loop W t1 t2 (i + length c) cs st else Ok st)"

fun listenUnWrap_days :: "(nat \<Rightarrow> server_env) \<Rightarrow> source_token \<Rightarrow> evm_token \<Rightarrow> nat \<Rightarrow> arrival list \<Rightarrow> server
    \<Rightarrow> (server \<times> bool) outcome option" where
  "listenUnWrap_days W t1 t2 i [] st = Some (Ok (st, False))"
| "listenUnWrap_days W t1 t2 i (NextDay # as) st = listenUnWrap_days W t1 t2 (i + 1) as (next_day st)"
| "listenUnWrap_days W t1 t2 i (Delivered order # as) st = (case listenUnWrap W t1 t2 i [order] st of
      None \<Rightarrow> None
    | Some (Err e) \<Rightarrow> Some (Err e)
    | Some (Panic p) \<Rightarrow> Some (Panic p)
    | Some (Ok st) \<Rightarrow>
        if goes_on order then listenUnWrap_days W t1 t2 (i + 1) as st else Some (Ok (st, True)))"

fun listenUnWrap_loop :: "(nat \<Rightarrow> server_env) \<Rightarrow> source_token \<Rightarrow> evm_token \<Rightarrow> nat \<Rightarrow> arrival list list \<Rightarrow> server
    \<Rightarrow> server outcome option" where
  "listenUnWrap_loop W t1 t2 i [] st = Some (Ok st)"
| "listenUnWrap_loop W t1 t2 i (c # cs) st = (case listenUnWrap_days W t1 t2 i c st of
      None \<Rightarrow> None
    | Some (Err e) \<Rightarrow> Some (Err e)
    | Some (Panic p) \<Rightarrow> Some (Panic p)
    | Some (Ok (st, lost)) \<Rightarrow> if lost then listenUnWrap_loop W t1 t2 (i + length c) cs st else Some (Ok st))"

end
