(* ===== verification/Server_Accept.thy ===== *)
theory Server_Accept
  imports Server_Deal
begin

text \<open>
  Package server, accept.go, recheck.go and txerrdeal.go: the periodic tasks. \<open>accept_info\<close> is the
  body of the loop of \<open>Accept\<close> over the sign requests of other validators, \<open>accept_turn\<close> one tick;
  \<open>recheck_iota_turn\<close> one tick of \<open>RecheckIota\<close>; \<open>recheck_loop\<close> the inner loop of
  \<open>recheckEvmTx\<close> over one queue, which ends because every round that goes on removes an entry;
  \<open>dealTxErrorRecord\<close> handles a record of the error contract.
\<close>

section \<open>Accept\<close>

text \<open>What a body of the loop says about the loop: go on, or leave \<open>Accept\<close> for good.\<close>

datatype accept_next = GoOn | Quit

text \<open>The age of a request is a difference of 64 bit integers, which wraps.\<close>

definition request_age :: "server_env \<Rightarrow> msg_context \<Rightarrow> int" where
  "request_age E msgContext = sint (word_of_int (en_now E) - mc_Timestamp msgContext)"

definition accept_checks :: "server_env \<Rightarrow> sign_info \<Rightarrow> server \<Rightarrow> unit outcome" where
  "accept_checks E d st = (case (sg_MsgContext d, sg_MsgHash d) of
      ([context], [msgHash]) \<Rightarrow> (case en_ctx_Unmarshal E context of
          Inl e \<Rightarrow> Err e
        | Inr msgContext \<Rightarrow>
            if request_age E msgContext > vc_AcceptOverTime (cf_Server (en_conf E))
            then Err (Errorf ''over time'')
            else (case (sv_src st (mc_SrcToken msgContext), sv_dest st (mc_DestToken msgContext)) of
                (Some t1, Some t2) \<Rightarrow>
                  if mc_Method msgContext \<noteq> UnwrapMethod then Err (Errorf ''method'')
                  else obind (ValiditeUnWrapTxData_src E t1 (FromHex (en_L E) msgHash) (mc_TxData msgContext))
                    (\<lambda>baseTx. case bt_Amount baseTx of
                      None \<Rightarrow> Panic ''nil pointer dereference''
                    | Some amount \<Rightarrow> CheckUnWrapTx_evm (en_L E) (en_eth E t2) (bt_Txid baseTx)
                        (bt_To baseTx) (Symbol_src t1) amount)
              | _ \<Rightarrow> Err (Errorf ''token don't support. '')))
    | _ \<Rightarrow> Err (Errorf ''msgContext don't support multiple. ''))"

definition claim_key :: "string \<Rightarrow> (string \<Rightarrow> bool) \<Rightarrow> (string \<Rightarrow> bool) \<times> bool" where
  "claim_key k accepted = (if accepted k then (accepted, False) else (accepted(k := True), True))"

definition accept_info :: "server_env \<Rightarrow> sign_info \<Rightarrow> server \<Rightarrow> (server \<times> accept_next) outcome" where
  "accept_info E d st = (case accept_checks E d st of
      Panic p \<Rightarrow> Panic p
    | Err e \<Rightarrow> Ok (st, GoOn)
    | Ok _ \<Rightarrow>
        let (accepted, fresh) = claim_key (sg_Key d) (sv_accepted st) in
        if \<not> fresh then Ok (st, GoOn)
        else let st = st\<lparr>sv_accepted := accepted\<rparr> in
          obind (env_key E ''smpc'') (\<lambda>key. case key of
            Inl e \<Rightarrow> Ok (st, Quit)
          | Inr (_, prv) \<Rightarrow>
              let (res, calls) = AcceptSign (en_L E) (en_S E) (en_smpc E) (en_now_ms E) d True prv;
                  st = traced (SignAccepted (sg_Key d) calls) st
              in obind res (\<lambda>err. Ok (st, GoOn))))"

fun accept_infos :: "server_env \<Rightarrow> sign_info list \<Rightarrow> server \<Rightarrow> (server \<times> accept_next) outcome" where
  "accept_infos E [] st = Ok (st, GoOn)"
| "accept_infos E (d # ds) st = obind (accept_info E d st) (\<lambda>(st, nxt). case nxt of
      Quit \<Rightarrow> Ok (st, Quit) | GoOn \<Rightarrow> accept_infos E ds st)"

definition accept_turn :: "server_env \<Rightarrow> go_error option \<Rightarrow> server \<Rightarrow> (server \<times> accept_next) outcome" where
  "accept_turn E fault st =
     (let (db, err) = UpdateAccountState fault (sc_Account (cf_Smpc (en_conf E))) (en_now E) (sv_db st);
          st = st\<lparr>sv_db := db\<rparr>
      in obind (GetCurNodeSignInfo (en_S E) (en_smpc E)) (\<lambda>r. case r of
           Inl e \<Rightarrow> Ok (st, GoOn)
         | Inr infoDatas \<Rightarrow> accept_infos E infoDatas st))"

text \<open>\<open>Accept\<close> over its ticks. It starts with no accepted keys; after a return no tick does anything.\<close>

fun accept_ticks :: "(server_env \<times> go_error option) list \<Rightarrow> server \<Rightarrow> server outcome" where
  "accept_ticks [] st = Ok st"
| "accept_ticks ((E, fault) # ticks) st = obind (accept_turn E fault st) (\<lambda>(st, nxt). case nxt of
      Quit \<Rightarrow> Ok st | GoOn \<Rightarrow> accept_ticks ticks st)"

definition Accept :: "(server_env \<times> go_error option) list \<Rightarrow> server \<Rightarrow> server outcome" where
  "Accept ticks st = accept_ticks ticks (st\<lparr>sv_accepted := \<lambda>k. False\<rparr>)"

section \<open>RecheckIota\<close>

text \<open>The faults are those of the database in this turn.\<close>

definition recheck_iota_turn :: "server_env \<Rightarrow> go_error option \<Rightarrow> tx_faults \<Rightarrow> server \<Rightarrow> server outcome" where
  "recheck_iota_turn E fault f st = obind (iota_pop (sv_iota st)) (\<lambda>(q, front).
     let st = st\<lparr>sv_iota := q\<rparr> in
     case front of
       None \<Rightarrow> Ok st
     | Some (order, t) \<Rightarrow>
         let hash = hex_decoded (wo_Hash order);
             (b, err) = CheckSentTx_src E t hash
         in if b
            then (case err of
                Some e \<Rightarrow> Ok (st\<lparr>sv_iota := iota_push order t (sv_iota st)\<rparr>)
              | None \<Rightarrow> Ok (st\<lparr>sv_db := fst (UpdateChainRecord fault (order\<lparr>wo_State := 1\<rparr>) (sv_db st))\<rparr>))
            else Ok (st\<lparr>sv_db := fst (MoveOrderToError f (order\<lparr>wo_State := 2\<rparr>) (sv_db st))\<rparr>))"

text \<open>\<open>RecheckIota\<close> over its ticks.\<close>

fun RecheckIota :: "(server_env \<times> go_error option \<times> tx_faults) list \<Rightarrow> server \<Rightarrow> server outcome" where
  "RecheckIota [] st = Ok st"
| "RecheckIota ((E, fault, f) # ticks) st = obind (recheck_iota_turn E fault f st) (RecheckIota ticks)"

section \<open>recheckEvmTx\<close>

text \<open>What a round does with the entry in front: leave it, drop it and go on, or put the replacing
  transaction in its place.\<close>

datatype recheck_choice = Stay | DropTx | ReplaceTx bytes

definition recheck_decide :: "server_env \<Rightarrow> bytes \<Rightarrow> evm_token \<Rightarrow> int \<Rightarrow> recheck_choice outcome" where
  "recheck_decide E txOldHash t ts =
     (let pending = cf_PendingTime (en_conf E) in
      if en_now E - ts < pending then Ok Stay
      else if en_now E - ts > sint (3 * word_of_int pending :: i64) then Ok DropTx
      else obind (env_key E (Symbol_evm t)) (\<lambda>key. case key of
          Inl e \<Rightarrow> Ok Stay
        | Inr (_, prv) \<Rightarrow>
            obind (fst (CheckPendingAndSpeedUp (en_eth E t) t txOldHash prv)) (\<lambda>(txHash, err).
            if hash_Hex (en_L E) txHash = hash_Hex (en_L E) txOldHash
            then Ok (if err = None then DropTx else Stay)
            else Ok (if err \<noteq> None then DropTx else ReplaceTx txHash))))"

text \<open>One round of the inner loop, and whether it goes on.\<close>

definition recheck_round :: "server_env \<Rightarrow> evm_token evm_queue
    \<Rightarrow> (evm_token evm_queue \<times> bool) outcome" where
  "recheck_round E q = obind (evm_Top q) (\<lambda>(txOldHash, chain, ts). case chain of
      None \<Rightarrow> Ok (q, False)
    | Some t \<Rightarrow>
        if ts = 0 then Ok (q, False)
        else obind (recheck_decide E txOldHash t ts) (\<lambda>choice. case choice of
            Stay \<Rightarrow> Ok (q, False)
          | DropTx \<Rightarrow> obind (evm_Pop q) (\<lambda>q. Ok (q, True))
          | ReplaceTx txHash \<Rightarrow> obind (evm_UpdateTop txHash t (en_now E) q) (\<lambda>q. Ok (q, False))))"

text \<open>A round that goes on has made the queue shorter, so the loop ends.\<close>

lemma evm_Pop_shorter:
  "evm_Pop q = Ok q' \<Longrightarrow> length (q_txHashs q) \<noteq> 0 \<Longrightarrow> length (q_txHashs q') < length (q_txHashs q)"
  by (auto simp: evm_Pop_def obind_Ok_conv slice_from_Ok_conv)

lemma evm_Top_nonempty: "evm_Top q = Ok (h, Some c, ts) \<Longrightarrow> length (q_txHashs q) \<noteq> 0"
  by (auto simp: evm_Top_def)

lemma recheck_round_shorter:
  assumes "recheck_round E q = Ok (q', True)"
  shows "length (q_txHashs q') < length (q_txHashs q)"
proof -
  from assms obtain h c ts where top: "evm_Top q = Ok (h, c, ts)"
    and rest: "(case c of None \<Rightarrow> Ok (q, False) | Some t \<Rightarrow> if ts = 0 then Ok (q, False)
        else obind (recheck_decide E h t ts) (\<lambda>choice. case choice of
            Stay \<Rightarrow> Ok (q, False)
          | DropTx \<Rightarrow> obind (evm_Pop q) (\<lambda>q. Ok (q, True))
          | ReplaceTx txHash \<Rightarrow> obind (evm_UpdateTop txHash t (en_now E) q) (\<lambda>q. Ok (q, False)))) = Ok (q', True)"
    unfolding recheck_round_def obind_Ok_conv by auto
  from rest obtain t choice where c: "c = Some t"
    and "(case choice of Stay \<Rightarrow> Ok (q, False) | DropTx \<Rightarrow> obind (evm_Pop q) (\<lambda>q. Ok (q, True))
      | ReplaceTx txHash \<Rightarrow> obind (evm_UpdateTop txHash t (en_now E) q) (\<lambda>q. Ok (q, False))) = Ok (q', True)"
    by (cases c) (auto simp: obind_Ok_conv split: if_splits)
  then have "evm_Pop q = Ok q'"
    by (cases choice) (auto simp: obind_Ok_conv)
  then show ?thesis by (rule evm_Pop_shorter) (rule evm_Top_nonempty [OF top [unfolded c]])
qed

function recheck_loop :: "server_env \<Rightarrow> evm_token evm_queue \<Rightarrow> evm_token evm_queue outcome" where
  "recheck_loop E q = (case recheck_round E q of
      Panic p \<Rightarrow> Panic p
    | Err e \<Rightarrow> Err e
    | Ok (q', again) \<Rightarrow> if again then recheck_loop E q' else Ok q')"
  by pat_completeness auto
termination
  by (relation "measure (\<lambda>(E, q). length (q_txHashs q))") (auto dest: recheck_round_shorter)

declare recheck_loop.simps [simp del]

text \<open>One tick for the queue of a key.\<close>

definition recheck_evm_turn :: "server_env \<Rightarrow> string \<Rightarrow> server \<Rightarrow> server outcome" where
  "recheck_evm_turn E key st = (case sv_evm st key of
      None \<Rightarrow> Ok st
    | Some q \<Rightarrow> obind (recheck_loop E q) (\<lambda>q. Ok (st\<lparr>sv_evm := (sv_evm st)(key \<mapsto> q)\<rparr>)))"

section \<open>Error records\<close>

definition dealTxErrorRecord :: "server_env \<Rightarrow> tx_error_record \<Rightarrow> server \<Rightarrow> server outcome option" where
  "dealTxErrorRecord E o1 st =
     (let t1 = (if ter_D o1 = - 1 then map_option EvmTok (sv_dest st (ter_FromCoin o1))
                else if ter_D o1 = 1 then sv_src st (ter_FromCoin o1) else None)
      in case t1 of
        None \<Rightarrow> Some (Ok st)
      | Some t1 \<Rightarrow> (case CheckUserTx_src E t1 (ter_Txid o1) (ter_ToCoin o1) (ter_D o1) of
          Panic p \<Rightarrow> Some (Panic p)
        | Err e \<Rightarrow> Some (Ok st)
        | Ok (sender, receiver, amount) \<Rightarrow>
            if map_Exist (ter_Txid o1) (sv_users st) then Some (Ok st)
            else let order = \<lparr>so_TxID = hexutil_Encode (en_L E) (ter_Txid o1), so_FromToken = ter_FromCoin o1,
                   so_ToToken = ter_ToCoin o1, so_From = sender, so_To = receiver, so_Amount = amount,
                   so_Org = [], so_Error = None, so_Type = 0\<rparr>
              in if ter_D o1 = 1 then Some (dealWrapOrder E (sv_dest st (ter_ToCoin o1)) order st)
                 else dealUnWrapOrder E (sv_src st (ter_ToCoin o1)) order st))"

fun listen_error_records :: "(nat \<Rightarrow> server_env) \<Rightarrow> nat \<Rightarrow> tx_error_record list \<Rightarrow> server \<Rightarrow> server outcome option"
  where
  "listen_error_records W i [] st = Some (Ok st)"
| "listen_error_records W i (o1 # os) st =
     (if ter_Error o1 \<noteq> None
      then if ter_Type o1 = 0 then Some (Ok st) else listen_error_records W (i + 1) os st
      else (case dealTxErrorRecord (W i) o1 st of
          None \<Rightarrow> None
        | Some (Ok st') \<Rightarrow> listen_error_records W (i + 1) os st'
        | Some r \<Rightarrow> Some r))"

text \<open>\<open>ListenTxErrorRecord\<close>, over the connections it makes one after the other.\<close>

definition ends_connection :: "tx_error_record \<Rightarrow> bool" where
  "ends_connection o1 \<longleftrightarrow> ter_Error o1 \<noteq> None \<and> ter_Type o1 = 0"

fun error_record_loop :: "(nat \<Rightarrow> server_env) \<Rightarrow> tx_error_contract \<Rightarrow> nat \<Rightarrow> listen_world list \<Rightarrow> server
    \<Rightarrow> server outcome option" where
  "error_record_loop W c i [] st = Some (Ok st)"
| "error_record_loop W c i (w # ws) st = (case StartListen (en_L (W i)) c w of
      Panic p \<Rightarrow> Some (Panic p)
    | Err e \<Rightarrow> Some (Err e)
    | Ok records \<Rightarrow> (case listen_error_records W i records st of
          Some (Ok st) \<Rightarrow>
            if list_ex ends_connection records then error_record_loop W c (i + length records) ws st
            else Some (Ok st)
        | r \<Rightarrow> r))"

definition ListenTxErrorRecord :: "(nat \<Rightarrow> server_env) \<Rightarrow> unit rpc \<Rightarrow> int rpc \<Rightarrow> listen_world list \<Rightarrow> server
    \<Rightarrow> server outcome option" where
  "ListenTxErrorRecord W dial networkID ws st =
     (let conf = cf_TxErrorRecord (en_conf (W 0)) in
      case NewTxErrorRecordContract (en_L (W 0)) dial networkID (tc_NodeRpc conf) (tc_NodeWss conf)
          (tc_Contract conf) (tc_ScanEventType conf) (tc_TimePeriod conf) of
        Inl e \<Rightarrow> Some (Panic (error_text e))
      | Inr contract \<Rightarrow> error_record_loop W contract 0 ws st)"

end
