(* ===== verification/Server_Run.thy ===== *)
theory Server_Run
  imports Server_Accept
begin

text \<open>
  The server as a state machine: what each handler does to the state, the invariant of the state
  and the steps of the process (orders from the listeners, records of the error contract, the ticks
  of the periodic tasks and the daily reset), with the properties of whole runs.
\<close>

section \<open>The invariant\<close>

text \<open>The queues are parallel slices, the order table has unique ids, and there is a queue for
  every EVM token the server can be asked to pay out with.\<close>

definition server_ok :: "eth_lib \<Rightarrow> server \<Rightarrow> bool" where
  "server_ok L st \<longleftrightarrow> iota_ok (sv_iota st) \<and> (\<forall>key q. sv_evm st key = Some q \<longrightarrow> evm_ok q) \<and>
     db_ok (sv_db st) \<and>
     (\<forall>s t. sv_dest st s = Some t \<longrightarrow> queue_key L t \<in> dom (sv_evm st)) \<and>
     (\<forall>s t. sv_src st s = Some (EvmTok t) \<longrightarrow> queue_key L t \<in> dom (sv_evm st))"

text \<open>What a step leaves as it is, and how the counts of payments and acceptances may grow.\<close>

definition pays :: "string \<Rightarrow> effect \<Rightarrow> bool" where
  "pays txid x = (case x of WrapSent i a r \<Rightarrow> i = txid | UnWrapSent i a r \<Rightarrow> i = txid
     | SignAsked i c \<Rightarrow> i = txid | SignAccepted k c \<Rightarrow> False)"

definition accepts :: "string \<Rightarrow> effect \<Rightarrow> bool" where
  "accepts key x = (case x of SignAccepted k c \<Rightarrow> k = key | _ \<Rightarrow> False)"

definition paid :: "string \<Rightarrow> server \<Rightarrow> nat" where
  "paid txid st = length (filter (pays txid) (sv_trace st))"

definition accepted_times :: "string \<Rightarrow> server \<Rightarrow> nat" where
  "accepted_times key st = length (filter (accepts key) (sv_trace st))"

definition same_tokens :: "server \<Rightarrow> server \<Rightarrow> bool" where
  "same_tokens st st' \<longleftrightarrow> sv_src st' = sv_src st \<and> sv_dest st' = sv_dest st \<and> dom (sv_evm st') = dom (sv_evm st)"

definition good_step :: "server \<Rightarrow> server \<Rightarrow> bool" where
  "good_step st st' \<longleftrightarrow> same_tokens st st' \<and>
     (iota_ok (sv_iota st) \<longrightarrow> iota_ok (sv_iota st')) \<and>
     ((\<forall>key q. sv_evm st key = Some q \<longrightarrow> evm_ok q) \<longrightarrow> (\<forall>key q. sv_evm st' key = Some q \<longrightarrow> evm_ok q)) \<and>
     (db_ok (sv_db st) \<longrightarrow> db_ok (sv_db st'))"

definition pays_fresh :: "server \<Rightarrow> server \<Rightarrow> bool" where
  "pays_fresh st st' \<longleftrightarrow> dom (sv_dealed st) \<subseteq> dom (sv_dealed st') \<and> (\<forall>txid. paid txid st' \<le> paid txid st +
     (if txid \<in> dom (sv_dealed st') - dom (sv_dealed st) then 1 else 0))"

definition accepts_fresh :: "server \<Rightarrow> server \<Rightarrow> bool" where
  "accepts_fresh st st' \<longleftrightarrow> (\<forall>key. sv_accepted st key \<longrightarrow> sv_accepted st' key) \<and>
     (\<forall>key. accepted_times key st' \<le> accepted_times key st +
       (if sv_accepted st' key \<and> \<not> sv_accepted st key then 1 else 0))"

lemmas step_defs = good_step_def same_tokens_def pays_fresh_def accepts_fresh_def

lemma good_step_refl [simp]: "good_step st st" "pays_fresh st st" "accepts_fresh st st"
  by (simp_all add: step_defs)

lemma good_step_trans: "good_step a b \<Longrightarrow> good_step b c \<Longrightarrow> good_step a c"
  unfolding good_step_def same_tokens_def by metis

lemma accepts_fresh_trans:
  assumes "accepts_fresh a b" and "accepts_fresh b c"
  shows "accepts_fresh a c"
  unfolding accepts_fresh_def
proof (intro conjI allI impI)
  fix key
  show "sv_accepted c key" if "sv_accepted a key" using assms that by (simp add: accepts_fresh_def)
  have "accepted_times key c \<le> accepted_times key b + (if sv_accepted c key \<and> \<not> sv_accepted b key then 1 else 0)"
    "accepted_times key b \<le> accepted_times key a + (if sv_accepted b key \<and> \<not> sv_accepted a key then 1 else 0)"
    "sv_accepted a key \<longrightarrow> sv_accepted b key" "sv_accepted b key \<longrightarrow> sv_accepted c key"
    using assms by (auto simp: accepts_fresh_def)
  then show "accepted_times key c \<le> accepted_times key a + (if sv_accepted c key \<and> \<not> sv_accepted a key then 1 else 0)"
    by (cases "sv_accepted a key"; cases "sv_accepted b key"; cases "sv_accepted c key") simp_all
qed

lemma server_ok_step: "server_ok L st \<Longrightarrow> good_step st st' \<Longrightarrow> server_ok L st'"
  unfolding server_ok_def good_step_def same_tokens_def by auto

lemma paid_traced [simp]:
  "paid txid (traced x st) = paid txid st + (if pays txid x then 1 else 0)"
  "accepted_times key (traced x st) = accepted_times key st + (if accepts key x then 1 else 0)"
  by (simp_all add: paid_def accepted_times_def traced_def)

lemma traced_simps [simp]:
  "sv_src (traced x st) = sv_src st" "sv_dest (traced x st) = sv_dest st"
  "sv_dealed (traced x st) = sv_dealed st" "sv_iota (traced x st) = sv_iota st"
  "sv_evm (traced x st) = sv_evm st" "sv_users (traced x st) = sv_users st"
  "sv_accepted (traced x st) = sv_accepted st" "sv_db (traced x st) = sv_db st"
  "sv_trace (traced x st) = sv_trace st @ [x]"
  by (simp_all add: traced_def)

lemma pays_simps [simp]:
  "pays i (WrapSent j a r) \<longleftrightarrow> j = i" "pays i (UnWrapSent j a r) \<longleftrightarrow> j = i" "pays i (SignAsked j c) \<longleftrightarrow> j = i"
  "\<not> pays i (SignAccepted k c)" "\<not> accepts k (WrapSent j a r)" "\<not> accepts k (UnWrapSent j a r)"
  "\<not> accepts k (SignAsked j c)" "accepts k (SignAccepted j c) \<longleftrightarrow> j = k"
  by (auto simp: pays_def accepts_def)

section \<open>Taking an order\<close>

text \<open>The state after \<open>Check\<close> has let an order pass and it was stored.\<close>

definition taken :: "server_env \<Rightarrow> swap_order \<Rightarrow> int \<Rightarrow> server \<Rightarrow> server" where
  "taken E order wrap st =
     st\<lparr>sv_dealed := (sv_dealed st)(so_TxID order \<mapsto> True),
        sv_db := fst (StoreSwapOrder (en_store E) (order_row order wrap (en_now_ms E)) (sv_db st))\<rparr>"

lemma taken_simps [simp]:
  "sv_src (taken E o1 w st) = sv_src st" "sv_dest (taken E o1 w st) = sv_dest st"
  "sv_dealed (taken E o1 w st) = (sv_dealed st)(so_TxID o1 \<mapsto> True)" "sv_iota (taken E o1 w st) = sv_iota st"
  "sv_evm (taken E o1 w st) = sv_evm st" "sv_users (taken E o1 w st) = sv_users st"
  "sv_accepted (taken E o1 w st) = sv_accepted st" "sv_trace (taken E o1 w st) = sv_trace st"
  "sv_db (taken E o1 w st) = fst (StoreSwapOrder (en_store E) (order_row o1 w (en_now_ms E)) (sv_db st))"
  "paid txid (taken E o1 w st) = paid txid st" "accepted_times k (taken E o1 w st) = accepted_times k st"
  by (simp_all add: taken_def paid_def accepted_times_def)

lemma evm_sent_ok:
  assumes "evm_sent E t order h st = Ok st'"
  shows "good_step st st' \<and> sv_dealed st' = sv_dealed st \<and> sv_trace st' = sv_trace st \<and>
    sv_accepted st' = sv_accepted st \<and> sv_db st' = sv_db st \<and>
    map_Exist (FromHex (en_L E) (so_TxID order)) (sv_users st')"
  using assms
  by (auto simp: evm_sent_def push_sent_def obind_Ok_conv step_defs map_Exist_def map_Push_def evm_Push_ok
      split: option.splits if_splits)

lemma dealWrapOrder_eq:
  "dealWrapOrder E (Some t2) order st =
     (if so_ToToken order = Symbol_evm t2 \<and> so_TxID order \<notin> dom (sv_dealed st)
      then wrap_by_key E t2 order (taken E order 1 st) else Ok st)"
proof (cases "so_TxID order \<in> dom (sv_dealed st)")
  case True
  then have "Check (so_TxID order) (sv_dealed st) = (sv_dealed st, False)" by (auto simp: Check_def)
  with True show ?thesis by (simp add: dealWrapOrder_def)
next
  case False
  then have c: "Check (so_TxID order) (sv_dealed st) = ((sv_dealed st)(so_TxID order \<mapsto> True), True)"
    by (auto simp: Check_def split: option.splits)
  obtain db wo err where s: "StoreSwapOrder (en_store E) (order_row order 1 (en_now_ms E)) (sv_db st) = (db, wo, err)"
    by (cases "StoreSwapOrder (en_store E) (order_row order 1 (en_now_ms E)) (sv_db st)")
  from False show ?thesis by (simp add: dealWrapOrder_def c s taken_def)
qed

text \<open>Whether an unwrap order is paid, and by whom.\<close>

definition unwrap_allowed :: "server_env \<Rightarrow> source_token \<Rightarrow> swap_order \<Rightarrow> server \<Rightarrow> bool" where
  "unwrap_allowed E t1 order st \<longleftrightarrow> so_ToToken order = Symbol_src t1 \<and>
     (MultiSignType_src t1 = SmpcSign \<longrightarrow>
        fst (CheckAccountsState (en_accounts E) (sc_Accounts (cf_Smpc (en_conf E))) (en_now E) (sv_db st))) \<and>
     so_TxID order \<notin> dom (sv_dealed st)"

definition unwrap_row :: "server_env \<Rightarrow> swap_order \<Rightarrow> server \<Rightarrow> db_order \<times> go_error option" where
  "unwrap_row E order st =
     snd (StoreSwapOrder (en_store E) (order_row order (- 1) (en_now_ms E)) (sv_db st))"

lemma dealUnWrapOrder_eq:
  "dealUnWrapOrder E (Some t1) order st =
     (if \<not> unwrap_allowed E t1 order st then Some (Ok st)
      else if snd (unwrap_row E order st) \<noteq> None \<and> MultiSignType_src t1 \<noteq> EvmMultiSign
      then Some (Ok (taken E order (- 1) st))
      else if MultiSignType_src t1 \<noteq> SmpcSign then Some (unwrap_by_key E t1 order (taken E order (- 1) st))
      else unwrap_by_group E t1 order (fst (unwrap_row E order st)) (taken E order (- 1) st))"
proof (cases "so_TxID order \<in> dom (sv_dealed st)")
  case True
  then have "Check (so_TxID order) (sv_dealed st) = (sv_dealed st, False)" by (auto simp: Check_def)
  with True show ?thesis by (simp add: dealUnWrapOrder_def unwrap_allowed_def)
next
  case False
  then have c: "Check (so_TxID order) (sv_dealed st) = ((sv_dealed st)(so_TxID order \<mapsto> True), True)"
    by (auto simp: Check_def split: option.splits)
  obtain db wo err where
    s: "StoreSwapOrder (en_store E) (order_row order (- 1) (en_now_ms E)) (sv_db st) = (db, wo, err)"
    by (cases "StoreSwapOrder (en_store E) (order_row order (- 1) (en_now_ms E)) (sv_db st)")
  from False show ?thesis by (simp add: dealUnWrapOrder_def unwrap_allowed_def unwrap_row_def c s taken_def)
qed

section \<open>What a handler does to the state\<close>

text \<open>Paying for a taken order: at most one more effect, for this order.\<close>

definition pays_one :: "string \<Rightarrow> server \<Rightarrow> server \<Rightarrow> bool" where
  "pays_one txid st st' \<longleftrightarrow> good_step st st' \<and> sv_dealed st' = sv_dealed st \<and> sv_accepted st' = sv_accepted st \<and>
     sv_db st' = sv_db st \<and> (sv_trace st' = sv_trace st \<or> (\<exists>x. pays txid x \<and> sv_trace st' = sv_trace st @ [x]))"

lemma pays_one_refl [simp]: "pays_one txid st st"
  by (simp add: pays_one_def)

lemma pays_one_traced [simp]: "pays txid x \<Longrightarrow> pays_one txid st (traced x st)"
  by (auto simp: pays_one_def step_defs)

lemma pays_one_sent: "pays txid x \<Longrightarrow> ok_all (pays_one txid st) (evm_sent E t order h (traced x st))"
  using evm_sent_ok [of E t order h "traced x st"] by (auto simp: pays_one_def step_defs)

lemma wrap_by_key_pays: "ok_all (pays_one (so_TxID order) st) (wrap_by_key E t2 order st)"
  unfolding wrap_by_key_def
  by (auto simp: Let_def pays_one_sent split: sum.split prod.split outcome.split)

lemma unwrap_by_key_pays: "ok_all (pays_one (so_TxID order) st) (unwrap_by_key E t1 order st)"
  unfolding unwrap_by_key_def
  by (auto simp: Let_def pays_one_sent split: sum.split prod.split outcome.split source_token.split)

lemma pays_one_iota: "pays txid x \<Longrightarrow> pays_one txid st (traced x st\<lparr>sv_iota := iota_push wo t (sv_iota st)\<rparr>)"
  by (auto simp: pays_one_def step_defs iota_ok_def iota_push_def)

lemma unwrap_by_group_pays:
  "pred_option (ok_all (pays_one (so_TxID order) st)) (unwrap_by_group E t1 order wo st)"
  unfolding unwrap_by_group_def
  by (auto simp: Let_def pays_one_iota split: option.split outcome.split sum.split prod.split)

lemma pays_one_taken:
  assumes "pays_one (so_TxID order) (taken E order w st) st'" and "so_TxID order \<notin> dom (sv_dealed st)"
  shows "good_step st st' \<and> pays_fresh st st' \<and> accepts_fresh st st'"
proof -
  have "good_step st (taken E order w st)" by (auto simp: step_defs db_ok_Store)
  with assms(1) have g: "good_step st st'" by (auto simp: pays_one_def intro: good_step_trans)
  have d: "sv_dealed st' = (sv_dealed st)(so_TxID order \<mapsto> True)" "sv_accepted st' = sv_accepted st"
    using assms(1) by (auto simp: pays_one_def)
  have "\<not> accepts k x" if "pays i x" for i k x using that by (cases x) auto
  moreover have "pays i x \<longleftrightarrow> i = so_TxID order" if "pays (so_TxID order) x" for i x using that by (cases x) auto
  ultimately have t: "paid txid st' \<le> paid txid st + (if txid = so_TxID order then 1 else 0)"
    "accepted_times key st' = accepted_times key st" for txid key
    using assms(1) by (auto simp: pays_one_def paid_def accepted_times_def)
  have p: "pays_fresh st st'"
    unfolding pays_fresh_def d
  proof (intro conjI allI)
    fix txid
    show "paid txid st' \<le> paid txid st + (if txid \<in> dom ((sv_dealed st)(so_TxID order \<mapsto> True)) - dom (sv_dealed st)
        then 1 else 0)"
      using t(1) [of txid] assms(2) by (cases "txid = so_TxID order") auto
  qed auto
  show ?thesis using g p t(2) d by (simp add: accepts_fresh_def)
qed

lemma taken_step:
  "so_TxID order \<notin> dom (sv_dealed st) \<Longrightarrow>
     good_step st (taken E order w st) \<and> pays_fresh st (taken E order w st) \<and> accepts_fresh st (taken E order w st)"
  by (rule pays_one_taken [OF pays_one_refl])

lemma dealWrapOrder_step:
  assumes "dealWrapOrder E dest order st = Ok st'"
  shows "good_step st st' \<and> pays_fresh st st' \<and> accepts_fresh st st'"
proof (cases dest)
  case None
  with assms show ?thesis by (simp add: dealWrapOrder_def)
next
  case (Some t2)
  with assms show ?thesis
    using ok_allD [OF wrap_by_key_pays, of E t2 order "taken E order 1 st"] pays_one_taken [of order E 1 st]
    by (auto simp: dealWrapOrder_eq split: if_splits)
qed

lemma dealUnWrapOrder_step:
  assumes "dealUnWrapOrder E src order st = Some (Ok st')"
  shows "good_step st st' \<and> pays_fresh st st' \<and> accepts_fresh st st'"
proof (cases src)
  case None
  with assms show ?thesis by (simp add: dealUnWrapOrder_def)
next
  case (Some t1)
  show ?thesis
  proof (cases "unwrap_allowed E t1 order st")
    case True
    then have fresh: "so_TxID order \<notin> dom (sv_dealed st)" by (simp add: unwrap_allowed_def)
    have "pays_one (so_TxID order) (taken E order (- 1) st) st'"
      using assms True Some ok_allD [OF unwrap_by_key_pays]
        unwrap_by_group_pays [of order "taken E order (- 1) st" E t1 "fst (unwrap_row E order st)"]
      by (auto simp: dealUnWrapOrder_eq split: if_splits)
    then show ?thesis using fresh by (rule pays_one_taken)
  qed (use assms Some in \<open>auto simp: dealUnWrapOrder_eq\<close>)
qed

lemma pays_fresh_trans:
  assumes "pays_fresh a b" and "pays_fresh b c"
  shows "pays_fresh a c"
  unfolding pays_fresh_def
proof (intro conjI allI)
  have d: "dom (sv_dealed a) \<subseteq> dom (sv_dealed b)" "dom (sv_dealed b) \<subseteq> dom (sv_dealed c)"
    using assms by (auto simp: pays_fresh_def)
  then show "dom (sv_dealed a) \<subseteq> dom (sv_dealed c)" by blast
  fix i
  have "paid i c \<le> paid i b + (if i \<in> dom (sv_dealed c) - dom (sv_dealed b) then 1 else 0)"
    "paid i b \<le> paid i a + (if i \<in> dom (sv_dealed b) - dom (sv_dealed a) then 1 else 0)"
    using assms by (simp_all add: pays_fresh_def)
  moreover have "i \<in> dom (sv_dealed a) \<longrightarrow> i \<in> dom (sv_dealed b)" "i \<in> dom (sv_dealed b) \<longrightarrow> i \<in> dom (sv_dealed c)"
    using d by blast+
  ultimately show "paid i c \<le> paid i a + (if i \<in> dom (sv_dealed c) - dom (sv_dealed a) then 1 else 0)"
    by (cases "i \<in> dom (sv_dealed a)"; cases "i \<in> dom (sv_dealed b)"; cases "i \<in> dom (sv_dealed c)") simp_all
qed

text \<open>The three together, for the tasks that run several handlers.\<close>

definition fine :: "server \<Rightarrow> server \<Rightarrow> bool" where
  "fine st st' \<longleftrightarrow> good_step st st' \<and> pays_fresh st st' \<and> accepts_fresh st st'"

lemma fine_refl [simp]: "fine st st" by (simp add: fine_def)

lemma fine_trans: "fine a b \<Longrightarrow> fine b c \<Longrightarrow> fine a c"
  unfolding fine_def using good_step_trans pays_fresh_trans accepts_fresh_trans by blast

text \<open>A change of the database, the queues or the users' transactions only.\<close>

lemma fine_quiet:
  assumes "good_step st st'" and "sv_dealed st' = sv_dealed st" and "sv_accepted st' = sv_accepted st"
    and "sv_trace st' = sv_trace st"
  shows "fine st st'"
  using assms by (simp add: fine_def pays_fresh_def accepts_fresh_def paid_def accepted_times_def)

section \<open>The periodic tasks\<close>

interpretation accepted: claim_always claim_key "\<lambda>a. {k. a k}"
  by unfold_locales (auto simp: claim_key_def split: if_splits)

lemma accept_claimed:
  assumes "claim_key k (sv_accepted st) = (a, True)"
  shows "fine st (st\<lparr>sv_accepted := a\<rparr>)" "fine st (traced (SignAccepted k c) (st\<lparr>sv_accepted := a\<rparr>))"
  using assms
  by (auto simp: claim_key_def fine_def step_defs paid_def accepted_times_def traced_def split: if_splits)

lemma accept_info_fine: "ok_all (\<lambda>(st', nxt). fine st st') (accept_info E d st)"
proof -
  obtain a fresh where c: "claim_key (sg_Key d) (sv_accepted st) = (a, fresh)" by fastforce
  show ?thesis
  proof (cases fresh)
    case True
    have ct: "claim_key (sg_Key d) (sv_accepted st) = (a, True)" using c True by simp
    note ok = accept_claimed [OF ct]
    show ?thesis unfolding accept_info_def ct
      by (auto simp: Let_def ok intro!: ok_allI split: outcome.split sum.split prod.split)
  next
    case False
    then show ?thesis unfolding accept_info_def c by (simp split: outcome.split)
  qed
qed

lemma accept_infos_fine: "accept_infos E ds st = Ok (st', nxt) \<Longrightarrow> fine st st'"
proof (induction ds arbitrary: st)
  case (Cons d ds)
  then obtain st1 n where i: "accept_info E d st = Ok (st1, n)" by (auto simp: obind_Ok_conv)
  then have "fine st st1" using ok_allD [OF accept_info_fine i] by simp
  with Cons i show ?case by (cases n) (auto intro: fine_trans)
qed simp

lemma accept_turn_fine: "ok_all (\<lambda>(st', nxt). fine st st') (accept_turn E fault st)"
proof -
  obtain db err where u: "UpdateAccountState fault (sc_Account (cf_Smpc (en_conf E))) (en_now E) (sv_db st) = (db, err)"
    by fastforce
  then have "db_ok (sv_db st) \<longrightarrow> db_ok db"
    by (auto simp: UpdateAccountState_def db_ok_def split: option.splits)
  then have f: "fine st (st\<lparr>sv_db := db\<rparr>)" by (intro fine_quiet) (auto simp: step_defs)
  have i: "ok_all (\<lambda>(st', nxt). fine st st') (accept_infos E ds (st\<lparr>sv_db := db\<rparr>))" for ds
    using f accept_infos_fine by (auto intro!: ok_allI intro: fine_trans)
  show ?thesis unfolding accept_turn_def u
    using f i by (auto simp: Let_def intro!: ok_allI [of "GetCurNodeSignInfo a b" for a b] split: sum.split)
qed

lemma recheck_iota_fine: "ok_all (fine st) (recheck_iota_turn E fault f st)"
proof -
  have db: "db_ok (sv_db st) \<longrightarrow> db_ok (fst (UpdateChainRecord fault wo (sv_db st)))"
    "db_ok (sv_db st) \<longrightarrow> db_ok (fst (MoveOrderToError f wo (sv_db st)))" for wo
    by (simp_all add: db_ok_Update db_ok_Move)
  have q: "iota_ok (sv_iota st) \<longrightarrow> iota_ok q" if "iota_pop (sv_iota st) = Ok (q, x)" for q x
    using that iota_pop_ok [of "sv_iota st"] by auto
  have p: "iota_ok q \<longrightarrow> iota_ok (iota_push wo t q)" for q wo and t :: source_token
    by (simp add: iota_ok_def iota_push_def)
  show ?thesis unfolding recheck_iota_turn_def
    using db q p by (auto simp: Let_def step_defs intro!: fine_quiet split: option.split prod.split)
qed

lemma recheck_round_ok:
  assumes "evm_ok q" and "recheck_round E q = Ok (q', b)"
  shows "evm_ok q'"
proof -
  have ops: "ok_all evm_ok (evm_Pop q)" "ok_all evm_ok (evm_UpdateTop h t ts q)" for h t ts
    using evm_Pop_ok [OF assms(1)] evm_UpdateTop_ok [OF assms(1), of h t ts] by auto
  have "ok_all (\<lambda>(q', b). evm_ok q') (recheck_round E q)" unfolding recheck_round_def
    using assms(1) ops by (auto intro!: ok_allI [of "evm_Top q"] ok_allI [of "recheck_decide a b c d" for a b c d]
        split: option.split recheck_choice.split)
  from ok_allD [OF this assms(2)] show ?thesis by simp
qed

lemma recheck_loop_ok: "recheck_loop E q = Ok q' \<Longrightarrow> evm_ok q \<Longrightarrow> evm_ok q'"
proof (induction E q rule: recheck_loop.induct)
  case (1 E q)
  show ?case
  proof (cases "recheck_round E q")
    case (Ok x)
    obtain q1 b where x: "x = (q1, b)" by fastforce
    have r: "recheck_round E q = Ok (q1, b)" using Ok x by simp
    have "evm_ok q1" using recheck_round_ok "1.prems"(2) r by blast
    then show ?thesis
      using "1.IH" [OF r refl] "1.prems"(1) r
      by (auto simp: recheck_loop.simps [of E q] split: if_splits)
  qed (use "1.prems" in \<open>simp_all add: recheck_loop.simps [of E q]\<close>)
qed

lemma recheck_evm_fine: "ok_all (fine st) (recheck_evm_turn E key st)"
  unfolding recheck_evm_turn_def using recheck_loop_ok
  by (auto simp: step_defs intro!: ok_allI fine_quiet split: option.split)

lemma dealTxErrorRecord_fine:
  assumes "dealTxErrorRecord E o1 st = Some (Ok st')"
  shows "fine st st'"
proof -
  have w: "dealWrapOrder E dest order st = Ok st' \<Longrightarrow> fine st st'" for dest order
    using dealWrapOrder_step by (simp add: fine_def)
  have u: "dealUnWrapOrder E src order st = Some (Ok st') \<Longrightarrow> fine st st'" for src order
    using dealUnWrapOrder_step by (simp add: fine_def)
  show ?thesis
    using assms by (auto simp: dealTxErrorRecord_def Let_def intro: w u
        split: option.splits outcome.splits prod.splits if_splits)
qed

end
