(* ===== verification/Server_Machine.thy ===== *)
theory Server_Machine
  imports Server_Run
begin

text \<open>
  The process as a step relation and the properties of whole runs: \<open>ListenTokens\<close> establishes the
  invariant, every step keeps it, an order is paid at most once between resets, a sign request is
  accepted at most once, and the properties of the single handlers.
\<close>

section \<open>Start\<close>

lemma new_queue_simps [simp]:
  "sv_src (new_queue key st) = sv_src st" "sv_dest (new_queue key st) = sv_dest st"
  "sv_dealed (new_queue key st) = sv_dealed st" "sv_iota (new_queue key st) = sv_iota st"
  "sv_trace (new_queue key st) = sv_trace st" "sv_db (new_queue key st) = sv_db st"
  "sv_accepted (new_queue key st) = sv_accepted st"
  "dom (sv_evm (new_queue key st)) = insert key (dom (sv_evm st))"
  by (auto simp: new_queue_def split: option.splits)

lemma new_queue_ok: "\<forall>k q. sv_evm st k = Some q \<longrightarrow> evm_ok q \<Longrightarrow>
    \<forall>k q. sv_evm (new_queue key st) k = Some q \<longrightarrow> evm_ok q"
  by (auto simp: new_queue_def split: option.splits if_splits)

definition pair_ready :: "eth_lib \<Rightarrow> server \<Rightarrow> source_token \<times> evm_token \<Rightarrow> bool" where
  "pair_ready L st p \<longleftrightarrow> queue_key L (snd p) \<in> dom (sv_evm st) \<and>
     (case fst p of EvmTok t \<Rightarrow> queue_key L t \<in> dom (sv_evm st) | _ \<Rightarrow> True)"

lemma listen_pair_ok:
  assumes "listen_pair E dial p st = Ok (st', t1, t2)" and "server_ok (en_L E) st"
  shows "server_ok (en_L E) st' \<and> pair_ready (en_L E) st' (t1, t2) \<and> dom (sv_evm st) \<subseteq> dom (sv_evm st') \<and>
    sv_trace st' = sv_trace st \<and> sv_dealed st' = sv_dealed st \<and> sv_accepted st' = sv_accepted st"
proof -
  obtain src dest where p: "p = (src, dest)" by fastforce
  from assms(1) obtain st1 st2 where
    st1: "st1 = st\<lparr>sv_src := (sv_src st)(src \<mapsto> t1), sv_dest := (sv_dest st)(dest \<mapsto> t2)\<rparr>" and
    st2: "st2 = (if MultiSignType_src t1 = EvmMultiSign
      then new_queue (Address_src (en_L E) t1 @ ChainID_src t1) st1 else st1)" and
    st': "st' = new_queue (queue_key (en_L E) t2) st2"
    by (auto simp: listen_pair_def p obind_Ok_conv Let_def MultiSignType_evm_def split: option.splits)
  have src: "queue_key (en_L E) t \<in> dom (sv_evm st2)" if "t1 = EvmTok t" for t
    using that by (simp add: st2 MultiSignType_evm_def queue_key_def)
  have q1: "\<forall>k q. sv_evm st1 k = Some q \<longrightarrow> evm_ok q" using assms(2) by (simp add: st1 server_ok_def)
  then have q2: "\<forall>k q. sv_evm st2 k = Some q \<longrightarrow> evm_ok q" by (simp add: st2 new_queue_ok)
  then have q: "\<forall>k q. sv_evm st' k = Some q \<longrightarrow> evm_ok q" unfolding st' by (rule new_queue_ok)
  have d1: "dom (sv_evm st) \<subseteq> dom (sv_evm st2)" by (auto simp: st2 st1)
  then have d: "dom (sv_evm st') = insert (queue_key (en_L E) t2) (dom (sv_evm st2))" by (simp add: st')
  have same: "sv_src st' = (sv_src st)(src \<mapsto> t1)" "sv_dest st' = (sv_dest st)(dest \<mapsto> t2)"
    "sv_iota st' = sv_iota st" "sv_db st' = sv_db st" "sv_trace st' = sv_trace st"
    "sv_dealed st' = sv_dealed st" "sv_accepted st' = sv_accepted st"
    by (simp_all add: st' st2 st1)
  have sub: "k \<in> dom (sv_evm st')" if "k \<in> dom (sv_evm st)" for k using that d d1 by blast
  have "queue_key (en_L E) t \<in> dom (sv_evm st')" if "sv_dest st' s = Some t" for s t
  proof (cases "s = dest")
    case False
    with that assms(2) have "queue_key (en_L E) t \<in> dom (sv_evm st)"
      unfolding server_ok_def same fun_upd_def by (metis (full_types))
    then show ?thesis by (rule sub)
  qed (use that d same in simp)
  moreover have "queue_key (en_L E) t \<in> dom (sv_evm st')" if "sv_src st' s = Some (EvmTok t)" for s t
  proof (cases "s = src")
    case False
    with that assms(2) have "queue_key (en_L E) t \<in> dom (sv_evm st)"
      unfolding server_ok_def same fun_upd_def by (metis (full_types))
    then show ?thesis by (rule sub)
  qed (use that d src same in simp)
  ultimately have "server_ok (en_L E) st'"
    using assms(2) q unfolding server_ok_def same by simp
  moreover have "pair_ready (en_L E) st' (t1, t2)"
    using d src by (auto simp: pair_ready_def split: source_token.split)
  ultimately show ?thesis using d d1 same by auto
qed

lemma pair_ready_mono: "pair_ready L st p \<Longrightarrow> dom (sv_evm st) \<subseteq> dom (sv_evm st') \<Longrightarrow> pair_ready L st' p"
  by (auto simp: pair_ready_def split: source_token.splits)

lemma listen_pairs_ok:
  "listen_pairs E dial ps st = Ok (st', ts) \<Longrightarrow> server_ok (en_L E) st \<Longrightarrow>
     server_ok (en_L E) st' \<and> (\<forall>p \<in> set ts. pair_ready (en_L E) st' p) \<and> dom (sv_evm st) \<subseteq> dom (sv_evm st') \<and>
     sv_trace st' = sv_trace st \<and> sv_dealed st' = sv_dealed st \<and> sv_accepted st' = sv_accepted st"
proof (induction ps arbitrary: st ts)
  case (Cons p ps)
  then obtain st1 t1 t2 ts1 where one: "listen_pair E dial p st = Ok (st1, t1, t2)"
    and rest: "listen_pairs E dial ps st1 = Ok (st', ts1)" and ts: "ts = (t1, t2) # ts1"
    by (auto simp: obind_Ok_conv)
  note a = listen_pair_ok [OF one Cons.prems(2)]
  then have b: "server_ok (en_L E) st' \<and> (\<forall>p \<in> set ts1. pair_ready (en_L E) st' p) \<and>
      dom (sv_evm st1) \<subseteq> dom (sv_evm st') \<and> sv_trace st' = sv_trace st1 \<and> sv_dealed st' = sv_dealed st1 \<and>
      sv_accepted st' = sv_accepted st1"
    using Cons.IH [OF rest] by blast
  have "pair_ready (en_L E) st' (t1, t2)" "dom (sv_evm st) \<subseteq> dom (sv_evm st')"
    using a b pair_ready_mono [of "en_L E" st1 "(t1, t2)" st'] by blast+
  with a b ts show ?case by simp
qed simp

text \<open>A started server: what \<open>ListenTokens\<close> leaves, and the pairs of tokens it listens to.\<close>

definition started :: "server_env \<Rightarrow> (config_token \<Rightarrow> eth_env) \<Rightarrow> database \<Rightarrow> server
    \<Rightarrow> (source_token \<times> evm_token) list \<Rightarrow> bool" where
  "started E dial db st ts \<longleftrightarrow> db_ok db \<and> ListenTokens E dial (server_init db) = Ok (st, ts)"

lemma started_ok:
  assumes "started E dial db st ts"
  shows "server_ok (en_L E) st \<and> (\<forall>p \<in> set ts. pair_ready (en_L E) st p) \<and> sv_trace st = [] \<and>
    sv_dealed st = Map.empty \<and> sv_accepted st = (\<lambda>k. False)"
proof -
  have "server_ok (en_L E) ((server_init db)\<lparr>sv_evm := Map.empty\<rparr>)"
    using assms by (simp add: started_def server_ok_def server_init_def empty_sent_iota_def iota_ok_def)
  from listen_pairs_ok [OF _ this] assms show ?thesis
    by (auto simp: started_def ListenTokens_def server_init_def NewDealedOrdersCheck_def)
qed

section \<open>Steps and runs\<close>

datatype event =
    Wrapped evm_token swap_order                  \<comment> \<open>an order from a source chain, for its destination\<close>
  | UnWrapped source_token swap_order
  | ErrorRecord tx_error_record
  | AcceptTick "go_error option"
  | RecheckIotaTick "go_error option" tx_faults
  | RecheckEvmTick string
  | DailyResetTick
  | CleanupTick

inductive step :: "server_env \<Rightarrow> event \<Rightarrow> server \<Rightarrow> server \<Rightarrow> bool" where
  wrapped: "dealWrapOrder E (Some t2) order st = Ok st' \<Longrightarrow> step E (Wrapped t2 order) st st'"
| unwrapped: "dealUnWrapOrder E (Some t1) order st = Some (Ok st') \<Longrightarrow> step E (UnWrapped t1 order) st st'"
| error_record: "dealTxErrorRecord E r st = Some (Ok st') \<Longrightarrow> step E (ErrorRecord r) st st'"
| accept_tick: "accept_turn E fault st = Ok (st', nxt) \<Longrightarrow> step E (AcceptTick fault) st st'"
| iota_tick: "recheck_iota_turn E fault f st = Ok st' \<Longrightarrow> step E (RecheckIotaTick fault f) st st'"
| evm_tick: "recheck_evm_turn E key st = Ok st' \<Longrightarrow> step E (RecheckEvmTick key) st st'"
| reset_tick: "step E DailyResetTick st (st\<lparr>sv_dealed := dealed_expired (sv_dealed st)\<rparr>)"
| cleanup_tick: "step E CleanupTick st (st\<lparr>sv_users := map_expired (en_now E) (sv_users st)\<rparr>)"

inductive_cases step_resetE: "step E DailyResetTick st st'"

inductive run :: "server \<Rightarrow> (server_env \<times> event) list \<Rightarrow> server \<Rightarrow> bool" where
  run_start: "run st [] st"
| run_step: "run st es st' \<Longrightarrow> step E e st' st'' \<Longrightarrow> run st (es @ [(E, e)]) st''"

definition resets :: "(server_env \<times> event) list \<Rightarrow> nat" where
  "resets es = length (filter (\<lambda>(E, e). e = DailyResetTick) es)"

lemma step_fine: "step E e st st' \<Longrightarrow> e \<noteq> DailyResetTick \<Longrightarrow> fine st st'"
proof (induction rule: step.induct)
  case (wrapped E t2 order st st')
  from dealWrapOrder_step [OF wrapped(1)] show ?case by (simp add: fine_def)
next
  case (unwrapped E t1 order st st')
  from dealUnWrapOrder_step [OF unwrapped(1)] show ?case by (simp add: fine_def)
next
  case (error_record E r st st')
  from dealTxErrorRecord_fine [OF error_record(1)] show ?case .
next
  case (accept_tick E fault st st' nxt)
  from ok_allD [OF accept_turn_fine accept_tick(1)] show ?case by simp
next
  case (iota_tick E fault f st st')
  from ok_allD [OF recheck_iota_fine iota_tick(1)] show ?case .
next
  case (evm_tick E key st st')
  from ok_allD [OF recheck_evm_fine evm_tick(1)] show ?case .
next
  case (cleanup_tick E st)
  show ?case by (rule fine_quiet) (simp_all add: step_defs)
qed simp

lemma step_good: "step E e st st' \<Longrightarrow> good_step st st'"
proof (cases "e = DailyResetTick")
  case True
  assume "step E e st st'"
  with True show ?thesis by (auto elim!: step_resetE simp: step_defs)
qed (auto dest: step_fine simp: fine_def)

lemma run_good: "run st es st' \<Longrightarrow> good_step st st'"
  by (induction rule: run.induct) (auto intro: good_step_trans step_good)

lemma run_paid:
  "run st es st' \<Longrightarrow> sv_trace st = [] \<Longrightarrow>
     paid txid st' + (if txid \<in> dom (sv_dealed st') then 0 else 1) \<le> resets es + 1"
proof (induction rule: run.induct)
  case (run_step st es st1 E e st2)
  then have ih: "paid txid st1 + (if txid \<in> dom (sv_dealed st1) then 0 else 1) \<le> resets es + 1" by simp
  show ?case
  proof (cases "e = DailyResetTick")
    case True
    with run_step(2) have "st2 = st1\<lparr>sv_dealed := dealed_expired (sv_dealed st1)\<rparr>"
      by (auto elim!: step_resetE)
    then have "paid txid st2 = paid txid st1" "txid \<notin> dom (sv_dealed st2)"
      by (simp_all add: paid_def dealed_expired_def)
    with ih True show ?thesis by (simp add: resets_def split: if_splits)
  next
    case False
    have f: "dom (sv_dealed st1) \<subseteq> dom (sv_dealed st2)" "paid txid st2 \<le> paid txid st1 +
        (if txid \<in> dom (sv_dealed st2) - dom (sv_dealed st1) then 1 else 0)"
      using step_fine [OF run_step(2) False] by (auto simp: fine_def pays_fresh_def)
    have m: "txid \<in> dom (sv_dealed st1) \<longrightarrow> txid \<in> dom (sv_dealed st2)" using f(1) by blast
    have "resets (es @ [(E, e)]) = resets es" using False by (simp add: resets_def)
    with ih f(2) m show ?thesis
      by (cases "txid \<in> dom (sv_dealed st1)"; cases "txid \<in> dom (sv_dealed st2)") simp_all
  qed
qed (simp add: paid_def resets_def)

lemma run_accepted:
  "run st es st' \<Longrightarrow> sv_trace st = [] \<Longrightarrow>
     accepted_times key st' + (if sv_accepted st' key then 0 else 1) \<le> 1"
proof (induction rule: run.induct)
  case (run_step st es st1 E e st2)
  then have ih: "accepted_times key st1 + (if sv_accepted st1 key then 0 else 1) \<le> 1" by simp
  have "accepts_fresh st1 st2"
  proof (cases "e = DailyResetTick")
    case True
    with run_step(2) have "st2 = st1\<lparr>sv_dealed := dealed_expired (sv_dealed st1)\<rparr>"
      by (auto elim!: step_resetE)
    then show ?thesis by (simp add: accepts_fresh_def accepted_times_def)
  next
    case False
    then show ?thesis using step_fine [OF run_step(2)] by (simp add: fine_def)
  qed
  then have "sv_accepted st1 key \<longrightarrow> sv_accepted st2 key" "accepted_times key st2 \<le> accepted_times key st1 +
      (if sv_accepted st2 key \<and> \<not> sv_accepted st1 key then 1 else 0)"
    by (simp_all add: accepts_fresh_def)
  with ih show ?case
    by (cases "sv_accepted st1 key"; cases "sv_accepted st2 key") simp_all
qed (simp add: accepted_times_def)

section \<open>Properties of runs\<close>

text \<open>An order is paid at most once a day. In any run of the server from its start, whatever the
  listeners, the error contract, the nodes and the clock deliver, the calls of \<open>SendWrap\<close>,
  \<open>SendUnWrap\<close> and \<open>smpc.Sign\<close> for one transaction id are at most one more than the daily resets.\<close>

theorem server_pays_once:
  assumes "started E dial db st0 ts" and "run st0 es st"
  shows "paid txid st \<le> resets es + 1"
  using run_paid [OF assms(2), of txid] started_ok [OF assms(1)] by simp

text \<open>A sign request is accepted at most once in the life of the process, however often the
  group's node lists it.\<close>

theorem server_accepts_once:
  assumes "started E dial db st0 ts" and "run st0 es st"
  shows "accepted_times key st \<le> 1"
  using run_accepted [OF assms(2), of key] started_ok [OF assms(1)] by simp

text \<open>The state stays well formed. In every run from the start the parallel slices of the queues
  have the same lengths, the order table has no id twice, and every EVM token that was registered
  still has its queue, for the pairs that are listened to as well.\<close>

theorem server_stays_ok:
  assumes "started E dial db st0 ts" and "run st0 es st"
  shows "server_ok (en_L E) st \<and> list_all (pair_ready (en_L E) st) ts"
proof -
  have g: "good_step st0 st" using assms(2) by (rule run_good)
  have "pair_ready (en_L E) st0 p \<Longrightarrow> pair_ready (en_L E) st p" for p
    using g pair_ready_mono [of "en_L E" st0 p st] unfolding good_step_def same_tokens_def by blast
  with started_ok [OF assms(1)] server_ok_step [OF _ g] show ?thesis by (auto simp: list_all_iff)
qed

end
