(* ===== verification/Server_Props.thy ===== *)
theory Server_Props
  imports Server_Machine
begin

text \<open>
  Properties of the single handlers of package server: what a wrap and an unwrap order are paid
  with and when, what a validator accepts, and what the rechecks do to the queues.
\<close>

section \<open>The password is always decrypted\<close>

lemma GetDecryptString_total:
  assumes "crypto_lib_ok C" shows "\<exists>w. GetDecryptString C enc seeds = Ok w"
proof -
  obtain key iv where "getKeyAndIv C seeds = Ok (key, iv)" "length key = 32" "length iv = 16"
    using getKeyAndIv_ok [OF assms] by blast
  then show ?thesis by (auto simp: GetDecryptString_def split: sum.split)
qed

lemma env_key_total: "crypto_lib_ok (en_C E) \<Longrightarrow> \<exists>r. env_key E symbol = Ok r"
  using GetDecryptString_total [of "en_C E" "cf_password (en_conf E)" "cf_seeds (en_conf E)"]
  by (auto simp: env_key_def GetPrivateKey_def)

lemma send_call_not_Panic: "send_call L N t method txid (Some am) to prv = (res, sent) \<Longrightarrow> \<not> is_panic res"
  by (auto simp: send_call_def Let_def split: if_splits sum.splits option.splits)

section \<open>Wrap orders\<close>

lemma evm_sent_total: "queue_key (en_L E) t \<in> dom (sv_evm st) \<Longrightarrow> \<exists>st'. evm_sent E t order h st = Ok st'"
  by (auto simp: evm_sent_def push_sent_def)

lemma wrap_by_key_total:
  assumes "crypto_lib_ok (en_C E)" and "queue_key (en_L E) t2 \<in> dom (sv_evm st)" and "so_Amount order = Some am"
  shows "\<exists>st'. wrap_by_key E t2 order st = Ok st'"
proof -
  obtain key where key: "env_key E (Symbol_evm t2) = Ok key" using env_key_total [OF assms(1)] by blast
  show ?thesis
  proof (cases key)
    case (Inr k)
    obtain addr prv where k: "k = (addr, prv)" by fastforce
    obtain res sent where s: "SendWrap_evm (en_L E) (en_eth E t2) t2 (so_TxID order) (Some am) (so_To order) prv
        = (res, sent)" by fastforce
    then have "\<not> is_panic res" using send_call_not_Panic by (simp add: SendWrap_evm_def)
    then show ?thesis
      using key Inr k s assms(2,3) evm_sent_total [of E t2 "traced x st" for x]
      by (cases res) (auto simp: wrap_by_key_def Let_def)
  qed (use key in \<open>simp add: wrap_by_key_def\<close>)
qed

text \<open>A wrap never brings the server down. In every run from the start, for a pair the server
  listens to and an order with an amount, \<open>dealWrapOrder\<close> returns: the queue it pushes to
  exists, and neither the keystore nor the chain's node can make it panic.\<close>

theorem dealWrapOrder_total:
  assumes "started E0 dial db st0 ts" and "run st0 es st" and "(t1, t2) \<in> set ts"
    and "en_L E = en_L E0" and "crypto_lib_ok (en_C E)" and "so_Amount order \<noteq> None"
  shows "is_ok (dealWrapOrder E (Some t2) order st)"
proof -
  have "pair_ready (en_L E0) st0 (t1, t2)" "dom (sv_evm st) = dom (sv_evm st0)"
    using started_ok [OF assms(1)] run_good [OF assms(2)] assms(3)
    by (simp_all add: good_step_def same_tokens_def)
  then have "queue_key (en_L E) t2 \<in> dom (sv_evm (taken E order 1 st))"
    by (simp only: taken_simps assms(4)) (simp add: pair_ready_def)
  moreover obtain am where "so_Amount order = Some am" using assms(6) by blast
  ultimately obtain st' where "wrap_by_key E t2 order (taken E order 1 st) = Ok st'"
    using wrap_by_key_total [OF assms(5)] by blast
  then show ?thesis by (simp add: dealWrapOrder_eq)
qed

lemma wrap_by_key_trace:
  assumes "wrap_by_key E t2 order st = Ok st'"
  shows "sv_trace st' = sv_trace st @ (if \<exists>k. env_key E (Symbol_evm t2) = Ok (Inr k)
    then [WrapSent (so_TxID order) (so_Amount order) (so_To order)] else [])"
proof -
  obtain key where key: "env_key E (Symbol_evm t2) = Ok key"
    using assms by (auto simp: wrap_by_key_def obind_Ok_conv)
  show ?thesis
  proof (cases key)
    case (Inr k)
    have "ok_all (\<lambda>st'. sv_trace st' = sv_trace st @ [WrapSent (so_TxID order) (so_Amount order) (so_To order)])
        (wrap_by_key E t2 order st)"
      unfolding wrap_by_key_def using key Inr
      by (auto simp: Let_def evm_sent_ok split: prod.split outcome.split)
    from ok_allD [OF this assms] show ?thesis using key Inr by simp
  qed (use assms key in \<open>simp add: wrap_by_key_def\<close>)
qed

text \<open>C14: what a wrap order is paid with. \<open>SendWrap\<close> is called exactly when the order's target is the
  token it was received for, its id was not handled before and the token's key opens, and then
  once, with the order's id, amount and target; from then on the id counts as handled and, unless the
  database failed, the order is stored.\<close>

theorem dealWrapOrder_pays:
  assumes "dealWrapOrder E (Some t2) order st = Ok st'"
  shows "sv_trace st' = sv_trace st @ (if so_ToToken order = Symbol_evm t2 \<and>
        so_TxID order \<notin> dom (sv_dealed st) \<and> (\<exists>k. env_key E (Symbol_evm t2) = Ok (Inr k))
      then [WrapSent (so_TxID order) (so_Amount order) (so_To order)] else []) \<and>
    (so_ToToken order = Symbol_evm t2 \<longrightarrow> so_TxID order \<in> dom (sv_dealed st')) \<and>
    (so_ToToken order = Symbol_evm t2 \<and> so_TxID order \<notin> dom (sv_dealed st) \<and> en_store E = None \<longrightarrow>
      so_TxID order \<in> stored (sv_db st'))"
proof (cases "so_ToToken order = Symbol_evm t2 \<and> so_TxID order \<notin> dom (sv_dealed st)")
  case True
  then have w: "wrap_by_key E t2 order (taken E order 1 st) = Ok st'"
    using assms by (simp add: dealWrapOrder_eq)
  have "so_TxID order \<in> stored (fst (StoreSwapOrder None (order_row order 1 ms) (sv_db st)))" for ms
    by (auto simp: StoreSwapOrder_def stored_def order_row_def Let_def)
  with True wrap_by_key_trace [OF w] ok_allD [OF wrap_by_key_pays w] show ?thesis
    by (auto simp: pays_one_def)
qed (use assms in \<open>auto simp: dealWrapOrder_eq split: if_splits\<close>)

section \<open>Unwrap orders\<close>

text \<open>C15: an unwrap by the server's own Shimmer key or by the signing group is paid once per stored
  order. When \<open>dealUnWrapOrder\<close> for such a token asks for a payment, the order was not in the
  database before and is there afterwards, so that neither the daily reset nor a restart pays it
  again. The group is asked only when no account of the configuration has an entry older than
  300 seconds; an account that has never reported has none.\<close>

theorem dealUnWrapOrder_once_per_row:
  assumes "dealUnWrapOrder E (Some t1) order st = Some (Ok st')" and "MultiSignType_src t1 \<noteq> EvmMultiSign"
    and "sv_trace st' \<noteq> sv_trace st"
  shows "so_TxID order \<notin> stored (sv_db st) \<and> so_TxID order \<in> stored (sv_db st') \<and>
    so_ToToken order = Symbol_src t1 \<and> so_TxID order \<notin> dom (sv_dealed st) \<and>
    (MultiSignType_src t1 = SmpcSign \<longrightarrow> (\<forall>a \<in> set (sc_Accounts (cf_Smpc (en_conf E))). \<forall>ts.
       tbl_service (sv_db st) a = Some ts \<longrightarrow> en_now E - 300 \<le> ts))"
proof -
  have allowed: "unwrap_allowed E t1 order st" and row: "snd (unwrap_row E order st) = None"
    using assms by (auto simp: dealUnWrapOrder_eq split: if_splits)
  have "pays_one (so_TxID order) (taken E order (- 1) st) st'"
    using assms allowed row ok_allD [OF unwrap_by_key_pays]
      unwrap_by_group_pays [of order "taken E order (- 1) st" E t1 "fst (unwrap_row E order st)"]
    by (auto simp: dealUnWrapOrder_eq split: if_splits)
  then have db: "sv_db st' = fst (StoreSwapOrder (en_store E) (order_row order (- 1) (en_now_ms E)) (sv_db st))"
    by (simp add: pays_one_def)
  obtain db' wo where s: "StoreSwapOrder (en_store E) (order_row order (- 1) (en_now_ms E)) (sv_db st) = (db', wo, None)"
    using row by (cases "StoreSwapOrder (en_store E) (order_row order (- 1) (en_now_ms E)) (sv_db st)")
      (auto simp: unwrap_row_def)
  have "wo_TxID (order_row order (- 1) (en_now_ms E)) = so_TxID order" by (simp add: order_row_def)
  moreover have "sv_db st' = db'" using db s by simp
  ultimately show ?thesis
    using StoreSwapOrder_None [OF s] allowed no_overdue by (auto simp: unwrap_allowed_def)
qed

end
