(* ===== verification/Server_Tasks.thy ===== *)
theory Server_Tasks
  imports Server_Props
begin

text \<open>
  Properties of the periodic tasks of package server: which sign requests \<open>Accept\<close> agrees to, what
  the rechecks do to sent transactions, and the handling of records of the error contract.
\<close>

section \<open>Accept\<close>

lemma accept_checks_Ok:
  assumes "accept_checks E d st = Ok u"
  obtains ctx msgHash mc t1 t2 baseTx amount where "sg_MsgContext d = [ctx]" "sg_MsgHash d = [msgHash]"
    "en_ctx_Unmarshal E ctx = Inr mc"
    "request_age E mc \<le> vc_AcceptOverTime (cf_Server (en_conf E))"
    "mc_Method mc = UnwrapMethod" "sv_src st (mc_SrcToken mc) = Some t1" "sv_dest st (mc_DestToken mc) = Some t2"
    "ValiditeUnWrapTxData_src E t1 (FromHex (en_L E) msgHash) (mc_TxData mc) = Ok baseTx"
    "bt_Amount baseTx = Some amount"
    "CheckUnWrapTx_evm (en_L E) (en_eth E t2) (bt_Txid baseTx) (bt_To baseTx) (Symbol_src t1) amount = Ok ()"
proof -
  from assms obtain c where c: "sg_MsgContext d = [c]"
    by (auto simp: accept_checks_def split: list.splits)
  from assms c obtain h where h: "sg_MsgHash d = [h]"
    by (auto simp: accept_checks_def split: list.splits)
  from assms c h obtain mc where mc: "en_ctx_Unmarshal E c = Inr mc"
    by (auto simp: accept_checks_def split: sum.splits)
  from assms c h mc obtain t1 t2 where t: "request_age E mc \<le> vc_AcceptOverTime (cf_Server (en_conf E))"
    "sv_src st (mc_SrcToken mc) = Some t1" "sv_dest st (mc_DestToken mc) = Some t2"
    "mc_Method mc = UnwrapMethod"
    by (auto simp: accept_checks_def not_less split: if_splits option.splits)
  from assms c h mc t obtain b where b:
    "ValiditeUnWrapTxData_src E t1 (FromHex (en_L E) h) (mc_TxData mc) = Ok b"
    "(case bt_Amount b of None \<Rightarrow> Panic ''nil pointer dereference''
      | Some amount \<Rightarrow> CheckUnWrapTx_evm (en_L E) (en_eth E t2) (bt_Txid b) (bt_To b) (Symbol_src t1) amount) = Ok u"
    by (auto simp: accept_checks_def obind_Ok_conv)
  then obtain am where "bt_Amount b = Some am" by (cases "bt_Amount b") auto
  with b t c h mc that show ?thesis by simp
qed

lemma accept_info_trace:
  assumes "accept_info E d st = Ok (st', nxt)" and "sv_trace st' \<noteq> sv_trace st"
  shows "accept_checks E d st = Ok () \<and> \<not> sv_accepted st (sg_Key d) \<and>
    (\<exists>calls. sv_trace st' = sv_trace st @ [SignAccepted (sg_Key d) calls])"
proof -
  have ok: "accept_checks E d st = Ok ()"
    using assms by (cases "accept_checks E d st") (auto simp: accept_info_def)
  obtain a fresh where c: "claim_key (sg_Key d) (sv_accepted st) = (a, fresh)" by fastforce
  have fresh using assms ok c by (cases fresh) (auto simp: accept_info_def)
  then have n: "\<not> sv_accepted st (sg_Key d)" using c by (auto simp: claim_key_def split: if_splits)
  have "ok_all (\<lambda>(st', nxt). sv_trace st' = sv_trace st \<or>
      (\<exists>calls. sv_trace st' = sv_trace st @ [SignAccepted (sg_Key d) calls])) (accept_info E d st)"
    unfolding accept_info_def c by (auto simp: Let_def intro!: ok_allI split: outcome.split sum.split prod.split)
  from ok_allD [OF this assms(1)] assms(2) ok n show ?thesis by auto
qed

text \<open>C2: a validator agrees only to unwraps the users asked for. \<open>Accept\<close> calls \<open>AcceptSign\<close> only
  for a request that is not over its time, names tokens of the bridge and the unwrap method,
  and whose hash is that of a source chain transaction paying a target and an amount, for which
  a mined transaction on the destination chain, the one named in the tag, calls unwrap with that
  target, the token's symbol and at least that amount; and only for a key it has not accepted.\<close>

theorem accept_only_user_unwraps:
  assumes "accept_info E d st = Ok (st', nxt)" and "sv_trace st' \<noteq> sv_trace st"
  shows "\<exists>ctx msgHash mc t1 t2 baseTx amount tx. sg_MsgContext d = [ctx] \<and> sg_MsgHash d = [msgHash] \<and>
    en_ctx_Unmarshal E ctx = Inr mc \<and> mc_Method mc = ''unwrap'' \<and>
    request_age E mc \<le> vc_AcceptOverTime (cf_Server (en_conf E)) \<and>
    sv_src st (mc_SrcToken mc) = Some t1 \<and> sv_dest st (mc_DestToken mc) = Some t2 \<and>
    ValiditeUnWrapTxData_src E t1 (FromHex (en_L E) msgHash) (mc_TxData mc) = Ok baseTx \<and>
    bt_Amount baseTx = Some amount \<and>
    TransactionByHash (en_eth E t2) (BytesToHash (en_L E) (bt_Txid baseTx)) = Inr (tx, False) \<and>
    unwrap_call (en_L E) (tx_Data tx) (bt_To baseTx) (Symbol_src t1) amount \<and>
    \<not> sv_accepted st (sg_Key d) \<and> (\<exists>calls. sv_trace st' = sv_trace st @ [SignAccepted (sg_Key d) calls])"
proof -
  note tr = accept_info_trace [OF assms]
  then have "accept_checks E d st = Ok ()" by blast
  then show ?thesis
  proof (rule accept_checks_Ok)
    fix ctx msgHash mc t1 t2 baseTx amount
    assume a: "sg_MsgContext d = [ctx]" "sg_MsgHash d = [msgHash]" "en_ctx_Unmarshal E ctx = Inr mc"
      "request_age E mc \<le> vc_AcceptOverTime (cf_Server (en_conf E))" "mc_Method mc = UnwrapMethod"
      "sv_src st (mc_SrcToken mc) = Some t1" "sv_dest st (mc_DestToken mc) = Some t2"
      "ValiditeUnWrapTxData_src E t1 (FromHex (en_L E) msgHash) (mc_TxData mc) = Ok baseTx"
      "bt_Amount baseTx = Some amount"
      and c: "CheckUnWrapTx_evm (en_L E) (en_eth E t2) (bt_Txid baseTx) (bt_To baseTx) (Symbol_src t1) amount = Ok ()"
    then obtain tx where "TransactionByHash (en_eth E t2) (BytesToHash (en_L E) (bt_Txid baseTx)) = Inr (tx, False)"
      "check_unwrap_data (en_L E) (tx_Data tx) (bt_To baseTx) (Symbol_src t1) amount = Ok ()"
      by (auto simp: CheckUnWrapTx_evm_def obind_Ok_conv of_rpc_Ok_conv split: if_splits)
    with a tr show ?thesis by (auto simp: check_unwrap_data_iff UnwrapMethod_def)
  qed
qed

lemma accept_info_accepts:
  assumes "accept_checks E d st = Ok ()" and "\<not> sv_accepted st (sg_Key d)"
    and "env_key E ''smpc'' = Ok (Inr k)" and "sm_client (en_smpc E) = Some call"
  shows "\<exists>calls. accept_info E d st = Ok (traced (SignAccepted (sg_Key d) calls)
    (st\<lparr>sv_accepted := (sv_accepted st)(sg_Key d := True)\<rparr>), GoOn)"
proof -
  obtain addr prv where k: "k = (addr, prv)" by fastforce
  obtain res calls where a: "AcceptSign (en_L E) (en_S E) (en_smpc E) (en_now_ms E) d True prv = (res, calls)"
    by fastforce
  then obtain e where "res = Ok e"
    using assms(4) by (auto simp: AcceptSign_def client_Call_def Let_def split: sum.splits)
  with assms k a show ?thesis by (auto simp: accept_info_def claim_key_def)
qed

text \<open>C39: acceptance is per request, not per user transaction. When a request is listed twice under
  different keys, a validator agrees to both, although they pay the same unwrap transaction of the
  user: \<open>acceptedTxes\<close> is keyed by the request's key.\<close>

theorem accept_not_per_transaction:
  assumes "accept_checks E d st = Ok ()" and "\<not> sv_accepted st (sg_Key d)" and "\<not> sv_accepted st key"
    and "key \<noteq> sg_Key d" and "env_key E ''smpc'' = Ok (Inr k)" and "sm_client (en_smpc E) = Some call"
  shows "\<exists>st' c1 c2. accept_infos E [d, d\<lparr>sg_Key := key\<rparr>] st = Ok (st', GoOn) \<and>
    sv_trace st' = sv_trace st @ [SignAccepted (sg_Key d) c1, SignAccepted key c2]"
proof -
  obtain c1 where one: "accept_info E d st = Ok (traced (SignAccepted (sg_Key d) c1)
      (st\<lparr>sv_accepted := (sv_accepted st)(sg_Key d := True)\<rparr>), GoOn)"
    using accept_info_accepts assms by blast
  define st1 where "st1 = traced (SignAccepted (sg_Key d) c1) (st\<lparr>sv_accepted := (sv_accepted st)(sg_Key d := True)\<rparr>)"
  have "accept_checks E (d\<lparr>sg_Key := key\<rparr>) st1 = Ok ()"
    using assms(1) by (rule accept_checks_Ok) (simp add: accept_checks_def st1_def)
  moreover have "\<not> sv_accepted st1 (sg_Key (d\<lparr>sg_Key := key\<rparr>))" using assms by (simp add: st1_def)
  ultimately obtain c2 where "accept_info E (d\<lparr>sg_Key := key\<rparr>) st1 = Ok (traced (SignAccepted key c2)
      (st1\<lparr>sv_accepted := (sv_accepted st1)(key := True)\<rparr>), GoOn)"
    using accept_info_accepts [of E "d\<lparr>sg_Key := key\<rparr>" st1 k call] assms by auto
  with one show ?thesis by (auto simp: st1_def traced_def)
qed

section \<open>Rechecking unwrap transactions\<close>

text \<open>C21: no sent unwrap is forgotten. A turn of \<open>RecheckIota\<close> in which no call of the database fails takes
  the oldest sent transaction: one whose state the node cannot tell goes back to the end of the queue and
  nothing else changes, a confirmed one gets state 1 and its hash in the order table, and a conflicting
  one leaves the order table for the error table with state 2. Every other entry of the queue stays in
  its order, and nothing is paid.\<close>

theorem recheck_iota_turn_cases:
  assumes "iota_ok (sv_iota st)" and "iota_items (sv_iota st) = (wo, t) # rest"
    and "CheckSentTx_src E t (hex_decoded (wo_Hash wo)) = (b, err)"
  shows "\<exists>st'. recheck_iota_turn E None \<lparr>f_begin = None, f_delete = None, f_insert = None, f_commit = None\<rparr> st
      = Ok st' \<and> sv_trace st' = sv_trace st \<and>
    iota_items (sv_iota st') = rest @ (if b \<and> err \<noteq> None then [(wo, t)] else []) \<and>
    sv_db st' = (if b \<and> err \<noteq> None then sv_db st
      else if b then (sv_db st)\<lparr>tbl_swap := map (\<lambda>r. if wo_TxID r = wo_TxID wo
        then r\<lparr>wo_Hash := wo_Hash wo, wo_State := 1\<rparr> else r) (tbl_swap (sv_db st))\<rparr>
      else (sv_db st)\<lparr>tbl_swap := filter (\<lambda>r. wo_TxID r \<noteq> wo_TxID wo) (tbl_swap (sv_db st)),
        tbl_error := tbl_error (sv_db st) @ [wo\<lparr>wo_State := 2\<rparr>]\<rparr>)"
proof -
  obtain q where q: "iota_pop (sv_iota st) = Ok (q, Some (wo, t))" "iota_ok q" "iota_items q = rest"
    using iota_pop_ok [OF assms(1)] assms(2) by auto
  have p: "iota_items (iota_push wo t q) = rest @ [(wo, t)]"
    using q(2,3) by (auto simp: iota_items_def iota_push_def iota_ok_def)
  show ?thesis
    using assms(3) q p
    by (cases b; cases err) (auto simp: recheck_iota_turn_def Let_def UpdateChainRecord_def MoveOrderToError_def)
qed

section \<open>Rechecking EVM transactions\<close>

definition calls_only :: "eth_env \<Rightarrow> bool" where
  "calls_only N \<longleftrightarrow> (\<forall>h tx p. TransactionByHash N h = Inr (tx, p) \<longrightarrow> tx_To tx \<noteq> None)"

lemma CheckPendingAndSpeedUp_total:
  "calls_only N \<Longrightarrow> \<exists>x. fst (CheckPendingAndSpeedUp N t h prv) = Ok x"
  by (fastforce simp: CheckPendingAndSpeedUp_def calls_only_def Let_def
      split: sum.split prod.split option.split)

lemma recheck_decide_total:
  assumes "crypto_lib_ok (en_C E)" and "calls_only (en_eth E t)"
  shows "\<exists>c. recheck_decide E h t ts = Ok c \<and> (c \<noteq> Stay \<longrightarrow> cf_PendingTime (en_conf E) \<le> en_now E - ts)"
proof (cases "en_now E - ts < cf_PendingTime (en_conf E) \<or> en_now E - ts > sint (3 * word_of_int (cf_PendingTime (en_conf E)) :: i64)")
  case True
  then show ?thesis by (auto simp: recheck_decide_def Let_def)
next
  case False
  obtain key where key: "env_key E (Symbol_evm t) = Ok key" using env_key_total [OF assms(1)] by blast
  show ?thesis
  proof (cases key)
    case (Inr k)
    obtain addr prv where k: "k = (addr, prv)" by fastforce
    obtain h' err where "fst (CheckPendingAndSpeedUp (en_eth E t) t h prv) = Ok (h', err)"
      using CheckPendingAndSpeedUp_total [OF assms(2), of t h prv] by auto
    then show ?thesis using False key Inr k by (auto simp: recheck_decide_def Let_def)
  qed (use False key in \<open>simp add: recheck_decide_def Let_def\<close>)
qed

text \<open>What a round or the loop makes of the entries: some old ones in front are gone, and the one
  then in front may have been replaced now.\<close>

definition old_entry :: "server_env \<Rightarrow> bytes \<times> evm_token \<times> int \<Rightarrow> bool" where
  "old_entry E x \<longleftrightarrow> cf_PendingTime (en_conf E) \<le> en_now E - snd (snd x)"

definition rechecked :: "server_env \<Rightarrow> (bytes \<times> evm_token \<times> int) list \<Rightarrow> (bytes \<times> evm_token \<times> int) list \<Rightarrow> bool"
  where
  "rechecked E xs ys \<longleftrightarrow> (\<exists>n. list_all (old_entry E) (take n xs) \<and> (ys = drop n xs \<or>
     (\<exists>x rest h'. drop n xs = x # rest \<and> old_entry E x \<and> ys = (h', fst (snd x), en_now E) # rest)))"

lemma rechecked_refl [simp]: "rechecked E xs xs"
  unfolding rechecked_def by (intro exI [of _ 0]) simp

lemma rechecked_replace: "old_entry E (h, t, ts) \<Longrightarrow> rechecked E ((h, t, ts) # xs) ((h', t, en_now E) # xs)"
  unfolding rechecked_def by (intro exI [of _ 0]) simp

lemma rechecked_drop:
  assumes "old_entry E x" and "rechecked E xs ys" shows "rechecked E (x # xs) ys"
proof -
  from assms(2) obtain n where "list_all (old_entry E) (take n xs)" "ys = drop n xs \<or>
     (\<exists>x rest h'. drop n xs = x # rest \<and> old_entry E x \<and> ys = (h', fst (snd x), en_now E) # rest)"
    unfolding rechecked_def by blast
  with assms(1) show ?thesis unfolding rechecked_def by (intro exI [of _ "Suc n"]) simp
qed

lemma recheck_round_total:
  assumes "crypto_lib_ok (en_C E)" and "\<forall>t. calls_only (en_eth E t)" and "evm_ok q"
  shows "\<exists>q' b. recheck_round E q = Ok (q', b) \<and> evm_ok q' \<and>
    (b \<longrightarrow> (\<exists>x. evm_items q = x # evm_items q' \<and> old_entry E x)) \<and> (\<not> b \<longrightarrow> rechecked E (evm_items q) (evm_items q'))"
proof (cases "evm_items q")
  case Nil
  with evm_Top_ok [OF assms(3)] assms(3) show ?thesis by (auto simp: recheck_round_def)
next
  case (Cons x xs)
  obtain h t ts where x: "x = (h, t, ts)" by (cases x) auto
  have top: "evm_Top q = Ok (h, Some t, ts)" using evm_Top_ok [OF assms(3)] Cons x by simp
  obtain c where c: "recheck_decide E h t ts = Ok c"
    and old: "c \<noteq> Stay \<longrightarrow> cf_PendingTime (en_conf E) \<le> en_now E - ts"
    using recheck_decide_total assms(1,2) by blast
  obtain qp where pop: "evm_Pop q = Ok qp" "evm_ok qp" "evm_items qp = xs"
    using evm_Pop_ok [OF assms(3)] Cons by auto
  show ?thesis
  proof (cases "ts = 0")
    case True
    with top assms(3) show ?thesis by (auto simp: recheck_round_def)
  next
    case ts: False
    show ?thesis
    proof (cases c)
      case (ReplaceTx h')
      obtain qu where "evm_UpdateTop h' t (en_now E) q = Ok qu" "evm_ok qu" "evm_items qu = (h', t, en_now E) # xs"
        using evm_UpdateTop_ok [OF assms(3), of h' t "en_now E"] Cons by auto
      with top c ReplaceTx ts old Cons x show ?thesis
        by (auto simp: recheck_round_def rechecked_replace old_entry_def)
    qed (use top c ts old pop Cons x assms(3) in \<open>auto simp: recheck_round_def old_entry_def\<close>)
  qed
qed

text \<open>C19: a recheck of an EVM queue returns and loses no young transaction. When the chain's node
  reports calls (not contract creations), the loop of \<open>recheckEvmTx\<close> ends without a panic; it has removed
  only entries from the front that were sent at least \<open>PendingTime\<close> ago, and the rest is as it was,
  except that the entry then in front may have been replaced by its speed-up, sent now.\<close>

theorem recheck_loop_keeps_young:
  assumes "crypto_lib_ok (en_C E)" and "\<forall>t. calls_only (en_eth E t)" and "evm_ok q"
  shows "\<exists>q'. recheck_loop E q = Ok q' \<and> evm_ok q' \<and> rechecked E (evm_items q) (evm_items q')"
  using assms
proof (induction E q rule: recheck_loop.induct)
  case (1 E q)
  obtain q1 b where r: "recheck_round E q = Ok (q1, b)" "evm_ok q1"
    "b \<longrightarrow> (\<exists>x. evm_items q = x # evm_items q1 \<and> old_entry E x)"
    "\<not> b \<longrightarrow> rechecked E (evm_items q) (evm_items q1)"
    using recheck_round_total [OF "1.prems"] by blast
  show ?case
  proof (cases b)
    case True
    from "1.IH" [OF r(1) refl True "1.prems"(1,2) r(2)] True r show ?thesis
      by (auto simp: recheck_loop.simps [of E q] rechecked_drop)
  qed (use r in \<open>auto simp: recheck_loop.simps [of E q]\<close>)
qed

text \<open>Handlers may push while a recheck is under way. A round on a queue that is not empty and a
  push commute, so a transaction sent in the middle of a recheck is neither lost nor moved.\<close>

theorem recheck_round_push:
  assumes "evm_ok q" and "evm_items q \<noteq> []" and "recheck_round E q = Ok (q', b)"
  shows "recheck_round E (evm_Push h t ts q) = Ok (evm_Push h t ts q', b)"
proof -
  from assms(1,2) obtain g gs c cs u us where q: "q = \<lparr>q_txHashs = g # gs, q_chains = c # cs, q_times = u # us\<rparr>"
    by (auto elim: evm_items_cases)
  have top: "evm_Top q = Ok (g, Some c, u)" "evm_Top (evm_Push h t ts q) = Ok (g, Some c, u)"
    by (simp_all add: q evm_Push_def evm_Top_def go_simps)
  have pop: "evm_Pop (evm_Push h t ts q) = obind (evm_Pop q) (\<lambda>q. Ok (evm_Push h t ts q))"
    by (simp add: q evm_Push_def evm_Pop_def go_simps)
  have upd: "evm_UpdateTop a x y (evm_Push h t ts q) = obind (evm_UpdateTop a x y q) (\<lambda>q. Ok (evm_Push h t ts q))"
    for a x y by (simp add: q evm_Push_def evm_UpdateTop_def)
  show ?thesis
  proof (cases "u = 0")
    case False
    with assms(3) top obtain choice where d: "recheck_decide E g c u = Ok choice"
      by (auto simp: recheck_round_def obind_Ok_conv)
    show ?thesis
      using assms(3) False top d pop upd by (cases choice) (auto simp: recheck_round_def obind_Ok_conv)
  qed (use assms(3) top in \<open>simp add: recheck_round_def\<close>)
qed

section \<open>Error records\<close>

text \<open>The error contract cannot make the server pay twice for a transaction it has served on an
  EVM chain: a record whose transaction is among the served ones changes nothing, whoever wrote
  the record and whatever the token says about it.\<close>

theorem served_record_ignored:
  assumes "map_Exist (ter_Txid o1) (sv_users st)" and "dealTxErrorRecord E o1 st = Some (Ok st')"
  shows "st' = st"
  using assms by (auto simp: dealTxErrorRecord_def Let_def split: option.splits outcome.splits prod.splits)

text \<open>C38: for the Shimmer token a record is not checked at all. \<open>CheckUserTx\<close> of tokens/smr confirms
  every transaction with empty addresses and no amount, so that any record that names this token
  makes the server handle an order under a new id of the recorder's choice: when the insert works, a row
  without addresses is stored; the only call that can pay is \<open>SendWrap\<close>, which refuses the zero address and broadcasts no
  transaction; and a later order with that id is passed over.\<close>

theorem shimmer_record_blocks_id:
  assumes "sv_src st (ter_FromCoin o1) = Some (SmrTok t)" and "ter_D o1 = 1"
    and "sv_dest st (ter_ToCoin o1) = Some t2" and "Symbol_evm t2 = ter_ToCoin o1"
    and "\<not> map_Exist (ter_Txid o1) (sv_users st)"
    and "hexutil_Encode (en_L E) (ter_Txid o1) \<notin> dom (sv_dealed st) \<union> stored (sv_db st)"
    and "crypto_lib_ok (en_C E)" and "HexToAddress (en_L E) [] = replicate 20 0" and "en_store E = None"
  shows "\<exists>st'. dealTxErrorRecord E o1 st = Some (Ok st') \<and>
    hexutil_Encode (en_L E) (ter_Txid o1) \<in> dom (sv_dealed st') \<and>
    (\<exists>r \<in> set (tbl_swap (sv_db st')). wo_TxID r = hexutil_Encode (en_L E) (ter_Txid o1) \<and> wo_To r = [] \<and>
       wo_Amount r = ''<nil>'') \<and>
    (sv_trace st' = sv_trace st \<or> sv_trace st' = sv_trace st @ [WrapSent (hexutil_Encode (en_L E) (ter_Txid o1)) None []]) \<and>
    (\<forall>prv. SendWrap_evm (en_L E) (en_eth E t2) t2 (hexutil_Encode (en_L E) (ter_Txid o1)) None [] prv =
       (Err (Errorf ''to address error. ''), [])) \<and>
    (\<forall>order. so_TxID order = hexutil_Encode (en_L E) (ter_Txid o1) \<longrightarrow> dealWrapOrder E (Some t2) order st' = Ok st')"
proof -
  define order where "order = \<lparr>so_TxID = hexutil_Encode (en_L E) (ter_Txid o1), so_FromToken = ter_FromCoin o1,
    so_ToToken = ter_ToCoin o1, so_From = [], so_To = [], so_Amount = None, so_Org = [], so_Error = None, so_Type = 0\<rparr>"
  have run: "dealTxErrorRecord E o1 st = Some (dealWrapOrder E (Some t2) order st)"
    using assms by (simp add: dealTxErrorRecord_def CheckUserTx_smr_def order_def)
  have fresh: "so_TxID order \<notin> dom (sv_dealed st)" "so_ToToken order = Symbol_evm t2" "so_To order = []"
    "so_TxID order \<notin> stored (sv_db st)" "so_Amount order = None"
    using assms by (simp_all add: order_def)
  obtain key where key: "env_key E (Symbol_evm t2) = Ok key" using env_key_total [OF assms(7)] by blast
  have "\<exists>st'. wrap_by_key E t2 order (taken E order 1 st) = Ok st'"
    using key assms(8) fresh(3)
    by (cases key) (auto simp: wrap_by_key_def SendWrap_evm_def send_call_def)
  then obtain st' where w: "wrap_by_key E t2 order (taken E order 1 st) = Ok st'" by blast
  have st': "sv_dealed st' = (sv_dealed st)(so_TxID order \<mapsto> True)"
    "sv_db st' = fst (StoreSwapOrder None (order_row order 1 (en_now_ms E)) (sv_db st))"
    using ok_allD [OF wrap_by_key_pays w] assms(9) by (simp_all add: pays_one_def)
  have row: "\<exists>r \<in> set (tbl_swap (sv_db st')). wo_TxID r = so_TxID order \<and> wo_To r = [] \<and> wo_Amount r = ''<nil>''"
    using fresh by (auto simp: st' StoreSwapOrder_def order_row_def stored_def amount_text_def Let_def)
  have "dealWrapOrder E (Some t2) other st' = Ok st'" if "so_TxID other = so_TxID order" for other
    using that by (simp add: dealWrapOrder_eq st')
  moreover have "sv_trace st' = sv_trace st \<or> sv_trace st' = sv_trace st @ [WrapSent (so_TxID order) None []]"
    using wrap_by_key_trace [OF w] fresh by (auto split: outcome.splits sum.splits)
  moreover have "SendWrap_evm (en_L E) (en_eth E t2) t2 txid None [] prv = (Err (Errorf ''to address error. ''), [])"
    for txid prv using assms(8) by (simp add: SendWrap_evm_def send_call_def)
  ultimately show ?thesis
    using run w row fresh by (auto simp: dealWrapOrder_eq st' order_def)
qed

end
