(* ===== verification/Server_Listen.thy ===== *)
theory Server_Listen
  imports Server_Props
begin

text \<open>
  The listeners of wrap and unwrap orders as a whole: what \<open>listenWrap\<close> pays for what a source chain
  delivers, and \<open>listenUnWrap\<close> on an EVM source chain for what the other chain delivers, against a
  specification that knows neither queues, nor the database, nor the keystores. The loop is the
  locale \<open>paying_listener\<close>, which both interpret.
\<close>

section \<open>Specification\<close>

text \<open>The payments for the orders of a channel, given the token's minimum, the destination's symbol
  and the ids that were handled before. Orders after a lost connection (an error of type 0) are left
  to the next listener.\<close>

fun payments :: "(string \<Rightarrow> int option \<Rightarrow> string \<Rightarrow> effect) \<Rightarrow> int \<Rightarrow> string \<Rightarrow> string set \<Rightarrow> swap_order list
    \<Rightarrow> effect list" where
  "payments send m symbol seen [] = []"
| "payments send m symbol seen (order # orders) =
     (if so_Error order \<noteq> None
      then if so_Type order = 0 then [] else payments send m symbol seen orders
      else if the (so_Amount order) < m \<or> so_ToToken order \<noteq> symbol \<or> so_TxID order \<in> seen
      then payments send m symbol seen orders
      else send (so_TxID order) (so_Amount order) (so_To order) #
        payments send m symbol (insert (so_TxID order) seen) orders)"

text \<open>The ids that count as handled after these orders.\<close>

fun seen_after :: "int \<Rightarrow> string \<Rightarrow> string set \<Rightarrow> swap_order list \<Rightarrow> string set" where
  "seen_after m symbol seen [] = seen"
| "seen_after m symbol seen (order # orders) =
     (if so_Error order \<noteq> None
      then if so_Type order = 0 then seen else seen_after m symbol seen orders
      else if the (so_Amount order) < m \<or> so_ToToken order \<noteq> symbol \<or> so_TxID order \<in> seen
      then seen_after m symbol seen orders
      else seen_after m symbol (insert (so_TxID order) seen) orders)"

text \<open>The same over days. An id counts as seen until the next day; an id that is also \<open>kept\<close> stays
  seen. \<open>keep\<close> tells whether a payment is kept.\<close>

fun daily_payments :: "(string \<Rightarrow> int option \<Rightarrow> string \<Rightarrow> effect) \<Rightarrow> int \<Rightarrow> string \<Rightarrow> bool \<Rightarrow> string set
    \<Rightarrow> string set \<Rightarrow> arrival list \<Rightarrow> effect list" where
  "daily_payments send m symbol keep seen kept [] = []"
| "daily_payments send m symbol keep seen kept (NextDay # as) = daily_payments send m symbol keep kept kept as"
| "daily_payments send m symbol keep seen kept (Delivered order # as) =
     (if so_Error order \<noteq> None \<or> the (so_Amount order) < m \<or> so_ToToken order \<noteq> symbol \<or> so_TxID order \<in> seen
      then daily_payments send m symbol keep seen kept as
      else send (so_TxID order) (so_Amount order) (so_To order) #
        daily_payments send m symbol keep (insert (so_TxID order) seen)
          (if keep then insert (so_TxID order) kept else kept) as)"

text \<open>The connections of a listener, one after the other: a lost one is followed by the next, and each
  delivers what comes before the error that ends it.\<close>

definition continues :: "arrival \<Rightarrow> bool" where
  "continues a = (case a of Delivered order \<Rightarrow> goes_on order | NextDay \<Rightarrow> True)"

lemma continues_simps [simp]: "continues NextDay" "continues (Delivered order) = goes_on order"
  by (simp_all add: continues_def)

fun delivered :: "arrival list list \<Rightarrow> arrival list" where
  "delivered [] = []"
| "delivered (c # cs) = takeWhile continues c @ (if list_all continues c then [] else delivered cs)"

abbreviation wrap_payments :: "int \<Rightarrow> string \<Rightarrow> string set \<Rightarrow> swap_order list \<Rightarrow> effect list" where
  "wrap_payments \<equiv> payments WrapSent"

abbreviation unwrap_payments :: "int \<Rightarrow> string \<Rightarrow> string set \<Rightarrow> swap_order list \<Rightarrow> effect list" where
  "unwrap_payments \<equiv> payments UnWrapSent"

text \<open>Every order of the channel that has no error carries an amount.\<close>

definition with_amounts :: "swap_order list \<Rightarrow> bool" where
  "with_amounts orders \<longleftrightarrow> (\<forall>order \<in> set orders. so_Error order = None \<longrightarrow> so_Amount order \<noteq> None)"

lemma with_amounts_Cons:
  "with_amounts (order # orders) \<longleftrightarrow> (so_Error order = None \<longrightarrow> so_Amount order \<noteq> None) \<and> with_amounts orders"
  by (auto simp: with_amounts_def)

section \<open>The loop\<close>

text \<open>A loop over a channel and its handler. In a state that is ready, the handler passes over an order
  for another token or with an id it has seen, and pays every other order once.\<close>

locale paying_listener =
  fixes listen :: "nat \<Rightarrow> swap_order list \<Rightarrow> server \<Rightarrow> server option"
    and handle :: "nat \<Rightarrow> swap_order \<Rightarrow> server \<Rightarrow> server option"
    and ready :: "server \<Rightarrow> bool"
    and seen :: "server \<Rightarrow> string set"
    and least :: int
    and symbol :: string
    and send :: "string \<Rightarrow> int option \<Rightarrow> string \<Rightarrow> effect"
  assumes listen_Nil: "listen i [] st = Some st"
    and listen_Cons: "ready st \<Longrightarrow> so_Error order = None \<longrightarrow> so_Amount order \<noteq> None \<Longrightarrow>
      listen i (order # orders) st =
        (if so_Error order \<noteq> None then if so_Type order = 0 then Some st else listen (i + 1) orders st
         else if the (so_Amount order) < least then listen (i + 1) orders st
         else Option.bind (handle i order st) (listen (i + 1) orders))"
    and handle_passed: "ready st \<Longrightarrow> so_Amount order = Some am \<Longrightarrow>
      so_ToToken order \<noteq> symbol \<or> so_TxID order \<in> seen st \<Longrightarrow> \<exists>st'. handle i order st = Some st' \<and> ready st' \<and>
        seen st' = seen st \<and> sv_trace st' = sv_trace st"
    and handle_paid: "ready st \<Longrightarrow> so_Amount order = Some am \<Longrightarrow> so_ToToken order = symbol \<Longrightarrow>
      so_TxID order \<notin> seen st \<Longrightarrow> \<exists>st'. handle i order st = Some st' \<and> ready st' \<and>
        seen st' = insert (so_TxID order) (seen st) \<and>
        sv_trace st' = sv_trace st @ [send (so_TxID order) (Some am) (so_To order)]"
begin

lemma listen_pays:
  "ready st \<Longrightarrow> with_amounts orders \<Longrightarrow> \<exists>st'. listen i orders st = Some st' \<and> ready st' \<and>
     seen st' = seen_after least symbol (seen st) orders \<and>
     sv_trace st' = sv_trace st @ payments send least symbol (seen st) orders"
proof (induction orders arbitrary: i st)
  case (Cons order orders)
  have am: "so_Error order = None \<longrightarrow> so_Amount order \<noteq> None" "with_amounts orders"
    using Cons.prems(2) by (simp_all add: with_amounts_Cons)
  note step = listen_Cons [OF Cons.prems(1) am(1), of i orders]
  note later = Cons.IH [OF Cons.prems(1) am(2), of "i + 1"]
  show ?case
  proof (cases "so_Error order")
    case (Some e)
    with step later Cons.prems(1) show ?thesis by simp
  next
    case None
    with am(1) obtain a where a: "so_Amount order = Some a" by blast
    let ?passed = "so_ToToken order \<noteq> symbol \<or> so_TxID order \<in> seen st"
    consider (small) "a < least" | (passed) "\<not> a < least" ?passed | (new) "\<not> a < least" "\<not> ?passed" by blast
    then show ?thesis
    proof cases
      case small
      then show ?thesis using step later None a by simp
    next
      case passed
      obtain st1 where one: "handle i order st = Some st1" "ready st1" "seen st1 = seen st" "sv_trace st1 = sv_trace st"
        using handle_passed [OF Cons.prems(1) a passed(2), of i] by (elim exE conjE) (rule that)
      show ?thesis using step None a passed one Cons.IH [OF one(2) am(2), of "i + 1"] by simp
    next
      case new
      then have n: "so_ToToken order = symbol" "so_TxID order \<notin> seen st" by simp_all
      obtain st1 where one: "handle i order st = Some st1" "ready st1" "seen st1 = insert (so_TxID order) (seen st)"
        "sv_trace st1 = sv_trace st @ [send (so_TxID order) (Some a) (so_To order)]"
        using handle_paid [OF Cons.prems(1) a n, of i] by (elim exE conjE) (rule that)
      from Cons.IH [OF one(2) am(2), of "i + 1"] obtain st' where st': "listen (i + 1) orders st1 = Some st'" "ready st'"
        "seen st' = seen_after least symbol (seen st1) orders" "sv_trace st' = sv_trace st1 @ payments send least symbol (seen st1) orders" by blast
      have "listen i (order # orders) st = Some st'" using step None a new one(1) st'(1) by simp
      then show ?thesis using new one(3,4) None a st'(2-4) by simp
    qed
  qed
qed (simp add: listen_Nil)

end

text \<open>A listener that connects again, day after day.\<close>

definition days_amounts :: "arrival list list \<Rightarrow> bool" where
  "days_amounts cs \<longleftrightarrow> (\<forall>c \<in> set cs. \<forall>order. Delivered order \<in> set c \<longrightarrow> so_Error order = None \<longrightarrow> so_Amount order \<noteq> None)"

locale reconnecting_listener = paying_listener +
  fixes days :: "nat \<Rightarrow> arrival list \<Rightarrow> server \<Rightarrow> (server \<times> bool) option"
    and loop :: "nat \<Rightarrow> arrival list list \<Rightarrow> server \<Rightarrow> server option"
    and kept :: "server \<Rightarrow> string set"
    and keep :: bool
  assumes handle_kept: "ready st \<Longrightarrow> so_Amount order = Some am \<Longrightarrow> handle i order st = Some st' \<Longrightarrow>
      kept st' = (if keep \<and> so_ToToken order = symbol \<and> so_TxID order \<notin> seen st
        then insert (so_TxID order) (kept st) else kept st)"
    and next_day_ready: "ready st \<Longrightarrow> ready (next_day st)"
    and next_day_seen: "seen (next_day st) = kept st" "kept (next_day st) = kept st"
    and days_Nil: "days i [] st = Some (st, False)"
    and days_NextDay: "days i (NextDay # as) st = days (i + 1) as (next_day st)"
    and days_Delivered: "days i (Delivered order # as) st =
      Option.bind (listen i [order] st) (\<lambda>st. if goes_on order then days (i + 1) as st else Some (st, True))"
    and loop_Nil: "loop i [] st = Some st"
    and loop_Cons: "loop i (c # cs) st =
      Option.bind (days i c st) (\<lambda>(st, lost). if lost then loop (i + length c) cs st else Some st)"
begin

lemma listen_one:
  assumes "ready st" and "so_Error order = None \<longrightarrow> so_Amount order \<noteq> None"
  shows "\<exists>st' ts. listen i [order] st = Some st' \<and> ready st' \<and> sv_trace st' = sv_trace st @ ts \<and>
    (\<forall>as. daily_payments send least symbol keep (seen st) (kept st) (Delivered order # as) =
       ts @ daily_payments send least symbol keep (seen st') (kept st') as)"
proof -
  note step = listen_Cons [OF assms, of i "[]"]
  show ?thesis
  proof (cases "so_Error order")
    case None
    with assms(2) obtain a where a: "so_Amount order = Some a" by blast
    let ?passed = "so_ToToken order \<noteq> symbol \<or> so_TxID order \<in> seen st"
    consider (small) "a < least" | (passed) "\<not> a < least" ?passed | (new) "\<not> a < least" "\<not> ?passed" by blast
    then show ?thesis
    proof cases
      case passed
      obtain st1 where one: "handle i order st = Some st1" "ready st1" "seen st1 = seen st" "sv_trace st1 = sv_trace st"
        using handle_passed [OF assms(1) a passed(2), of i] by (elim exE conjE) (rule that)
      show ?thesis using step None a passed one handle_kept [OF assms(1) a one(1)]
        by (intro exI [of _ st1] exI [of _ "[]"]) (auto simp: listen_Nil)
    next
      case new
      then have n: "so_ToToken order = symbol" "so_TxID order \<notin> seen st" by simp_all
      obtain st1 where one: "handle i order st = Some st1" "ready st1" "seen st1 = insert (so_TxID order) (seen st)"
        "sv_trace st1 = sv_trace st @ [send (so_TxID order) (Some a) (so_To order)]"
        using handle_paid [OF assms(1) a n, of i] by (elim exE conjE) (rule that)
      show ?thesis using step None a new one handle_kept [OF assms(1) a one(1)]
        by (intro exI [of _ st1] exI [of _ "[send (so_TxID order) (Some a) (so_To order)]"]) (simp add: listen_Nil)
    qed (use step None a assms in \<open>simp add: listen_Nil\<close>)
  qed (use step assms in \<open>simp add: listen_Nil\<close>)
qed

lemma days_pay:
  "ready st \<Longrightarrow> days_amounts [c] \<Longrightarrow> \<exists>st' ts. days i c st = Some (st', \<not> list_all continues c) \<and> ready st' \<and>
     sv_trace st' = sv_trace st @ ts \<and>
     (\<forall>as. daily_payments send least symbol keep (seen st) (kept st) (takeWhile continues c @ as) =
        ts @ daily_payments send least symbol keep (seen st') (kept st') as)"
proof (induction c arbitrary: i st)
  case (Cons a c)
  have am: "days_amounts [c]" using Cons.prems(2) by (simp add: days_amounts_def)
  show ?case
  proof (cases a)
    case NextDay
    have "sv_trace (next_day st) = sv_trace st" by (simp add: next_day_def)
    with Cons.IH [OF next_day_ready [OF Cons.prems(1)] am, of "i + 1"] show ?thesis
      by (simp add: NextDay days_NextDay next_day_seen)
  next
    case (Delivered order)
    have "so_Error order = None \<longrightarrow> so_Amount order \<noteq> None" using Cons.prems(2) by (simp add: Delivered days_amounts_def)
    from listen_one [OF Cons.prems(1) this, of i] obtain st1 ts where
      one: "listen i [order] st = Some st1" "ready st1" "sv_trace st1 = sv_trace st @ ts"
      "\<And>as. daily_payments send least symbol keep (seen st) (kept st) (Delivered order # as) =
         ts @ daily_payments send least symbol keep (seen st1) (kept st1) as" by blast
    show ?thesis
    proof (cases "goes_on order")
      case True
      obtain st2 ts2 where "days (i + 1) c st1 = Some (st2, \<not> list_all continues c)" "ready st2" "sv_trace st2 = sv_trace st1 @ ts2"
        "\<And>as. daily_payments send least symbol keep (seen st1) (kept st1) (takeWhile continues c @ as) =
          ts2 @ daily_payments send least symbol keep (seen st2) (kept st2) as"
        using Cons.IH [OF one(2) am, of "i + 1"] by blast
      with True one show ?thesis
        by (intro exI [of _ st2] exI [of _ "ts @ ts2"]) (simp add: Delivered days_Delivered del: daily_payments.simps)
    next
      case False
      then have "\<exists>e. so_Error order = Some e" by (auto simp: goes_on_def)
      then have "ts = [] \<and> seen st1 = seen st \<and> kept st1 = kept st"
        using one(1,3) listen_Cons [OF Cons.prems(1), of order i "[]"] False by (auto simp: goes_on_def listen_Nil)
      with False one show ?thesis
        by (intro exI [of _ st1] exI [of _ "[]"]) (simp add: Delivered days_Delivered)
    qed
  qed
qed (simp add: days_Nil)

lemma loop_pays:
  "ready st \<Longrightarrow> days_amounts cs \<Longrightarrow> \<exists>st'. loop i cs st = Some st' \<and>
     sv_trace st' = sv_trace st @ daily_payments send least symbol keep (seen st) (kept st) (delivered cs)"
proof (induction cs arbitrary: i st)
  case (Cons c cs)
  have am: "days_amounts [c]" "days_amounts cs" using Cons.prems(2) by (auto simp: days_amounts_def)
  obtain st1 ts where one: "days i c st = Some (st1, \<not> list_all continues c)" "ready st1" "sv_trace st1 = sv_trace st @ ts"
    "\<And>as. daily_payments send least symbol keep (seen st) (kept st) (takeWhile continues c @ as) =
       ts @ daily_payments send least symbol keep (seen st1) (kept st1) as"
    using days_pay [OF Cons.prems(1) am(1), of i] by blast
  show ?case
    using one Cons.IH [OF one(2) am(2), of "i + length c"] one(4) [of "[]"]
    by (cases "list_all continues c") (auto simp: loop_Cons)
qed (simp add: loop_Nil)

end

lemma payments_seen: "x \<in> set (payments send m symbol seen orders) \<Longrightarrow>
    \<exists>txid a to. x = send txid a to \<and> txid \<notin> seen"
  by (induction send m symbol seen orders rule: payments.induct) (auto split: if_splits)

lemma payments_once:
  assumes "\<And>txid a to txid' a' to'. send txid a to = send txid' a' to' \<Longrightarrow> txid = txid'"
  shows "distinct (payments send m symbol seen orders)"
  using assms
proof (induction send m symbol seen orders rule: payments.induct)
  case (2 send m symbol seen order orders)
  have "send (so_TxID order) (so_Amount order) (so_To order) \<notin>
      set (payments send m symbol (insert (so_TxID order) seen) orders)"
    using payments_seen 2(4) by blast
  with 2 show ?case by simp
qed simp

section \<open>Wraps\<close>

text \<open>What \<open>listenWrap\<close> relies on at every order: the configuration, the queue of the destination,
  the libraries and the key of the destination's account.\<close>

definition can_pay :: "int \<Rightarrow> source_token \<Rightarrow> evm_token \<Rightarrow> server \<Rightarrow> server_env \<Rightarrow> bool" where
  "can_pay m t1 t2 st E \<longleftrightarrow>
     (\<exists>c. map_of (cf_Tokens (en_conf E)) (Symbol_src t1) = Some c \<and> ct_MinAmount c = Some m) \<and>
     crypto_lib_ok (en_C E) \<and> queue_key (en_L E) t2 \<in> dom (sv_evm st) \<and>
     (\<exists>k. env_key E (Symbol_evm t2) = Ok (Inr k))"

lemma dealWrapOrder_paid:
  assumes "can_pay m t1 t2 st E" and "so_Amount order = Some am" and "so_ToToken order = Symbol_evm t2"
    and "so_TxID order \<notin> dom (sv_dealed st)"
  shows "\<exists>st'. dealWrapOrder E (Some t2) order st = Ok st' \<and> dom (sv_evm st') = dom (sv_evm st) \<and>
    dom (sv_dealed st') = insert (so_TxID order) (dom (sv_dealed st)) \<and>
    sv_trace st' = sv_trace st @ [WrapSent (so_TxID order) (Some am) (so_To order)]"
proof -
  have "queue_key (en_L E) t2 \<in> dom (sv_evm (taken E order 1 st))"
    using assms(1) unfolding can_pay_def taken_simps by blast
  then obtain st' where w: "wrap_by_key E t2 order (taken E order 1 st) = Ok st'"
    using wrap_by_key_total assms(1,2) unfolding can_pay_def by blast
  have "dealWrapOrder E (Some t2) order st = Ok st'" using w assms(3,4) by (simp add: dealWrapOrder_eq)
  moreover have "\<exists>k. env_key E (Symbol_evm t2) = Ok (Inr k)" using assms(1) by (simp add: can_pay_def)
  ultimately show ?thesis
    using wrap_by_key_trace [OF w] ok_allD [OF wrap_by_key_pays w] assms(2)
    by (auto simp: pays_one_def good_step_def same_tokens_def)
qed

lemma can_pay_same: "can_pay m t1 t2 st E \<Longrightarrow> dom (sv_evm st') = dom (sv_evm st) \<Longrightarrow> can_pay m t1 t2 st' E"
  by (simp only: can_pay_def)

lemma dealWrapOrder_passed:
  "so_ToToken order \<noteq> Symbol_evm t2 \<or> so_TxID order \<in> dom (sv_dealed st) \<Longrightarrow>
     dealWrapOrder E (Some t2) order st = Ok st"
  by (auto simp: dealWrapOrder_eq)

definition ok_option :: "'a outcome \<Rightarrow> 'a option" where
  "ok_option r = (case r of Ok x \<Rightarrow> Some x | _ \<Rightarrow> None)"

lemma ok_option_simps [simp]:
  "ok_option (Ok x) = Some x" "ok_option (Err e) = None" "ok_option (Panic p) = None"
  "ok_option (obind r f) = Option.bind (ok_option r) (\<lambda>x. ok_option (f x))"
  by (simp_all add: ok_option_def) (cases r; simp)

lemma ok_option_Some: "ok_option r = Some x \<longleftrightarrow> r = Ok x"
  by (cases r) simp_all

lemma below_min_ready:
  "map_of (cf_Tokens (en_conf E)) s = Some c \<Longrightarrow> ct_MinAmount c = Some m \<Longrightarrow> so_Amount order = Some am \<Longrightarrow>
     below_min (en_conf E) s order = Ok (am < m)"
  by (simp add: below_min_def)

interpretation wraps: paying_listener "\<lambda>i orders st. ok_option (listenWrap W t1 t2 i orders st)"
  "\<lambda>i order st. ok_option (dealWrapOrder (W i) (Some t2) order st)" "\<lambda>st. \<forall>j. can_pay m t1 t2 st (W j)"
  "\<lambda>st. dom (sv_dealed st)" m "Symbol_evm t2" WrapSent
proof unfold_locales
  fix i and st :: server and order :: swap_order and orders
  assume ready: "\<forall>j. can_pay m t1 t2 st (W j)" and am: "so_Error order = None \<longrightarrow> so_Amount order \<noteq> None"
  show "ok_option (listenWrap W t1 t2 i (order # orders) st) =
      (if so_Error order \<noteq> None then if so_Type order = 0 then Some st else ok_option (listenWrap W t1 t2 (i + 1) orders st)
       else if the (so_Amount order) < m then ok_option (listenWrap W t1 t2 (i + 1) orders st)
       else Option.bind (ok_option (dealWrapOrder (W i) (Some t2) order st))
         (\<lambda>st. ok_option (listenWrap W t1 t2 (i + 1) orders st)))"
  proof (cases "so_Error order")
    case None
    with am obtain a where a: "so_Amount order = Some a" by blast
    from ready have "can_pay m t1 t2 st (W i)" ..
    then have "below_min (en_conf (W i)) (Symbol_src t1) order = Ok (a < m)"
      using a by (auto simp: can_pay_def below_min_ready)
    then show ?thesis using None a by (cases "a < m") simp_all
  qed simp
next
  fix i and st :: server and order :: swap_order
  assume "\<forall>j. can_pay m t1 t2 st (W j)" "so_ToToken order \<noteq> Symbol_evm t2 \<or> so_TxID order \<in> dom (sv_dealed st)"
  then show "\<exists>st'. ok_option (dealWrapOrder (W i) (Some t2) order st) = Some st' \<and> (\<forall>j. can_pay m t1 t2 st' (W j)) \<and>
      dom (sv_dealed st') = dom (sv_dealed st) \<and> sv_trace st' = sv_trace st"
    by (intro exI [of _ st]) (simp add: dealWrapOrder_passed)
next
  fix i and st :: server and order :: swap_order and am
  assume ready: "\<forall>j. can_pay m t1 t2 st (W j)" and am: "so_Amount order = Some am" and
    new: "so_ToToken order = Symbol_evm t2" "so_TxID order \<notin> dom (sv_dealed st)"
  obtain st' where one: "dealWrapOrder (W i) (Some t2) order st = Ok st'" "dom (sv_evm st') = dom (sv_evm st)"
    "dom (sv_dealed st') = insert (so_TxID order) (dom (sv_dealed st))"
    "sv_trace st' = sv_trace st @ [WrapSent (so_TxID order) (Some am) (so_To order)]"
    using dealWrapOrder_paid [OF spec [OF ready, of i] am new] by (elim exE conjE) (rule that)
  have "\<forall>j. can_pay m t1 t2 st' (W j)" by (intro allI can_pay_same [OF spec [OF ready] one(2)])
  then show "\<exists>st'. ok_option (dealWrapOrder (W i) (Some t2) order st) = Some st' \<and>
      (\<forall>j. can_pay m t1 t2 st' (W j)) \<and> dom (sv_dealed st') = insert (so_TxID order) (dom (sv_dealed st)) \<and>
      sv_trace st' = sv_trace st @ [WrapSent (so_TxID order) (Some am) (so_To order)]"
    using one(3,4) by (intro exI [of _ st']) (simp add: one(1))
qed simp

lemma dealt_next_day [simp]: "sv_dealed (next_day st) = Map.empty" "sv_evm (next_day st) = sv_evm st"
  "sv_db (next_day st) = sv_db st" "sv_trace (next_day st) = sv_trace st"
  by (simp_all add: next_day_def dealed_expired_def)

interpretation wraps: reconnecting_listener "\<lambda>i orders st. ok_option (listenWrap W t1 t2 i orders st)"
  "\<lambda>i order st. ok_option (dealWrapOrder (W i) (Some t2) order st)" "\<lambda>st. \<forall>j. can_pay m t1 t2 st (W j)"
  "\<lambda>st. dom (sv_dealed st)" m "Symbol_evm t2" WrapSent "\<lambda>i c st. ok_option (listenWrap_days W t1 t2 i c st)"
  "\<lambda>i cs st. ok_option (listenWrap_loop W t1 t2 i cs st)" "\<lambda>st. {}" False
  by unfold_locales (auto simp: can_pay_def if_distrib [of ok_option] split_def cong: if_cong)

lemma listenWrap_pays:
  assumes "\<forall>j. can_pay m t1 t2 st (W j)" and "with_amounts orders"
  shows "\<exists>st'. listenWrap W t1 t2 i orders st = Ok st' \<and>
    sv_trace st' = sv_trace st @ wrap_payments m (Symbol_evm t2) (dom (sv_dealed st)) orders"
  using wraps.listen_pays [OF assms, of i] by (elim exE conjE) (simp add: ok_option_Some)

text \<open>The listener pays exactly what was wrapped. When the orders without an error carry amounts
  and at every order the configuration, the queue and the key of the destination are there,
  \<open>listenWrap\<close> comes to the end of its channel, and its payments are those of the specification: up to
  a lost connection one for each order for its destination whose amount reaches the token's minimum
  and whose id was not handled before, in the order of arrival, with the order's amount and target.\<close>

theorem listenWrap_pays_wraps:
  assumes "\<forall>j. can_pay m t1 t2 st (W j)" and "\<forall>order \<in> set orders. so_Error order = None \<longrightarrow> so_Amount order \<noteq> None"
  shows "\<exists>st'. listenWrap W t1 t2 i orders st = Ok st' \<and>
    sv_trace st' = sv_trace st @ wrap_payments m (Symbol_evm t2) (dom (sv_dealed st)) orders"
  using listenWrap_pays [OF assms(1)] assms(2) unfolding with_amounts_def by blast

text \<open>C6: reconnecting pays nothing twice. \<open>listenWrap\<close> starts the listener again after every lost connection,
  the listener may deliver again what it has delivered before, and the handled orders are cleared at
  any points of this, as they are every 24 hours. As long as the source token has a minimum and the
  destination its queue and a key that opens, the loop gets to its end and pays exactly this, in the order
  of arrival: the orders for its destination that reach the minimum, once for each id between two
  clearings, and of every connection those before its loss. An id that comes again after a clearing is
  paid again.\<close>

theorem reconnecting_pays_once:
  assumes "\<forall>j. can_pay m t1 t2 st (W j)"
    and "\<forall>c \<in> set connections. \<forall>order. Delivered order \<in> set c \<longrightarrow> so_Error order = None \<longrightarrow> so_Amount order \<noteq> None"
  shows "\<exists>st'. listenWrap_loop W t1 t2 i connections st = Ok st' \<and> sv_trace st' = sv_trace st @
    daily_payments WrapSent m (Symbol_evm t2) False (dom (sv_dealed st)) {} (delivered connections)"
proof -
  have "days_amounts connections" using assms(2) by (simp only: days_amounts_def)
  from wraps.loop_pays [OF assms(1) this, of i] show ?thesis by (elim exE conjE) (simp add: ok_option_Some)
qed

section \<open>Unwraps on an EVM chain\<close>

text \<open>What \<open>listenUnWrap\<close> relies on at every order when the tokens are paid out on an EVM chain. The minimum
  is that of the token that was unwrapped.\<close>

definition can_unwrap :: "int \<Rightarrow> evm_token \<Rightarrow> evm_token \<Rightarrow> server \<Rightarrow> server_env \<Rightarrow> bool" where
  "can_unwrap m t1 t2 st E \<longleftrightarrow>
     (\<exists>c. map_of (cf_Tokens (en_conf E)) (Symbol_evm t2) = Some c \<and> ct_MinAmount c = Some m) \<and>
     queue_key (en_L E) t1 \<in> dom (sv_evm st) \<and> (\<exists>k. env_key E (Symbol_evm t1) = Ok (Inr k))"

lemma unwrap_by_key_evm:
  assumes "env_key E (Symbol_evm t) = Ok (Inr k)" and "queue_key (en_L E) t \<in> dom (sv_evm st)"
    and "so_Amount order = Some am"
  shows "\<exists>st'. unwrap_by_key E (EvmTok t) order st = Ok st' \<and>
    sv_trace st' = sv_trace st @ [UnWrapSent (so_TxID order) (Some am) (so_To order)]"
proof -
  obtain addr prv where k: "k = (addr, prv)" by fastforce
  obtain res sent where s: "SendUnWrap_evm (en_L E) (en_eth E t) t (so_TxID order) (Some am) (so_To order) prv
      = (res, sent)" by fastforce
  then have "\<not> is_panic res" using send_call_not_Panic by (simp add: SendUnWrap_evm_def)
  then obtain st' where ok: "unwrap_by_key E (EvmTok t) order st = Ok st'"
    using assms k s evm_sent_total [of E t "traced (UnWrapSent (so_TxID order) (Some am) (so_To order)) st" order]
    by (cases res) (fastforce simp: unwrap_by_key_def MultiSignType_evm_def Let_def)+
  have "ok_all (\<lambda>st'. sv_trace st' = sv_trace st @ [UnWrapSent (so_TxID order) (Some am) (so_To order)])
      (unwrap_by_key E (EvmTok t) order st)"
    unfolding unwrap_by_key_def using assms k
    by (auto simp: Let_def evm_sent_ok split: prod.split outcome.split)
  from ok_allD [OF this ok] ok show ?thesis by blast
qed

lemma dealUnWrapOrder_evm:
  assumes "can_unwrap m t1 t2 st E" and "so_Amount order = Some am" and "so_ToToken order = Symbol_evm t1"
    and "so_TxID order \<notin> dom (sv_dealed st)"
  shows "\<exists>st'. dealUnWrapOrder E (Some (EvmTok t1)) order st = Some (Ok st') \<and> dom (sv_evm st') = dom (sv_evm st) \<and>
    dom (sv_dealed st') = insert (so_TxID order) (dom (sv_dealed st)) \<and>
    sv_trace st' = sv_trace st @ [UnWrapSent (so_TxID order) (Some am) (so_To order)]"
proof -
  obtain k where key: "env_key E (Symbol_evm t1) = Ok (Inr k)" using assms(1) by (auto simp: can_unwrap_def)
  have "queue_key (en_L E) t1 \<in> dom (sv_evm (taken E order (- 1) st))"
    using assms(1) unfolding can_unwrap_def taken_simps by blast
  from unwrap_by_key_evm [OF key this assms(2)] obtain st' where
    u: "unwrap_by_key E (EvmTok t1) order (taken E order (- 1) st) = Ok st'"
    "sv_trace st' = sv_trace (taken E order (- 1) st) @ [UnWrapSent (so_TxID order) (Some am) (so_To order)]" by blast
  have "dealUnWrapOrder E (Some (EvmTok t1)) order st = Some (Ok st')"
    using u(1) assms(3,4) by (simp add: dealUnWrapOrder_eq unwrap_allowed_def MultiSignType_evm_def SmpcSign_def EvmMultiSign_def)
  then show ?thesis
    using u(2) ok_allD [OF unwrap_by_key_pays u(1)] by (auto simp: pays_one_def good_step_def same_tokens_def)
qed

lemma dealUnWrapOrder_passed:
  "so_ToToken order \<noteq> Symbol_src t1 \<or> so_TxID order \<in> dom (sv_dealed st) \<Longrightarrow>
     dealUnWrapOrder E (Some t1) order st = Some (Ok st)"
  by (auto simp: dealUnWrapOrder_eq unwrap_allowed_def)

lemma can_unwrap_same: "can_unwrap m t1 t2 st E \<Longrightarrow> dom (sv_evm st') = dom (sv_evm st) \<Longrightarrow> can_unwrap m t1 t2 st' E"
  by (simp only: can_unwrap_def)

interpretation unwraps: paying_listener
  "\<lambda>i orders st. Option.bind (listenUnWrap W (EvmTok t1) t2 i orders st) ok_option"
  "\<lambda>i order st. Option.bind (dealUnWrapOrder (W i) (Some (EvmTok t1)) order st) ok_option"
  "\<lambda>st. \<forall>j. can_unwrap m t1 t2 st (W j)" "\<lambda>st. dom (sv_dealed st)" m "Symbol_evm t1" UnWrapSent
proof unfold_locales
  fix i and st :: server and order :: swap_order and orders
  assume ready: "\<forall>j. can_unwrap m t1 t2 st (W j)" and am: "so_Error order = None \<longrightarrow> so_Amount order \<noteq> None"
  show "Option.bind (listenUnWrap W (EvmTok t1) t2 i (order # orders) st) ok_option =
      (if so_Error order \<noteq> None then if so_Type order = 0 then Some st
         else Option.bind (listenUnWrap W (EvmTok t1) t2 (i + 1) orders st) ok_option
       else if the (so_Amount order) < m then Option.bind (listenUnWrap W (EvmTok t1) t2 (i + 1) orders st) ok_option
       else Option.bind (Option.bind (dealUnWrapOrder (W i) (Some (EvmTok t1)) order st) ok_option)
         (\<lambda>st. Option.bind (listenUnWrap W (EvmTok t1) t2 (i + 1) orders st) ok_option))"
  proof (cases "so_Error order")
    case None
    with am obtain a where a: "so_Amount order = Some a" by blast
    from ready have "can_unwrap m t1 t2 st (W i)" ..
    then have "below_min (en_conf (W i)) (Symbol_evm t2) order = Ok (a < m)"
      using a by (auto simp: can_unwrap_def below_min_ready)
    then show ?thesis using None a
      by (cases "dealUnWrapOrder (W i) (Some (EvmTok t1)) order st"; cases "a < m") (auto split: outcome.split)
  qed simp
next
  fix i and st :: server and order :: swap_order
  assume "\<forall>j. can_unwrap m t1 t2 st (W j)" "so_ToToken order \<noteq> Symbol_evm t1 \<or> so_TxID order \<in> dom (sv_dealed st)"
  then show "\<exists>st'. Option.bind (dealUnWrapOrder (W i) (Some (EvmTok t1)) order st) ok_option = Some st' \<and>
      (\<forall>j. can_unwrap m t1 t2 st' (W j)) \<and> dom (sv_dealed st') = dom (sv_dealed st) \<and> sv_trace st' = sv_trace st"
    by (intro exI [of _ st]) (simp add: dealUnWrapOrder_passed)
next
  fix i and st :: server and order :: swap_order and am
  assume ready: "\<forall>j. can_unwrap m t1 t2 st (W j)" and am: "so_Amount order = Some am" and
    new: "so_ToToken order = Symbol_evm t1" "so_TxID order \<notin> dom (sv_dealed st)"
  obtain st' where one: "dealUnWrapOrder (W i) (Some (EvmTok t1)) order st = Some (Ok st')"
    "dom (sv_evm st') = dom (sv_evm st)" "dom (sv_dealed st') = insert (so_TxID order) (dom (sv_dealed st))"
    "sv_trace st' = sv_trace st @ [UnWrapSent (so_TxID order) (Some am) (so_To order)]"
    using dealUnWrapOrder_evm [OF spec [OF ready, of i] am new] by (elim exE conjE) (rule that)
  have "\<forall>j. can_unwrap m t1 t2 st' (W j)" by (intro allI can_unwrap_same [OF spec [OF ready] one(2)])
  then show "\<exists>st'. Option.bind (dealUnWrapOrder (W i) (Some (EvmTok t1)) order st) ok_option = Some st' \<and>
      (\<forall>j. can_unwrap m t1 t2 st' (W j)) \<and> dom (sv_dealed st') = insert (so_TxID order) (dom (sv_dealed st)) \<and>
      sv_trace st' = sv_trace st @ [UnWrapSent (so_TxID order) (Some am) (so_To order)]"
    using one(3,4) by (intro exI [of _ st']) (simp add: one(1))
qed simp

interpretation unwraps: reconnecting_listener
  "\<lambda>i orders st. Option.bind (listenUnWrap W (EvmTok t1) t2 i orders st) ok_option"
  "\<lambda>i order st. Option.bind (dealUnWrapOrder (W i) (Some (EvmTok t1)) order st) ok_option"
  "\<lambda>st. \<forall>j. can_unwrap m t1 t2 st (W j)" "\<lambda>st. dom (sv_dealed st)" m "Symbol_evm t1" UnWrapSent
  "\<lambda>i c st. Option.bind (listenUnWrap_days W (EvmTok t1) t2 i c st) ok_option"
  "\<lambda>i cs st. Option.bind (listenUnWrap_loop W (EvmTok t1) t2 i cs st) ok_option" "\<lambda>st. {}" False
  by unfold_locales (auto simp: can_unwrap_def split: option.split outcome.split)

lemma listenUnWrap_pays:
  assumes "\<forall>j. can_unwrap m t1 t2 st (W j)" and "with_amounts orders"
  shows "\<exists>st'. listenUnWrap W (EvmTok t1) t2 i orders st = Some (Ok st') \<and>
    sv_trace st' = sv_trace st @ unwrap_payments m (Symbol_evm t1) (dom (sv_dealed st)) orders"
  using unwraps.listen_pays [OF assms, of i] by (elim exE conjE) (simp add: bind_eq_Some_conv ok_option_Some)

end
