(* ===== verification/Listeners.thy ===== *)
theory Listeners
  imports Server_Listen
begin

text \<open>
  What the listeners of all tokens promise to the server: their orders are well formed, the two ways
  of listening to an EVM chain agree, and together with \<open>listenWrap\<close> the wraps that a chain has
  logged are those that are paid.
\<close>

section \<open>Well formed orders\<close>

definition order_ok :: "swap_order \<Rightarrow> bool" where
  "order_ok order \<longleftrightarrow> (case so_Error order of
      Some e \<Rightarrow> so_Type order = 0 \<or> so_Type order = 1
    | None \<Rightarrow> (case so_Amount order of None \<Rightarrow> False | Some am \<Rightarrow> 0 \<le> am))"

lemma order_ok_error_order [simp]: "order_ok (error_order ty e) \<longleftrightarrow> ty \<le> 1"
  by (auto simp: order_ok_def)

lemma deal_log_ok: "deal_log L t lg = Ok os \<Longrightarrow> list_all order_ok os"
  by (auto simp: deal_log_def dealWrapEvent_def dealUnWrapEvent_def Let_def obind_Ok_conv order_ok_def
      big_set_bytes_nonneg case_prod_beta split: if_splits)

lemma deal_logs_ok: "deal_logs L t lgs = Ok os \<Longrightarrow> list_all order_ok os"
  by (induction lgs arbitrary: os) (auto simp: obind_Ok_conv dest: deal_log_ok)

lemma scan_run_orders_ok: "scan_run (scan_step L t event) h inps = Ok (ms, h', rs) \<Longrightarrow> list_all order_ok ms"
proof (induction inps arbitrary: h ms rs)
  case (Cons inp inps)
  obtain ms1 h1 rs1 ms2 rs2 where st: "scan_step L t event h inp = Ok (ms1, h1, rs1)"
    and rest: "scan_run (scan_step L t event) h1 inps = Ok (ms2, h', rs2)" and ms: "ms = ms1 @ ms2"
    using Cons.prems by (rule scan_run_Cons)
  have "list_all order_ok ms1"
    using st by (auto simp: scan_step_def Let_def obind_Ok_conv dest: deal_logs_ok split: sum.splits if_splits)
  with Cons.IH [OF rest] ms show ?case by simp
qed simp

lemma listen_loop_ok: "listen_loop L t ms = Ok os \<Longrightarrow> list_all order_ok os"
  by (induction L t ms arbitrary: os rule: listen_loop.induct) (auto simp: obind_Ok_conv dest: deal_log_ok)

lemma start_listen_ok: "start_listen L t event W = Ok os \<Longrightarrow> list_all order_ok os"
  by (auto simp: start_listen_def listenEvent_def scanBlock_def obind_Ok_conv split: if_splits sum.splits
      dest: listen_loop_ok scan_run_orders_ok)

lemma output_loop_ok:
  assumes "\<And>output blockID index sent err. deal output blockID index = (sent, err) \<Longrightarrow> list_all order_ok sent"
  shows "list_all order_ok (output_loop deal ms)"
  using assms by (induction deal ms rule: output_loop.induct) (auto split: prod.split option.split)

lemma dealNewOutput_iota_ok: "dealNewOutput_iota I t output blockID index = (sent, err) \<Longrightarrow> list_all order_ok sent"
  by (auto simp: dealNewOutput_iota_def getWrapOrderByOutput_def order_ok_def Let_def
      split: if_splits option.splits sum.splits prod.splits)

lemma dealNewOutput_smr_ok: "dealNewOutput_smr L I N t output blockID index = (sent, err) \<Longrightarrow> list_all order_ok sent"
  by (auto simp: dealNewOutput_smr_def smr_order_def order_ok_def Let_def
      split: if_splits option.splits sum.splits prod.splits)

lemma StartWrapListen_iota_ok: "list_all order_ok (snd (StartWrapListen_iota I t W))"
  using output_loop_ok [OF dealNewOutput_iota_ok]
  by (auto simp: StartWrapListen_iota_def Let_def split: sum.split option.split)

lemma StartWrapListen_smr_ok: "list_all order_ok (StartWrapListen_smr L I N t W)"
  using output_loop_ok [OF dealNewOutput_smr_ok]
  by (auto simp: StartWrapListen_smr_def split: sum.split option.split)

text \<open>C16: an order on a channel is well formed, whichever listener sent it and whatever the node, the
  contract or the users delivered: an order without an error carries an amount that is not negative,
  which the handlers compare without a test for nil, and an error is of the type that ends the
  connection or of the type that is skipped.\<close>

theorem listeners_send_ok_orders:
  assumes "StartWrapListen_evm L t We = Ok orders \<or> StartUnWrapListen_evm L t We = Ok orders \<or>
    snd (StartWrapListen_iota I ti Wo) = orders \<or> StartWrapListen_smr L I N ts Wo = orders"
  shows "list_all order_ok orders"
  using assms start_listen_ok StartWrapListen_iota_ok StartWrapListen_smr_ok
  unfolding StartWrapListen_evm_def StartUnWrapListen_evm_def by blast

theorem listeners_send_ok_orders_witness:
  "list_all order_ok (snd (StartWrapListen_iota (iota_demo demo_essence) demo_smr_token
     \<lparr>ow_Info = Inr \<lparr>pp_NetworkID = 1, pp_VByteCost = 3\<rparr>, ow_EventAPI = Inr (), ow_Connect = None,
       ow_Subscribe = Inr [RecOutput (Inr demo_output) ''b1'' 0, EventError (Errorf ''closed'')]\<rparr>))"
  by (rule listeners_send_ok_orders [OF disjI2 [OF disjI2 [OF disjI1 [OF refl]]]])


section \<open>Two ways to listen\<close>

text \<open>A chain, as far as a contract's event is concerned: the logs of each block. A node answers from
  it when every answer it gives to the scanner holds the logs of the range that was asked for.\<close>

type_synonym chain = "nat \<Rightarrow> eth_log list"

definition chain_logs :: "chain \<Rightarrow> nat \<Rightarrow> nat \<Rightarrow> eth_log list" where
  "chain_logs blocks a b = concat (map blocks [a..<b])"

definition answers_from :: "chain \<Rightarrow> evm_token \<Rightarrow> bytes \<Rightarrow> scan_input \<Rightarrow> bool" where
  "answers_from blocks t event inp \<longleftrightarrow> (\<forall>a b logs. si_FilterLogs inp (scan_query t event a b) = Inr logs \<longrightarrow>
     logs = chain_logs blocks (unat a) (Suc (unat b)))"

lemma chain_logs_split: "a \<le> b \<Longrightarrow> b \<le> c \<Longrightarrow> chain_logs blocks a c = chain_logs blocks a b @ chain_logs blocks b c"
  unfolding chain_logs_def by (subst upt_split3) simp_all

lemma deal_logs_append: "deal_logs L t (xs @ ys) =
    obind (deal_logs L t xs) (\<lambda>os. obind (deal_logs L t ys) (\<lambda>os'. Ok (os @ os')))"
proof (induction xs)
  case (Cons x xs)
  then show ?case by (cases "deal_log L t x"; cases "deal_logs L t xs"; cases "deal_logs L t ys") auto
qed (cases "deal_logs L t ys"; simp)

lemma listen_loop_logs: "listen_loop L t (map SubLog lgs) = deal_logs L t lgs"
  by (induction lgs) simp_all

text \<open>A turn sends the orders of the range it moves over, or errors only.\<close>

lemma scan_step_orders:
  assumes "scan_step L t event h inp = Ok (ms, h', rs)" and "0 < ev_ScanMaxHeight t" and "height_ok inp"
    and "answers_from blocks t event inp"
  shows "unat h \<le> unat h' \<and> (\<exists>os. deal_logs L t (chain_logs blocks (unat h) (unat h')) = Ok os \<and>
    valid_orders ms = valid_orders os)"
proof (cases "rs = []")
  case True
  with scan_step_range [OF assms(1-3)] have "h' = h" by auto
  moreover have "valid_orders ms = []"
    using assms(1) True by (auto simp: scan_step_def Let_def obind_Ok_conv valid_orders_def split: sum.splits if_splits)
  ultimately show ?thesis by (simp add: chain_logs_def valid_orders_def)
next
  case False
  with scan_step_range [OF assms(1-3)] obtain b where b: "rs = [(h, b)]" "h \<le> b" "unat h' = Suc (unat b)" by auto
  then obtain logs where "si_FilterLogs inp (scan_query t event h b) = Inr logs" "deal_logs L t logs = Ok ms"
    using assms(1) by (auto simp: scan_step_def Let_def obind_Ok_conv split: sum.splits if_splits)
  with assms(4) b show ?thesis by (auto simp: answers_from_def word_le_nat_alt)
qed

lemma scan_run_orders:
  assumes "0 < ev_ScanMaxHeight t"
  shows "scan_run (scan_step L t event) h inps = Ok (ms, h', rs) \<Longrightarrow> list_all height_ok inps \<Longrightarrow>
    list_all (answers_from blocks t event) inps \<Longrightarrow> unat h \<le> unat h' \<and>
    (\<exists>os. deal_logs L t (chain_logs blocks (unat h) (unat h')) = Ok os \<and> valid_orders ms = valid_orders os)"
proof (induction inps arbitrary: h ms rs)
  case (Cons inp inps)
  obtain ms1 h1 rs1 ms2 rs2 where st: "scan_step L t event h inp = Ok (ms1, h1, rs1)"
    and rest: "scan_run (scan_step L t event) h1 inps = Ok (ms2, h', rs2)" and ms: "ms = ms1 @ ms2"
    using Cons.prems(1) by (rule scan_run_Cons)
  from scan_step_orders [OF st assms] Cons.prems(2,3) obtain os1 where 1: "unat h \<le> unat h1"
    "deal_logs L t (chain_logs blocks (unat h) (unat h1)) = Ok os1" "valid_orders ms1 = valid_orders os1" by auto
  from Cons.IH [OF rest] Cons.prems(2,3) obtain os2 where 2: "unat h1 \<le> unat h'"
    "deal_logs L t (chain_logs blocks (unat h1) (unat h')) = Ok os2" "valid_orders ms2 = valid_orders os2" by auto
  from 1 2 ms show ?case by (simp add: chain_logs_split [OF 1(1) 2(1)] deal_logs_append)
qed (simp add: chain_logs_def valid_orders_def)

text \<open>C27: scanning and listening agree. For a chain whose height stays below the largest uint64, what
  \<open>scanBlock\<close> sends while it moves from one height to another, through failing calls and in ranges of
  any positive width, are the orders that \<open>listenEvent\<close> sends when its subscription delivers the logs
  of these blocks, in the same order; they differ in reported errors only.\<close>

theorem scanBlock_equals_listenEvent:
  assumes "scan_run (scan_step L t event) h inps = Ok (ms, h', rs)" and "0 < ev_ScanMaxHeight t"
    and "list_all height_ok inps" and "list_all (answers_from blocks t event) inps"
    and "subscribe \<lparr>q_BlockHash = None, q_FromBlock = None, q_ToBlock = None, q_Addresses = [ev_contract t],
      q_Topics = [[event]]\<rparr> = Inr (map SubLog (chain_logs blocks (unat h) (unat h')))"
  shows "\<exists>os. scanBlock L t event (Inr h) inps = Ok (ms, rs) \<and> listenEvent L t event (Inr ()) subscribe = Ok os \<and>
    valid_orders ms = valid_orders os"
  using scan_run_orders [OF assms(2,1,3,4)] assms(1,5)
  by (auto simp: scanBlock_def listenEvent_def listen_loop_logs)

definition demo_log :: "bytes \<Rightarrow> eth_log" where
  "demo_log event = \<lparr>lg_Address = replicate 20 9, lg_Topics = [event, replicate 32 3, replicate 32 4],
     lg_Data = bytes_of_string ''sSOON'' @ replicate 27 0 @ replicate 29 0 @ [7, 161, 32],
     lg_TxHash = replicate 32 1, lg_Removed = False\<rparr>"

definition demo_chain :: "bytes \<Rightarrow> chain" where
  "demo_chain event b = (if b = 20 then [demo_log event] else [])"

definition demo_answer :: "bytes \<Rightarrow> u64 rpc \<Rightarrow> scan_input" where
  "demo_answer event n = \<lparr>si_BlockNumber = n, si_FilterLogs = (\<lambda>q. case (q_FromBlock q, q_ToBlock q) of
     (Some a, Some b) \<Rightarrow> Inr (chain_logs (demo_chain event) (unat a) (Suc (unat b)))
   | _ \<Rightarrow> Inl (Errorf ''range''))\<rparr>"

definition demo_watch :: "bytes \<Rightarrow> scan_input list" where
  "demo_watch event = [demo_answer event (Inr 17), demo_answer event (Inl (Errorf ''eof'')), demo_answer event (Inr 22)]"

definition demo_source :: evm_token where
  "demo_source = demo_token\<lparr>ev_symbol := ''SOON'', ev_ListenType := ScanBlock\<rparr>"

definition demo_logged :: "string \<Rightarrow> swap_order" where
  "demo_logged to = \<lparr>so_TxID = hash_Hex eth_demo (replicate 32 1), so_FromToken = ''SOON'', so_ToToken = ''sSOON'',
     so_From = address_Hex eth_demo (replicate 20 3), so_To = to, so_Amount = Some 500000, so_Org = [],
     so_Error = None, so_Type = 0\<rparr>"

lemma demo_watch_ok: "list_all height_ok (demo_watch event)"
  "list_all (answers_from (demo_chain event) t event) (demo_watch event)"
  by (simp_all add: demo_watch_def demo_answer_def height_ok_def answers_from_def scan_query_def)

lemma demo_watch_run:
  "scan_run (scan_step eth_demo demo_source (EventWrap eth_demo)) 15 (demo_watch (EventWrap eth_demo)) =
    Ok ([error_order 1 (Wrapf ''BlockNumber error. '' (Errorf ''eof'')),
      demo_logged (address_Hex eth_demo (replicate 20 4))], 23, [(15, 17), (18, 22)])"
  "scan_run (scan_step eth_demo demo_source (EventUnWrap eth_demo)) 15 (demo_watch (EventUnWrap eth_demo)) =
    Ok ([error_order 1 (Wrapf ''BlockNumber error. '' (Errorf ''eof'')),
      demo_logged (Bytes2Hex eth_demo (replicate 32 4))], 23, [(15, 17), (18, 22)])"
  by code_simp+

lemma demo_chain_logs: "chain_logs (demo_chain event) (unat (15 :: u64)) (unat (23 :: u64)) = [demo_log event]"
proof -
  have "[15 :: nat..<23] = [15, 16, 17, 18, 19, 20, 21, 22]" by code_simp
  then show ?thesis by (simp add: chain_logs_def demo_chain_def)
qed

lemma demo_deal_log:
  "deal_logs eth_demo demo_source [demo_log (EventWrap eth_demo)] = Ok [demo_logged (address_Hex eth_demo (replicate 20 4))]"
  "deal_logs eth_demo demo_source [demo_log (EventUnWrap eth_demo)] = Ok [demo_logged (Bytes2Hex eth_demo (replicate 32 4))]"
  by code_simp+

theorem scanBlock_equals_listenEvent_witness:
  "\<exists>ms rs os. scanBlock eth_demo demo_source (EventWrap eth_demo) (Inr 15)
       (demo_watch (EventWrap eth_demo)) = Ok (ms, rs) \<and>
     listenEvent eth_demo demo_source (EventWrap eth_demo) (Inr ()) (\<lambda>q. Inr [SubLog (demo_log (EventWrap eth_demo))]) = Ok os \<and>
     valid_orders ms = valid_orders os"
proof -
  have pos: "0 < ev_ScanMaxHeight demo_source" by (simp add: demo_source_def demo_token_def)
  have sub: "Inr [SubLog (demo_log (EventWrap eth_demo))] =
      (Inr (map SubLog (chain_logs (demo_chain (EventWrap eth_demo)) (unat (15 :: u64)) (unat (23 :: u64)))) :: sub_message list rpc)"
    unfolding demo_chain_logs by simp
  from scanBlock_equals_listenEvent [OF demo_watch_run(1) pos demo_watch_ok sub]
  show ?thesis by (elim exE) (intro exI)
qed

section \<open>From the chain's logs to the payments\<close>

lemma payments_valid:
  "list_all goes_on (butlast orders) \<Longrightarrow>
     payments send m symbol seen orders = payments send m symbol seen (valid_orders orders)"
proof (induction orders arbitrary: seen)
  case (Cons order orders)
  show ?case
  proof (cases "orders = []")
    case False
    with Cons show ?thesis by (cases "so_Error order") (simp_all add: valid_orders_def goes_on_def)
  qed (simp add: valid_orders_def)
qed (simp add: valid_orders_def)

lemma deal_log_types: "deal_log L t lg = Ok os \<Longrightarrow> list_all goes_on os"
  by (auto simp: deal_log_def dealWrapEvent_def dealUnWrapEvent_def Let_def obind_Ok_conv case_prod_beta
      goes_on_def split: if_splits)

lemma deal_logs_types: "deal_logs L t lgs = Ok os \<Longrightarrow>
    list_all goes_on os"
  by (induction lgs arbitrary: os) (auto simp: obind_Ok_conv dest: deal_log_types)

lemma scan_run_types: "scan_run (scan_step L t event) h inps = Ok (ms, h', rs) \<Longrightarrow>
    list_all goes_on ms"
proof (induction inps arbitrary: h ms rs)
  case (Cons inp inps)
  obtain ms1 h1 rs1 ms2 rs2 where st: "scan_step L t event h inp = Ok (ms1, h1, rs1)"
    and rest: "scan_run (scan_step L t event) h1 inps = Ok (ms2, h', rs2)" and ms: "ms = ms1 @ ms2"
    using Cons.prems by (rule scan_run_Cons)
  have "list_all goes_on ms1"
    using st by (auto simp: scan_step_def Let_def obind_Ok_conv goes_on_def dest: deal_logs_types split: sum.splits if_splits)
  with Cons.IH [OF rest] ms show ?case by simp
qed simp

lemma orders_with_amounts: "list_all order_ok orders \<Longrightarrow> with_amounts orders"
  by (auto simp: list_all_iff order_ok_def with_amounts_def split: option.splits)

text \<open>The orders of the scanner are paid like those of the chain's logs.\<close>

lemma scanned_payments:
  assumes "0 < ev_ScanMaxHeight t" and "scan_run (scan_step L t event) h inps = Ok (orders, h', rs)"
    and "list_all height_ok inps" and "list_all (answers_from blocks t event) inps"
  shows "\<exists>os. deal_logs L t (chain_logs blocks (unat h) (unat h')) = Ok os \<and> with_amounts orders \<and>
    payments send m symbol seen orders = payments send m symbol seen os"
proof -
  obtain os where os: "deal_logs L t (chain_logs blocks (unat h) (unat h')) = Ok os" "valid_orders orders = valid_orders os"
    using scan_run_orders [OF assms] by blast
  have "payments send m symbol seen orders = payments send m symbol seen os"
    using payments_valid list_all_butlast scan_run_types [OF assms(2)] deal_logs_types [OF os(1)] os(2) by metis
  then show ?thesis using os(1) orders_with_amounts [OF scan_run_orders_ok [OF assms(2)]] by blast
qed

text \<open>C7: the wraps that a chain has logged are paid. Let the scanner of an EVM token move from one
  height to another, in a node that answers from the chain, and let its orders go through \<open>listenWrap\<close>
  while the configuration, the queue and the key of the destination are there. Then the payments
  of the server are those that the specification says for the orders the logs of exactly these blocks
  decode to, whatever calls to the node fail in between.\<close>

theorem logged_wraps_are_paid:
  assumes listener: "ev_ListenType t1 = ScanBlock" "0 < ev_ScanMaxHeight t1" "lw_start lw = Inr h"
      "scan_run (scan_step L t1 (EventWrap L)) h (lw_inputs lw) = Ok (orders, h', rs)"
    and node: "list_all height_ok (lw_inputs lw)" "list_all (answers_from blocks t1 (EventWrap L)) (lw_inputs lw)"
    and server: "\<forall>j. can_pay m (EvmTok t1) t2 st (W j)"
  shows "StartWrapListen_evm L t1 lw = Ok orders \<and>
    (\<exists>os st'. deal_logs L t1 (chain_logs blocks (unat h) (unat h')) = Ok os \<and>
      listenWrap W (EvmTok t1) t2 i orders st = Ok st' \<and>
      sv_trace st' = sv_trace st @ wrap_payments m (Symbol_evm t2) (dom (sv_dealed st)) os)"
proof -
  obtain os where os: "deal_logs L t1 (chain_logs blocks (unat h) (unat h')) = Ok os" and orders: "with_amounts orders"
      "payments WrapSent m (Symbol_evm t2) (dom (sv_dealed st)) orders =
       payments WrapSent m (Symbol_evm t2) (dom (sv_dealed st)) os"
    using scanned_payments [OF listener(2,4) node] by metis
  from listenWrap_pays [OF server orders(1)] have "\<exists>st'. listenWrap W (EvmTok t1) t2 i orders st = Ok st' \<and>
      sv_trace st' = sv_trace st @ wrap_payments m (Symbol_evm t2) (dom (sv_dealed st)) os"
    unfolding orders(2) .
  with os listener(1,3,4) show ?thesis
    by (auto simp: StartWrapListen_evm_def start_listen_def scanBlock_def ListenEvent_def ScanBlock_def)
qed

text \<open>C8: the unwraps that a chain has logged are paid. The same for the way back to an EVM source
  chain, from the scanner of the destination token through \<open>listenUnWrap\<close>; the minimum is that of the
  token that is unwrapped.\<close>

theorem logged_unwraps_are_paid:
  assumes listener: "ev_ListenType t2 = ScanBlock" "0 < ev_ScanMaxHeight t2" "lw_start lw = Inr h"
      "scan_run (scan_step L t2 (EventUnWrap L)) h (lw_inputs lw) = Ok (orders, h', rs)"
    and node: "list_all height_ok (lw_inputs lw)" "list_all (answers_from blocks t2 (EventUnWrap L)) (lw_inputs lw)"
    and server: "\<forall>j. can_unwrap m t1 t2 st (W j)"
  shows "StartUnWrapListen_evm L t2 lw = Ok orders \<and>
    (\<exists>os st'. deal_logs L t2 (chain_logs blocks (unat h) (unat h')) = Ok os \<and>
      listenUnWrap W (EvmTok t1) t2 i orders st = Some (Ok st') \<and>
      sv_trace st' = sv_trace st @ unwrap_payments m (Symbol_evm t1) (dom (sv_dealed st)) os)"
proof -
  obtain os where os: "deal_logs L t2 (chain_logs blocks (unat h) (unat h')) = Ok os" and orders: "with_amounts orders"
      "payments UnWrapSent m (Symbol_evm t1) (dom (sv_dealed st)) orders =
       payments UnWrapSent m (Symbol_evm t1) (dom (sv_dealed st)) os"
    using scanned_payments [OF listener(2,4) node] by metis
  from listenUnWrap_pays [OF server orders(1)]
  have "\<exists>st'. listenUnWrap W (EvmTok t1) t2 i orders st = Some (Ok st') \<and>
      sv_trace st' = sv_trace st @ unwrap_payments m (Symbol_evm t1) (dom (sv_dealed st)) os"
    unfolding orders(2) .
  with os listener(1,3,4) show ?thesis
    by (auto simp: StartUnWrapListen_evm_def start_listen_def scanBlock_def ListenEvent_def ScanBlock_def)
qed

text \<open>C9: the outputs that the bridge has received are paid. On a connection that comes up, let the
  orders of \<open>StartWrapListen\<close> of tokens/iotasmr go through \<open>listenWrap\<close> while the configuration, the
  queue and the key of the destination are there. Then the payments of the server are those that the
  specification says for the wraps among the outputs received before the connection fails.\<close>

theorem received_wraps_are_paid:
  assumes connection: "ow_Info N = Inr info" "ow_EventAPI N = Inr ()" "ow_Connect N = None"
      "ow_Subscribe N = Inr ms"
    and server: "\<forall>j. can_pay m (IotaTok t1) t2 st (W j)"
  shows "\<exists>st'. listenWrap W (IotaTok t1) t2 i (snd (StartWrapListen_iota I t1 N)) st = Ok st' \<and>
    sv_trace st' = sv_trace st @ wrap_payments m (Symbol_evm t2) (dom (sv_dealed st))
      (concat (map (accepted_order I t1) (takeWhile (\<lambda>m. \<not> is_event_error m) ms)))"
proof -
  let ?orders = "snd (StartWrapListen_iota I t1 N)"
  have valid: "valid_orders ?orders = concat (map (accepted_order I t1) (takeWhile (\<lambda>m. \<not> is_event_error m) ms))"
    unfolding valid_orders_def using received_orders [OF connection] .
  have "list_all goes_on (butlast ?orders)"
    using connection iota_outputs.loop_goes_on by (simp add: StartWrapListen_iota_def Let_def)
  from payments_valid [OF this] have paid: "wrap_payments m (Symbol_evm t2) (dom (sv_dealed st)) ?orders =
      wrap_payments m (Symbol_evm t2) (dom (sv_dealed st)) (valid_orders ?orders)" .
  have "with_amounts ?orders" by (rule orders_with_amounts [OF StartWrapListen_iota_ok])
  from listenWrap_pays [OF server this] show ?thesis unfolding paid valid .
qed

end
