(* ===== verification/Server_Demo.thy ===== *)
theory Server_Demo
  imports Server_Tasks Listeners
begin

text \<open>
  A concrete world for the properties of package server: the configuration of config/conf.toml with
  the pair SOON and sSOON, nodes that answer, and the server that \<open>ListenTokens\<close> sets up in it.
\<close>

section \<open>The world\<close>

definition demo_ctx :: msg_context where
  "demo_ctx = \<lparr>mc_SrcToken = ''IOTA'', mc_DestToken = ''sSOON'', mc_Method = ''unwrap'', mc_TxData = [1],
     mc_Timestamp = 900\<rparr>"

text \<open>The Shimmer node, with an output of the token of the configuration.\<close>

definition demo_soon_node :: smr_node where
  "demo_soon_node = demo_smr_node\<lparr>sn_native := Inr [\<lparr>pg_ids = Inr [[1]],
     pg_outputs = [basic_output 10 [(copy_bytes 38 [4], 70)] demo_self None None]\<rparr>]\<rparr>"

definition demo_env :: server_env where
  "demo_env = \<lparr>en_L = eth_demo, en_I = iota_demo demo_essence, en_C = demo_crypto, en_K = demo_keys,
     en_S = smpc_demo, en_conf = demo_config, en_eth = (\<lambda>t. demo_node (demo_tx []) False),
     en_iota = (\<lambda>t. demo_iota_node), en_smr = (\<lambda>t. demo_soon_node), en_smpc = demo_smpc_conn,
     en_polls = (\<lambda>i. demo_smpc_conn), en_store = None, en_accounts = None, en_now_ms = 1000000,
     en_ctx_Marshal = (\<lambda>c. ''context''), en_ctx_Unmarshal = (\<lambda>s. Inr demo_ctx)\<rparr>"

definition demo_dial :: "config_token \<Rightarrow> eth_env" where
  "demo_dial c = demo_node (demo_tx []) False"

definition demo_sSOON :: evm_token where
  "demo_sSOON = \<lparr>ev_rpc = ''https://json-rpc.evm.shimmer.network'',
     ev_wss = ''wss://ws.json-rpc.evm.shimmer.network'', ev_chainId = 1, ev_symbol = ''sSOON'',
     ev_contract = replicate 20 9, ev_account = replicate 20 8, ev_ListenType = 0,
     ev_ScanMaxHeight = 1000, ev_GasPriceUpper = 10\<rparr>"

definition demo_SOON :: smr_token where
  "demo_SOON = \<lparr>st_rpc = ''https://api.shimmer.network'', st_publicKey = replicate 32 5, st_hrp = ''smr'',
     st_address = Ed25519Address (replicate 32 5), st_walletAddr = ''smr'',
     st_tokenID = copy_bytes 38 [4], st_symbol = ''SOON''\<rparr>"

definition demo_server :: server where
  "demo_server = new_queue (queue_key eth_demo demo_sSOON)
     ((server_init empty_db)\<lparr>sv_evm := Map.empty, sv_src := [''SOON'' \<mapsto> SmrTok demo_SOON],
        sv_dest := [''sSOON'' \<mapsto> demo_sSOON]\<rparr>)"

lemma demo_env_simps [simp]:
  "en_L demo_env = eth_demo" "en_C demo_env = demo_crypto" "en_conf demo_env = demo_config"
  "en_I demo_env = iota_demo demo_essence" "en_S demo_env = smpc_demo" "en_smpc demo_env = demo_smpc_conn"
  "en_eth demo_env t = demo_node (demo_tx []) False" "en_store demo_env = None" "en_now demo_env = 1000"
  by (simp_all add: demo_env_def en_now_def)

lemma demo_key: "env_key demo_env ''sSOON'' = Ok (Inr (replicate 20 8, [3]))"
  "env_key demo_env ''smpc'' = Ok (Inr (replicate 20 8, [3]))" "env_key demo_env ''SOON'' = Ok (Inr (replicate 20 8, [3]))"
  by (simp_all add: env_key_def GetPrivateKey_def demo_env_def demo_config_def Load_def conf_file_def
      conf_SOON_def conf_sSOON_def demo_keys_def checkKeyStore_def demo_decrypt)

lemma demo_new_tokens:
  "NewShimmerToken eth_demo (iota_demo demo_essence) ''https://api.shimmer.network'' (hex_encode (replicate 32 5))
     ''SOON'' (hex_encode [4]) ''smr'' = Ok demo_SOON"
  "NewEvmToken eth_demo (demo_node (demo_tx []) False) ''https://json-rpc.evm.shimmer.network''
     ''wss://ws.json-rpc.evm.shimmer.network'' (''0x'' @ hex_encode (replicate 20 9)) ''sSOON'' (replicate 20 8) 0 1000 10
     = Inr demo_sSOON"
  by (simp_all add: NewShimmerToken_def eth_demo_def iota_demo_def demo_SOON_def NewEvmToken_def demo_node_def
      demo_sSOON_def right_bytes_def Let_def)

lemma demo_started: "started demo_env demo_dial empty_db demo_server [(SmrTok demo_SOON, demo_sSOON)]"
  using demo_new_tokens
  by (simp add: started_def ListenTokens_def demo_config_tokens listen_pair_def conf_SOON_def conf_sSOON_def
      NewSourceChain_def NewDestinationChain_def demo_dial_def MultiSignType_smr_def CenterSign_def EvmMultiSign_def
      MultiSignType_evm_def demo_server_def empty_db_def db_ok_def server_init_def)

definition demo_wrap :: swap_order where
  "demo_wrap = \<lparr>so_TxID = ''0x01'', so_FromToken = ''SOON'', so_ToToken = ''sSOON'', so_From = ''smr1'',
     so_To = ''0x'' @ hex_encode (replicate 20 2), so_Amount = Some 5, so_Org = [], so_Error = None, so_Type = 0\<rparr>"

lemma demo_symbol: "Symbol_evm demo_sSOON = ''sSOON''" by (simp add: Symbol_evm_def demo_sSOON_def)

lemma demo_server_simps [simp]:
  "sv_dealed demo_server = Map.empty" "sv_trace demo_server = []" "sv_db demo_server = empty_db"
  "queue_key eth_demo demo_sSOON \<in> dom (sv_evm demo_server)"
  by (simp_all add: demo_server_def server_init_def NewDealedOrdersCheck_def)

lemma demo_wrapped:
  "\<exists>st. dealWrapOrder demo_env (Some demo_sSOON) demo_wrap demo_server = Ok st \<and>
     sv_trace st = [WrapSent ''0x01'' (Some 5) (''0x'' @ hex_encode (replicate 20 2))]"
proof -
  have q: "queue_key (en_L demo_env) demo_sSOON \<in> dom (sv_evm (taken demo_env demo_wrap 1 demo_server))"
    by (simp only: taken_simps demo_env_simps demo_server_simps)
  have am: "so_Amount demo_wrap = Some 5" by (simp add: demo_wrap_def)
  have c: "crypto_lib_ok (en_C demo_env)" by (simp add: demo_crypto_ok)
  obtain st where st: "wrap_by_key demo_env demo_sSOON demo_wrap (taken demo_env demo_wrap 1 demo_server) = Ok st"
    using wrap_by_key_total [OF c q am] by blast
  from wrap_by_key_trace [OF st] have "sv_trace st = [WrapSent ''0x01'' (Some 5) (''0x'' @ hex_encode (replicate 20 2))]"
    by (simp add: demo_symbol demo_key demo_wrap_def)
  moreover have "so_ToToken demo_wrap = Symbol_evm demo_sSOON" by (simp add: demo_symbol demo_wrap_def)
  ultimately show ?thesis using st by (simp add: dealWrapOrder_eq)
qed

lemma demo_run:
  "\<exists>st. run demo_server [(demo_env, Wrapped demo_sSOON demo_wrap)] st \<and> paid ''0x01'' st = 1"
proof -
  obtain st where d: "dealWrapOrder demo_env (Some demo_sSOON) demo_wrap demo_server = Ok st"
    and "sv_trace st = [WrapSent ''0x01'' (Some 5) (''0x'' @ hex_encode (replicate 20 2))]"
    using demo_wrapped by blast
  moreover have "run demo_server ([] @ [(demo_env, Wrapped demo_sSOON demo_wrap)]) st"
    using run_start wrapped [OF d] by (rule run_step)
  ultimately show ?thesis by (intro exI [of _ st]) (simp add: paid_def)
qed

section \<open>Witnesses\<close>

theorem server_pays_once_witness:
  "\<exists>st. run demo_server [(demo_env, Wrapped demo_sSOON demo_wrap)] st \<and> paid ''0x01'' st = 1 \<and>
     paid ''0x01'' st \<le> resets [(demo_env, Wrapped demo_sSOON demo_wrap)] + 1"
proof -
  obtain st where st: "run demo_server [(demo_env, Wrapped demo_sSOON demo_wrap)] st" "paid ''0x01'' st = 1"
    using demo_run by blast
  with server_pays_once [OF demo_started st(1), of "''0x01''"] show ?thesis by blast
qed

theorem server_accepts_once_witness:
  "\<exists>st. run demo_server [(demo_env, Wrapped demo_sSOON demo_wrap)] st \<and> accepted_times ''key'' st \<le> 1"
  using demo_run server_accepts_once [OF demo_started] by blast

theorem server_stays_ok_witness:
  "\<exists>st. run demo_server [(demo_env, Wrapped demo_sSOON demo_wrap)] st \<and> paid ''0x01'' st = 1 \<and>
     server_ok (en_L demo_env) st"
  using demo_run server_stays_ok [OF demo_started] by blast

theorem dealWrapOrder_total_witness: "is_ok (dealWrapOrder demo_env (Some demo_sSOON) demo_wrap demo_server)"
  using dealWrapOrder_total [OF demo_started run_start, of "SmrTok demo_SOON" demo_sSOON demo_env demo_wrap]
  by (simp add: demo_crypto_ok demo_wrap_def)

theorem dealWrapOrder_pays_witness:
  "\<exists>st. dealWrapOrder demo_env (Some demo_sSOON) demo_wrap demo_server = Ok st \<and> ''0x01'' \<in> stored (sv_db st)"
proof -
  obtain st where d: "dealWrapOrder demo_env (Some demo_sSOON) demo_wrap demo_server = Ok st"
    using demo_wrapped by blast
  from dealWrapOrder_pays [OF d] d show ?thesis
    by (intro exI [of _ st]) (simp add: demo_symbol demo_wrap_def)
qed

section \<open>A validator\<close>

text \<open>The user has called unwrap for 60 tokens of the symbol IOTA, and another validator asks to sign
  the transaction with the hash 08 that pays them.\<close>

definition demo_call :: bytes where
  "demo_call = take 4 (MethodUnWrap eth_demo) @ demo_target @ bytes_of_string ''IOTA'' @ replicate 28 0 @
     replicate 31 0 @ [60]"

definition demo_native :: iota_token where "demo_native = demo_smr_token\<lparr>it_symbol := ''IOTA''\<rparr>"

definition demo_lib :: iota_lib where
  "demo_lib = (iota_demo demo_essence)\<lparr>address_String := (\<lambda>a. case a of
     Ed25519Address b \<Rightarrow> ''0x'' @ hex_encode b | OtherAddress n b \<Rightarrow> [])\<rparr>"

definition demo_validator :: server_env where
  "demo_validator = demo_env\<lparr>en_I := demo_lib, en_eth := (\<lambda>t. demo_node (demo_tx demo_call) False)\<rparr>"

definition demo_request :: sign_info where
  "demo_request = \<lparr>sg_Account = ''0xab'', sg_GroupID = ''gid'', sg_Key = ''key1'', sg_KeyType = ''ED25519'',
     sg_Mode = ''0'', sg_MsgContext = [''context''], sg_MsgHash = [hex_encode [8]], sg_Nonce = ''1'',
     sg_PubKey = ''pub'', sg_ThresHold = ''2/3'', sg_TimeStamp = ''900''\<rparr>"

definition demo_accepting :: server where
  "demo_accepting = (server_init empty_db)\<lparr>sv_src := [''IOTA'' \<mapsto> IotaTok demo_native],
     sv_dest := [''sSOON'' \<mapsto> demo_sSOON]\<rparr>"

lemma demo_validator_simps [simp]:
  "en_L demo_validator = eth_demo" "en_I demo_validator = demo_lib" "en_C demo_validator = demo_crypto"
  "en_conf demo_validator = demo_config" "en_now demo_validator = 1000" "en_S demo_validator = smpc_demo"
  "en_eth demo_validator t = demo_node (demo_tx demo_call) False" "en_smpc demo_validator = demo_smpc_conn"
  "en_ctx_Unmarshal demo_validator s = Inr demo_ctx"
  by (simp_all add: demo_validator_def demo_env_def en_now_def)

lemma demo_validator_key: "env_key demo_validator ''smpc'' = Ok (Inr (replicate 20 8, [3]))"
  using demo_key(2) by (simp add: env_key_def demo_validator_def)

lemma demo_accepting_simps [simp]:
  "sg_MsgContext demo_request = [''context'']" "sg_MsgHash demo_request = [hex_encode [8]]"
  "sg_Key demo_request = ''key1''" "mc_SrcToken demo_ctx = ''IOTA''" "mc_DestToken demo_ctx = ''sSOON''"
  "mc_Method demo_ctx = ''unwrap''" "mc_TxData demo_ctx = [1]" "mc_Timestamp demo_ctx = 900"
  "sv_src demo_accepting ''IOTA'' = Some (IotaTok demo_native)"
  "sv_dest demo_accepting ''sSOON'' = Some demo_sSOON"
  "\<not> sv_accepted demo_accepting k" "sv_trace demo_accepting = []"
  by (simp_all add: demo_request_def demo_ctx_def demo_accepting_def server_init_def)

lemma demo_age [simp]: "request_age demo_validator demo_ctx = 100"
  by (simp add: request_age_def)

lemma demo_symbol_iota [simp]: "Symbol_iota demo_native = ''IOTA''"
  by code_simp

lemma demo_base_tx: "ValiditeUnWrapTxData_iota demo_lib demo_native [8] [1] =
    Ok \<lparr>bt_Txid = [9], bt_To = ''0x'' @ hex_encode demo_target, bt_Amount = Some 60\<rparr>"
  by code_simp

lemma demo_call_parts: "unwrap_call eth_demo demo_call (''0x'' @ hex_encode demo_target) ''IOTA'' 60"
proof -
  have a: "length (take 4 (MethodUnWrap eth_demo)) = 4"
    by (simp add: MethodUnWrap_def topic_def eth_demo_def)
  have b: "length demo_target = 32" "FromHex eth_demo (''0x'' @ hex_encode demo_target) = demo_target"
    by (simp_all add: demo_target_def eth_demo_def)
  have c: "take 32 (drop 36 demo_call) = bytes_of_string ''IOTA'' @ replicate 28 0"
    "drop 68 demo_call = replicate 31 0 @ [60]"
    using a b by (simp_all add: demo_call_def bytes_of_string_def)
  have d: "string_of_bytes (takeWhile (\<lambda>x. x \<noteq> 0) (bytes_of_string ''IOTA'' @ replicate 28 0)) = ''IOTA''"
    by code_simp
  have "big_set_bytes (replicate 31 0 @ [60]) = 60" by code_simp
  with a b c d show ?thesis
    by (simp add: unwrap_call_def) (simp add: demo_call_def bytes_of_string_def)
qed

lemma demo_hash: "FromHex eth_demo (hex_encode [8]) = [8]" by (simp add: eth_demo_def)

lemma demo_accept_checks: "accept_checks demo_validator demo_request demo_accepting = Ok ()"
proof -
  have c: "CheckUnWrapTx_evm eth_demo (demo_node (demo_tx demo_call) False) [9]
      (''0x'' @ hex_encode demo_target) ''IOTA'' 60 = Ok ()"
    using demo_call_parts
    by (simp add: CheckUnWrapTx_evm_def check_unwrap_data_iff demo_node_def demo_tx_def NewTransaction_def)
  have o: "vc_AcceptOverTime (cf_Server demo_config) = 7200"
    by (simp add: demo_config_def Load_def conf_file_def conf_SOON_def conf_sSOON_def demo_keys_def
      checkKeyStore_def demo_decrypt load_pairs_def)
  with c demo_base_tx demo_hash show ?thesis by (simp add: accept_checks_def UnwrapMethod_def)
qed

theorem accept_only_user_unwraps_witness:
  "\<exists>st' nxt amount. accept_info demo_validator demo_request demo_accepting = Ok (st', nxt) \<and>
     sv_trace st' \<noteq> [] \<and> unwrap_call eth_demo demo_call (''0x'' @ hex_encode demo_target) ''IOTA'' amount"
proof -
  obtain call where c: "sm_client (en_smpc demo_validator) = Some call"
    by (simp add: demo_smpc_conn_def InitSmpc_def)
  from accept_info_accepts [OF demo_accept_checks _ demo_validator_key c]
  obtain st' where r: "accept_info demo_validator demo_request demo_accepting = Ok (st', GoOn)" "sv_trace st' \<noteq> []"
    by (auto simp: traced_def)
  from r(2) have "sv_trace st' \<noteq> sv_trace demo_accepting" by simp
  from accept_only_user_unwraps [OF r(1) this] r show ?thesis
    by (auto simp: demo_hash demo_base_tx demo_node_def demo_tx_def NewTransaction_def)
qed

theorem accept_not_per_transaction_witness:
  "\<exists>st' c1 c2. accept_infos demo_validator [demo_request, demo_request\<lparr>sg_Key := ''key2''\<rparr>] demo_accepting =
       Ok (st', GoOn) \<and> sv_trace st' = [SignAccepted ''key1'' c1, SignAccepted ''key2'' c2]"
proof -
  obtain call where "sm_client (en_smpc demo_validator) = Some call"
    by (simp add: demo_smpc_conn_def InitSmpc_def)
  from accept_not_per_transaction [OF demo_accept_checks _ _ _ demo_validator_key this, of "''key2''"]
  show ?thesis by simp
qed

section \<open>Other handlers\<close>

definition demo_unwrap :: swap_order where
  "demo_unwrap = demo_wrap\<lparr>so_TxID := ''0x02'', so_FromToken := ''sSOON'', so_ToToken := ''SOON'',
     so_To := hex_encode demo_target\<rparr>"

lemma demo_unwrapped:
  "\<exists>st. dealUnWrapOrder demo_env (Some (SmrTok demo_SOON)) demo_unwrap demo_server = Some (Ok st) \<and>
     sv_trace st = [UnWrapSent ''0x02'' (Some 5) (hex_encode demo_target)]"
proof -
  have send: "SendUnWrap_smr (iota_demo demo_essence) demo_soon_node demo_SOON ''0x02'' 5 (hex_encode demo_target) [3]
      = Ok [1, 2]" by code_simp
  have o: "so_TxID demo_unwrap = ''0x02''" "so_Amount demo_unwrap = Some 5" "so_To demo_unwrap = hex_encode demo_target"
    "so_ToToken demo_unwrap = ''SOON''" "Symbol_smr demo_SOON = ''SOON''"
    by (simp_all add: demo_unwrap_def demo_wrap_def Symbol_smr_def demo_SOON_def)
  have row: "snd (unwrap_row demo_env demo_unwrap demo_server) = None"
    by (simp add: unwrap_row_def StoreSwapOrder_def empty_db_def Let_def)
  have "en_smr demo_env t = demo_soon_node" for t by (simp add: demo_env_def)
  with send o row demo_key(3) show ?thesis
    by (simp add: dealUnWrapOrder_eq unwrap_allowed_def unwrap_by_key_def traced_def
        MultiSignType_smr_def CenterSign_def EvmMultiSign_def SmpcSign_def)
qed

theorem dealUnWrapOrder_once_per_row_witness:
  "\<exists>st. dealUnWrapOrder demo_env (Some (SmrTok demo_SOON)) demo_unwrap demo_server = Some (Ok st) \<and>
     ''0x02'' \<in> stored (sv_db st)"
proof -
  obtain st where d: "dealUnWrapOrder demo_env (Some (SmrTok demo_SOON)) demo_unwrap demo_server = Some (Ok st)"
    "sv_trace st \<noteq> sv_trace demo_server" using demo_unwrapped by auto
  from dealUnWrapOrder_once_per_row [OF d(1) _ d(2)] d(1) show ?thesis
    by (auto simp: demo_unwrap_def MultiSignType_smr_def CenterSign_def EvmMultiSign_def)
qed

text \<open>A sent transaction whose block the node has not referenced yet.\<close>

definition demo_row :: db_order where "demo_row = (order_row demo_unwrap (- 1) 5)\<lparr>wo_Hash := hex_encode (replicate 32 1)\<rparr>"

definition demo_sent :: server where
  "demo_sent = (server_init empty_db)\<lparr>sv_iota := iota_push demo_row (IotaTok demo_native) empty_sent_iota\<rparr>"

theorem recheck_iota_turn_cases_witness:
  "\<exists>st. recheck_iota_turn demo_env None \<lparr>f_begin = None, f_delete = None, f_insert = None, f_commit = None\<rparr>
     demo_sent = Ok st \<and> iota_items (sv_iota st) = [(demo_row, IotaTok demo_native)] \<and> sv_db st = empty_db"
proof -
  have c: "\<exists>e. CheckSentTx_src demo_env (IotaTok demo_native)
      (hex_decoded (wo_Hash demo_row)) = (True, Some e)"
    by (simp add: demo_row_def demo_env_def CheckSentTx_iota_def demo_iota_node_def)
  then obtain e where c: "CheckSentTx_src demo_env (IotaTok demo_native)
      (hex_decoded (wo_Hash demo_row)) = (True, Some e)" ..
  have "iota_ok (sv_iota demo_sent)" "iota_items (sv_iota demo_sent) = [(demo_row, IotaTok demo_native)]"
    by (simp_all add: demo_sent_def iota_push_def empty_sent_iota_def iota_ok_def iota_items_def)
  from recheck_iota_turn_cases [OF this c] show ?thesis by (auto simp: demo_sent_def server_init_def)
qed

text \<open>A queue with an entry older than three times \<open>PendingTime\<close> and a young one.\<close>

definition demo_queue :: "evm_token evm_queue" where
  "demo_queue = evm_Push [2] demo_sSOON 900 (evm_Push [1] demo_sSOON 50 NewSentEvmTxQueue)"

lemma demo_queue_ok: "evm_ok demo_queue" "evm_items demo_queue = [([1], demo_sSOON, 50), ([2], demo_sSOON, 900)]"
  by (simp_all add: demo_queue_def evm_Push_def NewSentEvmTxQueue_def evm_ok_def evm_items_def)

lemma demo_calls: "calls_only (en_eth demo_env t)"
  by (simp add: calls_only_def demo_node_def demo_tx_def NewTransaction_def)

theorem recheck_loop_keeps_young_witness:
  "\<exists>q. recheck_loop demo_env demo_queue = Ok q \<and> ([2], demo_sSOON, 900) \<in> set (evm_items q)"
proof -
  from recheck_loop_keeps_young [of demo_env demo_queue] demo_crypto_ok demo_calls demo_queue_ok
  obtain q where q: "recheck_loop demo_env demo_queue = Ok q"
    "rechecked demo_env [([1], demo_sSOON, 50), ([2], demo_sSOON, 900)] (evm_items q)" by auto
  have y: "\<not> old_entry demo_env ([2], demo_sSOON, 900)" by (simp add: old_entry_def demo_config_tokens)
  from q(2) obtain n where n: "list_all (old_entry demo_env) (take n [([1], demo_sSOON, 50), ([2], demo_sSOON, 900)])"
    "evm_items q = drop n [([1], demo_sSOON, 50), ([2], demo_sSOON, 900)] \<or>
     (\<exists>x rest h'. drop n [([1], demo_sSOON, 50), ([2], demo_sSOON, 900)] = x # rest \<and> old_entry demo_env x \<and>
        evm_items q = (h', fst (snd x), en_now demo_env) # rest)"
    unfolding rechecked_def by blast
  with y have "n = 0 \<or> n = 1" by (cases n; cases "n - 1") auto
  with n y q(1) show ?thesis by auto
qed

theorem recheck_round_push_witness:
  "\<exists>q b. recheck_round demo_env (evm_Push [3] demo_sSOON 999 demo_queue) = Ok (evm_Push [3] demo_sSOON 999 q, b)"
proof -
  have "calls_only (en_eth demo_env t)" for t by (rule demo_calls)
  with recheck_round_total [of demo_env demo_queue] demo_crypto_ok demo_queue_ok
  obtain q b where r: "recheck_round demo_env demo_queue = Ok (q, b)" by auto
  from recheck_round_push [OF demo_queue_ok(1) _ r] demo_queue_ok(2) show ?thesis by auto
qed

definition demo_record :: tx_error_record where
  "demo_record = \<lparr>ter_D = 1, ter_Txid = replicate 32 7, ter_FromCoin = ''SOON'', ter_ToCoin = ''sSOON'',
     ter_Error = None, ter_Type = 0\<rparr>"

definition demo_served :: server where
  "demo_served = demo_server\<lparr>sv_users := map_Push (replicate 32 7) 900 (sv_users demo_server)\<rparr>"

theorem served_record_ignored_witness:
  "dealTxErrorRecord demo_env demo_record demo_served = Some (Ok demo_served)"
proof -
  have e: "map_Exist (ter_Txid demo_record) (sv_users demo_served)"
    by (simp add: demo_record_def demo_served_def map_Exist_def map_Push_def)
  have s: "sv_src demo_served ''SOON'' = Some (SmrTok demo_SOON)"
    by (simp add: demo_served_def demo_server_def)
  have "\<exists>st. dealTxErrorRecord demo_env demo_record demo_served = Some (Ok st)"
    using e s by (simp add: dealTxErrorRecord_def demo_record_def CheckUserTx_smr_def)
  with served_record_ignored [OF e] show ?thesis by blast
qed

lemma demo_server_fields:
  "sv_users demo_server = Map.empty" "sv_src demo_server ''SOON'' = Some (SmrTok demo_SOON)"
  "sv_dest demo_server ''sSOON'' = Some demo_sSOON"
  by (simp_all add: demo_server_def server_init_def NewSentEvmMap_def new_queue_def split: option.split)

theorem shimmer_record_blocks_id_witness:
  "\<exists>st id0. dealTxErrorRecord demo_env demo_record demo_server = Some (Ok st) \<and>
     (\<forall>order. so_TxID order = id0 \<longrightarrow> dealWrapOrder demo_env (Some demo_sSOON) order st = Ok st)"
proof -
  have "sv_src demo_server (ter_FromCoin demo_record) = Some (SmrTok demo_SOON)"
    "sv_dest demo_server (ter_ToCoin demo_record) = Some demo_sSOON" "ter_D demo_record = 1"
    "Symbol_evm demo_sSOON = ter_ToCoin demo_record" "\<not> map_Exist (ter_Txid demo_record) (sv_users demo_server)"
    "hexutil_Encode (en_L demo_env) (ter_Txid demo_record) \<notin> dom (sv_dealed demo_server) \<union> stored (sv_db demo_server)"
    "crypto_lib_ok (en_C demo_env)" "HexToAddress (en_L demo_env) [] = replicate 20 0" "en_store demo_env = None"
    by (simp_all add: demo_record_def demo_symbol demo_crypto_ok demo_server_fields map_Exist_def empty_db_def
        stored_def eth_demo_def right_bytes_def demo_FromHex_def strip_0x_def)
  from shimmer_record_blocks_id [OF this(1,3,2,4-9)] show ?thesis by blast
qed


text \<open>A wrap order, an unreadable one, the first again, one that is too small, a lost connection.\<close>

definition demo_channel :: "swap_order list" where
  "demo_channel = [demo_wrap\<lparr>so_Amount := Some 500000\<rparr>, error_order 1 (Errorf ''output''), demo_wrap, demo_wrap\<lparr>so_TxID := ''0x03'',
     so_Amount := Some (- 1)\<rparr>, error_order 0 (Errorf ''lost'')]"

lemma demo_can_pay: "Symbol_src t = ''SOON'' \<Longrightarrow> can_pay 1 t demo_sSOON demo_server demo_env"
  using demo_key(1) by (simp add: can_pay_def demo_crypto_ok demo_symbol demo_config_tokens conf_SOON_def del: demo_server_simps(4))
    (metis demo_server_simps(4) demo_env_simps(1) domI)

theorem listenWrap_pays_wraps_witness:
  "\<exists>st. listenWrap (\<lambda>i. demo_env) (SmrTok demo_SOON) demo_sSOON 0 demo_channel demo_server = Ok st \<and>
     sv_trace st = [WrapSent ''0x01'' (Some 500000) (''0x'' @ hex_encode (replicate 20 2))]"
proof -
  have "\<forall>j :: nat. can_pay 1 (SmrTok demo_SOON) demo_sSOON demo_server demo_env"
    by (intro allI demo_can_pay) (simp add: Symbol_smr_def demo_SOON_def)
  moreover have "\<forall>order \<in> set demo_channel. so_Error order = None \<longrightarrow> so_Amount order \<noteq> None"
    by (simp add: demo_channel_def demo_wrap_def error_order_def)
  ultimately have "\<exists>st. listenWrap (\<lambda>i. demo_env) (SmrTok demo_SOON) demo_sSOON 0 demo_channel demo_server = Ok st \<and>
      sv_trace st = sv_trace demo_server @ wrap_payments 1 (Symbol_evm demo_sSOON) (dom (sv_dealed demo_server)) demo_channel"
    by (rule listenWrap_pays_wraps)
  then show ?thesis by (simp add: demo_symbol demo_channel_def demo_wrap_def error_order_def)
qed

definition demo_scan :: "bytes \<Rightarrow> listen_world" where
  "demo_scan event = \<lparr>lw_start = Inr 15, lw_inputs = demo_watch event, lw_dial = Inr (), lw_subscribe = (\<lambda>q. Inr [])\<rparr>"

lemma demo_scan_simps [simp]: "lw_start (demo_scan event) = Inr 15" "lw_inputs (demo_scan event) = demo_watch event"
  by (simp_all add: demo_scan_def)

lemma demo_source_scans: "ev_ListenType demo_source = ScanBlock" "0 < ev_ScanMaxHeight demo_source"
  by (simp_all add: demo_source_def demo_token_def)

theorem logged_wraps_are_paid_witness:
  "\<exists>orders st. StartWrapListen_evm eth_demo demo_source (demo_scan (EventWrap eth_demo)) = Ok orders \<and>
     listenWrap (\<lambda>i. demo_env) (EvmTok demo_source) demo_sSOON 0 orders demo_server = Ok st \<and>
     sv_trace st = [WrapSent (''0x'' @ hex_encode (replicate 32 1)) (Some 500000) (''0x'' @ hex_encode (replicate 20 4))]"
proof -
  have server: "\<forall>j :: nat. can_pay 1 (EvmTok demo_source) demo_sSOON demo_server demo_env"
    by (intro allI demo_can_pay) (simp add: Symbol_evm_def demo_source_def)
  let ?lw = "demo_scan (EventWrap eth_demo)"
  have lw: "lw_start ?lw = Inr 15" "scan_run (scan_step eth_demo demo_source (EventWrap eth_demo)) 15 (lw_inputs ?lw) =
      Ok ([error_order 1 (Wrapf ''BlockNumber error. '' (Errorf ''eof'')),
        demo_logged (address_Hex eth_demo (replicate 20 4))], 23, [(15, 17), (18, 22)])"
    "list_all height_ok (lw_inputs ?lw)"
    "list_all (answers_from (demo_chain (EventWrap eth_demo)) demo_source (EventWrap eth_demo)) (lw_inputs ?lw)"
    using demo_watch_run demo_watch_ok by simp_all
  from logged_wraps_are_paid [OF demo_source_scans lw server, of 0] obtain os st where
    "StartWrapListen_evm eth_demo demo_source ?lw = Ok [error_order 1 (Wrapf ''BlockNumber error. '' (Errorf ''eof'')),
        demo_logged (address_Hex eth_demo (replicate 20 4))]"
    "deal_logs eth_demo demo_source (chain_logs (demo_chain (EventWrap eth_demo)) (unat (15 :: u64)) (unat (23 :: u64))) = Ok os"
    "listenWrap (\<lambda>i. demo_env) (EvmTok demo_source) demo_sSOON 0 [error_order 1 (Wrapf ''BlockNumber error. '' (Errorf ''eof'')),
        demo_logged (address_Hex eth_demo (replicate 20 4))] demo_server = Ok st"
    "sv_trace st = sv_trace demo_server @ wrap_payments 1 (Symbol_evm demo_sSOON) (dom (sv_dealed demo_server)) os"
    by (elim exE conjE) (rule that)
  moreover have "os = [demo_logged (address_Hex eth_demo (replicate 20 4))]"
    using calculation(2) unfolding demo_chain_logs demo_deal_log by simp
  ultimately show ?thesis by (simp add: demo_symbol demo_logged_def eth_demo_def)
qed

theorem logged_unwraps_are_paid_witness:
  "\<exists>orders st. StartUnWrapListen_evm eth_demo demo_source (demo_scan (EventUnWrap eth_demo)) = Ok orders \<and>
     listenUnWrap (\<lambda>i. demo_env) (EvmTok demo_sSOON) demo_source 0 orders demo_server = Some (Ok st) \<and>
     sv_trace st = [UnWrapSent (''0x'' @ hex_encode (replicate 32 1)) (Some 500000) (hex_encode (replicate 32 4))]"
proof -
  have "can_pay 1 (EvmTok demo_source) demo_sSOON demo_server demo_env"
    by (rule demo_can_pay) (simp add: Symbol_evm_def demo_source_def)
  then have server: "\<forall>j :: nat. can_unwrap 1 demo_sSOON demo_source demo_server demo_env"
    unfolding can_pay_def can_unwrap_def by simp
  let ?lw = "demo_scan (EventUnWrap eth_demo)"
  have lw: "lw_start ?lw = Inr 15" "scan_run (scan_step eth_demo demo_source (EventUnWrap eth_demo)) 15 (lw_inputs ?lw) =
      Ok ([error_order 1 (Wrapf ''BlockNumber error. '' (Errorf ''eof'')),
        demo_logged (Bytes2Hex eth_demo (replicate 32 4))], 23, [(15, 17), (18, 22)])"
    "list_all height_ok (lw_inputs ?lw)"
    "list_all (answers_from (demo_chain (EventUnWrap eth_demo)) demo_source (EventUnWrap eth_demo)) (lw_inputs ?lw)"
    using demo_watch_run demo_watch_ok by simp_all
  from logged_unwraps_are_paid [OF demo_source_scans lw server, of 0] obtain os st where
    "StartUnWrapListen_evm eth_demo demo_source ?lw = Ok [error_order 1 (Wrapf ''BlockNumber error. '' (Errorf ''eof'')),
        demo_logged (Bytes2Hex eth_demo (replicate 32 4))]"
    "deal_logs eth_demo demo_source (chain_logs (demo_chain (EventUnWrap eth_demo)) (unat (15 :: u64)) (unat (23 :: u64))) = Ok os"
    "listenUnWrap (\<lambda>i. demo_env) (EvmTok demo_sSOON) demo_source 0 [error_order 1 (Wrapf ''BlockNumber error. '' (Errorf ''eof'')),
        demo_logged (Bytes2Hex eth_demo (replicate 32 4))] demo_server = Some (Ok st)"
    "sv_trace st = sv_trace demo_server @ unwrap_payments 1 (Symbol_evm demo_sSOON) (dom (sv_dealed demo_server)) os"
    by (elim exE conjE) (rule that)
  moreover have "os = [demo_logged (Bytes2Hex eth_demo (replicate 32 4))]"
    using calculation(2) unfolding demo_chain_logs demo_deal_log by simp
  ultimately show ?thesis by (simp add: demo_symbol demo_logged_def eth_demo_def)
qed

definition demo_received :: iota_lib where
  "demo_received = (iota_demo demo_essence)\<lparr>Unmarshal_WrapOrder :=
     (\<lambda>d. Inr \<lparr>w_Tag = [], w_From = ''from'', w_To = ''to'', w_Symbol = ''sSOON''\<rparr>)\<rparr>"

theorem received_wraps_are_paid_witness:
  "\<exists>orders st. snd (StartWrapListen_iota demo_received demo_smr_token
     \<lparr>ow_Info = Inr \<lparr>pp_NetworkID = 1, pp_VByteCost = 3\<rparr>, ow_EventAPI = Inr (), ow_Connect = None,
       ow_Subscribe = Inr [RecOutput (Inr demo_output) ''b1'' 0, RecOutput (Inl (Errorf ''bech32'')) ''b2'' 0,
         RecOutput (Inr demo_output) ''b1'' 1, EventError (Errorf ''closed'')]\<rparr>) = orders \<and>
     listenWrap (\<lambda>i. demo_env) (IotaTok demo_smr_token) demo_sSOON 0 orders demo_server = Ok st \<and>
     sv_trace st = [WrapSent ''b1'' (Some 60) ''to'']"
proof -
  have server: "\<forall>j :: nat. can_pay 1 (IotaTok demo_smr_token) demo_sSOON demo_server demo_env"
    by (intro allI demo_can_pay) (simp add: Symbol_iota_def demo_smr_token_def upper_char_def)
  have a: "accepted_order demo_received demo_smr_token (RecOutput (Inr demo_output) ''b1'' n) =
      [\<lparr>so_TxID = ''b1'', so_FromToken = ''SOON'', so_ToToken = ''sSOON'', so_From = ''from'', so_To = ''to'',
        so_Amount = Some 60, so_Org = [], so_Error = None, so_Type = 0\<rparr>]" for n
    by (simp add: accepted_order_def getWrapOrderByOutput_def getWrapOrderFromMetaData_def getAmountFromOutput_def
        demo_output_def demo_received_def demo_smr_token_def Let_def)
  have b: "accepted_order demo_received demo_smr_token (RecOutput (Inl e) b n) = []" for e b n
    by (simp add: accepted_order_def)
  let ?N = "\<lparr>ow_Info = Inr \<lparr>pp_NetworkID = 1, pp_VByteCost = 3\<rparr>, ow_EventAPI = Inr (), ow_Connect = None,
     ow_Subscribe = Inr [RecOutput (Inr demo_output) ''b1'' 0, RecOutput (Inl (Errorf ''bech32'')) ''b2'' 0,
       RecOutput (Inr demo_output) ''b1'' 1, EventError (Errorf ''closed'')]\<rparr>"
  have c: "ow_Info ?N = Inr \<lparr>pp_NetworkID = 1, pp_VByteCost = 3\<rparr>" "ow_EventAPI ?N = Inr ()" "ow_Connect ?N = None"
    "ow_Subscribe ?N = Inr [RecOutput (Inr demo_output) ''b1'' 0, RecOutput (Inl (Errorf ''bech32'')) ''b2'' 0,
       RecOutput (Inr demo_output) ''b1'' 1, EventError (Errorf ''closed'')]"
    by simp_all
  from received_wraps_are_paid [OF c server, of 0 demo_received]
  show ?thesis by (simp add: a b is_event_error_def demo_symbol)
qed

end
