(* ===== verification/Threads.thy ===== *)
theory Threads
  imports Prelude_Go
begin

text \<open>
  Goroutines over shared variables. A program is what a goroutine still has to do: a tree of atomic
  steps on the shared state, each of which returns the rest. Its own variables live in the closures.
  A goroutine has ended (\<open>Stop\<close>), has panicked (\<open>Crash\<close>), has left with an error that no caller looks
  at (\<open>Fail\<close>), or is in a call that does not come back (\<open>Hang\<close>).

  \<open>alone\<close> runs a program without interruption. A pool holds the goroutines of the process;
  \<open>advance\<close> lets the one at a position make its next step.
\<close>

section \<open>Programs\<close>

datatype 's prog = Stop | Crash string | Fail go_error | Hang | Step "'s \<Rightarrow> 's \<times> 's prog"

primrec alone :: "'s prog \<Rightarrow> 's \<Rightarrow> 's outcome option" where
  "alone Stop = (\<lambda>st. Some (Ok st))"
| "alone (Crash p) = (\<lambda>st. Some (Panic p))"
| "alone (Fail e) = (\<lambda>st. Some (Err e))"
| "alone Hang = (\<lambda>st. None)"
| "alone (Step f) = (\<lambda>st. case (map_prod id alone \<circ> f) st of (st', rest) \<Rightarrow> rest st')"

lemma alone_Step [simp]: "alone (Step f) st = (case f st of (st', p) \<Rightarrow> alone p st')"
  by (simp split: prod.split)

declare alone.simps(5) [simp del]

text \<open>A result that a goroutine goes on with, and an atomic step that may fail.\<close>

definition ensure :: "'a outcome \<Rightarrow> ('a \<Rightarrow> 's prog) \<Rightarrow> 's prog" where
  "ensure r k = (case r of Ok x \<Rightarrow> k x | Err e \<Rightarrow> Fail e | Panic p \<Rightarrow> Crash p)"

definition attempt :: "('s \<Rightarrow> ('s \<times> 'a) outcome) \<Rightarrow> ('a \<Rightarrow> 's prog) \<Rightarrow> 's prog" where
  "attempt f k = Step (\<lambda>st. case f st of
     Ok (st', x) \<Rightarrow> (st', k x) | Err e \<Rightarrow> (st, Fail e) | Panic p \<Rightarrow> (st, Crash p))"

lemma ensure_simps [simp]:
  "ensure (Ok x) k = k x" "ensure (Err e) k = Fail e" "ensure (Panic p) k = Crash p"
  by (simp_all add: ensure_def)

lemma alone_ensure: "alone (ensure r k) st = (case r of Ok x \<Rightarrow> alone (k x) st | Err e \<Rightarrow> Some (Err e) | Panic p \<Rightarrow> Some (Panic p))"
  by (cases r) simp_all

lemma alone_attempt: "alone (attempt f k) st =
    (case f st of Ok (st', x) \<Rightarrow> alone (k x) st' | Err e \<Rightarrow> Some (Err e) | Panic p \<Rightarrow> Some (Panic p))"
  by (auto simp: attempt_def split: outcome.split)

section \<open>Pools\<close>

type_synonym 's pool = "'s \<times> 's prog list"

inductive advance :: "nat \<Rightarrow> 's pool \<Rightarrow> 's pool \<Rightarrow> bool" where
  "i < length ps \<Longrightarrow> ps ! i = Step f \<Longrightarrow> f st = (st', p) \<Longrightarrow> advance i (st, ps) (st', ps[i := p])"

inductive_cases advanceE: "advance i (st, ps) pool'"

inductive advances :: "'s pool \<Rightarrow> nat list \<Rightarrow> 's pool \<Rightarrow> bool" where
  advances_refl: "advances pool [] pool"
| advances_step: "advances pool ks pool' \<Longrightarrow> advance i pool' pool'' \<Longrightarrow> advances pool (ks @ [i]) pool''"

lemma advances_trans: "advances pool' js pool'' \<Longrightarrow> advances pool ks pool' \<Longrightarrow> advances pool (ks @ js) pool''"
proof (induction rule: advances.induct)
  case (advances_step pool' js pool1 i pool2)
  then have "advances pool ((ks @ js) @ [i]) pool2" by (blast intro: advances.advances_step)
  then show ?case by simp
qed simp

lemma advances_one: "advance i pool pool' \<Longrightarrow> advances pool [i] pool'"
  using advances_step [OF advances_refl] by fastforce

text \<open>A program that ends when it runs alone also ends as a goroutine that is scheduled without
  interruption, with the same state, and the others stay where they are.\<close>

lemma alone_advances:
  "alone p st = Some (Ok st') \<Longrightarrow> i < length ps \<Longrightarrow> ps ! i = p \<Longrightarrow>
     \<exists>n. advances (st, ps) (replicate n i) (st', ps[i := Stop])"
proof (induction p arbitrary: st ps)
  case Stop
  then have "advances (st, ps) (replicate 0 i) (st', ps[i := Stop])"
    using list_update_id [of ps i] by (simp add: advances_refl)
  then show ?case by blast
next
  case (Step f)
  obtain st1 p where f: "f st = (st1, p)" by fastforce
  have a: "advance i (st, ps) (st1, ps[i := p])" using Step.prems f by (intro advance.intros [where f = f]) simp_all
  have "alone p st1 = Some (Ok st')" using Step.prems(1) f by simp
  moreover have "(st1, p) \<in> range f" using rangeI [of f st] unfolding f .
  moreover have "p \<in> Basic_BNFs.snds (st1, p)" by simp
  ultimately obtain n where "advances (st1, ps[i := p]) (replicate n i) (st', ps[i := p, i := Stop])"
    using Step.IH [of "(st1, p)" p st1 "ps[i := p]"] Step.prems(2) by auto
  from advances_trans [OF this advances_one [OF a]] have
    "advances (st, ps) (replicate (Suc n) i) (st', ps[i := Stop])" by simp
  then show ?case by blast
qed simp_all

text \<open>Where a program gets to without interruption, with the state in which it ends.\<close>

primrec finish :: "'s prog \<Rightarrow> 's \<Rightarrow> 's \<times> 's prog" where
  "finish Stop = (\<lambda>st. (st, Stop))"
| "finish (Crash p) = (\<lambda>st. (st, Crash p))"
| "finish (Fail e) = (\<lambda>st. (st, Fail e))"
| "finish Hang = (\<lambda>st. (st, Hang))"
| "finish (Step f) = (\<lambda>st. case (map_prod id finish \<circ> f) st of (st', rest) \<Rightarrow> rest st')"

lemma finish_Step [simp]: "finish (Step f) st = (case f st of (st', p) \<Rightarrow> finish p st')"
  by (simp split: prod.split)

declare finish.simps(5) [simp del]

lemma finish_advances:
  "finish p st = (st', p') \<Longrightarrow> i < length ps \<Longrightarrow> ps ! i = p \<Longrightarrow>
     \<exists>n. advances (st, ps) (replicate n i) (st', ps[i := p'])"
proof (induction p arbitrary: st ps)
  case (Step f)
  obtain st1 p where f: "f st = (st1, p)" by fastforce
  have a: "advance i (st, ps) (st1, ps[i := p])" using Step.prems f by (intro advance.intros [where f = f]) simp_all
  have "finish p st1 = (st', p')" using Step.prems(1) f by simp
  moreover have "(st1, p) \<in> range f" using rangeI [of f st] unfolding f .
  moreover have "p \<in> Basic_BNFs.snds (st1, p)" by simp
  ultimately obtain n where "advances (st1, ps[i := p]) (replicate n i) (st', ps[i := p, i := p'])"
    using Step.IH [of "(st1, p)" p st1 "ps[i := p]"] Step.prems(2) by fastforce
  from advances_trans [OF this advances_one [OF a]] have
    "advances (st, ps) (replicate (Suc n) i) (st', ps[i := p'])" by simp
  then show ?case by blast
qed (auto intro!: exI [of _ 0] simp: list_update_same_conv [THEN iffD2] advances_refl)

section \<open>What every step of a program does\<close>

text \<open>Every step that a program can still make, from whatever state it finds, stays within a relation.\<close>

inductive keeps :: "('s \<Rightarrow> 's \<Rightarrow> bool) \<Rightarrow> 's prog \<Rightarrow> bool" for R where
  keeps_Stop: "keeps R Stop"
| keeps_Crash: "keeps R (Crash p)"
| keeps_Fail: "keeps R (Fail e)"
| keeps_Hang: "keeps R Hang"
| keeps_Step: "(\<And>st. R st (fst (f st))) \<Longrightarrow> (\<And>st. keeps R (snd (f st))) \<Longrightarrow> keeps R (Step f)"

inductive_simps keeps_simps [simp]:
  "keeps R Stop" "keeps R (Crash p)" "keeps R (Fail e)" "keeps R Hang" "keeps R (Step f)"

text \<open>A program with a credit: its steps raise a measure of the state by no more than the credit they
  use up.\<close>

inductive spends :: "('s \<Rightarrow> nat) \<Rightarrow> nat \<Rightarrow> 's prog \<Rightarrow> bool" for m where
  spends_Stop: "spends m c Stop"
| spends_Crash: "spends m c (Crash p)"
| spends_Fail: "spends m c (Fail e)"
| spends_Hang: "spends m c Hang"
| spends_Step: "(\<And>st. \<exists>c'. spends m c' (snd (f st)) \<and> m (fst (f st)) + c' \<le> m st + c) \<Longrightarrow> spends m c (Step f)"

inductive_simps spends_simps [simp]:
  "spends m c Stop" "spends m c (Crash p)" "spends m c (Fail e)" "spends m c Hang" "spends m c (Step f)"

text \<open>The two for results and steps that may fail.\<close>

lemma keeps_ensure [intro]: "(\<And>x. keeps R (k x)) \<Longrightarrow> keeps R (ensure r k)"
  by (cases r) simp_all

lemma spends_ensure [intro]: "(\<And>x. spends m c (k x)) \<Longrightarrow> spends m c (ensure r k)"
  by (cases r) simp_all

lemma keeps_attempt:
  assumes "\<And>st. R st st" and "\<And>st st' x. f st = Ok (st', x) \<Longrightarrow> R st st'" and "\<And>x. keeps R (k x)"
  shows "keeps R (attempt f k)"
  using assms by (auto simp: attempt_def split: outcome.split)

lemma spends_attempt:
  assumes "\<And>st st' x. f st = Ok (st', x) \<Longrightarrow> m st' \<le> m st" and "\<And>x. spends m c (k x)"
  shows "spends m c (attempt f k)"
proof -
  have "\<exists>c'. spends m c' (snd (case f st of Ok (st', x) \<Rightarrow> (st', k x) | Err e \<Rightarrow> (st, Fail e) | Panic p \<Rightarrow> (st, Crash p))) \<and>
      m (fst (case f st of Ok (st', x) \<Rightarrow> (st', k x) | Err e \<Rightarrow> (st, Fail e) | Panic p \<Rightarrow> (st, Crash p))) + c' \<le> m st + c" for st
    using assms(1) [of st] assms(2) by (intro exI [of _ c]) (auto split: outcome.split)
  then show ?thesis by (simp add: attempt_def)
qed

text \<open>A pool all of whose programs stay within a relation that is a preorder moves within it.\<close>

lemma advance_keeps:
  assumes "advance i (st, ps) (st', ps')" and "list_all (keeps R) ps"
  shows "R st st' \<and> list_all (keeps R) ps'"
proof -
  from assms(1) obtain f p where i: "i < length ps" "ps ! i = Step f" and f: "f st = (st', p)" and ps': "ps' = ps[i := p]"
    by (auto elim: advanceE)
  have "keeps R (Step f)" using i assms(2) by (metis list_all_length)
  then have "R st (fst (f st)) \<and> keeps R (snd (f st))" by simp
  with f i ps' assms(2) show ?thesis by (auto simp: list_all_length nth_list_update)
qed

text \<open>The measure of the state and the credits together do not grow.\<close>

lemma advance_spends:
  assumes "advance i (st, ps) (st', ps')" and "list_all2 (spends m) cs ps"
  shows "\<exists>cs'. list_all2 (spends m) cs' ps' \<and> m st' + sum_list cs' \<le> m st + sum_list cs"
proof -
  from assms(1) obtain f p where i: "i < length ps" "ps ! i = Step f" and f: "f st = (st', p)" and ps': "ps' = ps[i := p]"
    by (auto elim: advanceE)
  have l: "i < length cs" and "spends m (cs ! i) (Step f)"
    using i assms(2) by (auto simp: list_all2_conv_all_nth)
  then obtain c' where c': "spends m c' (snd (f st))" "m (fst (f st)) + c' \<le> m st + cs ! i" by auto
  have "list_all2 (spends m) (cs[i := c']) ps'"
    using assms(2) c' f ps' by (simp add: list_all2_update_cong)
  moreover have "sum_list (cs[i := c']) + cs ! i = sum_list cs + c'"
    using l elem_le_sum_list [of i cs] by (simp add: sum_list_update)
  ultimately show ?thesis using c' f by (intro exI [of _ "cs[i := c']"]) auto
qed

text \<open>One goroutine as the others see it: between its steps the state changes within a relation.\<close>

inductive interfered :: "('s \<Rightarrow> 's \<Rightarrow> bool) \<Rightarrow> 's prog \<Rightarrow> 's \<Rightarrow> 's prog \<Rightarrow> 's \<Rightarrow> bool" for R p st where
  interfered_refl: "interfered R p st p st"
| interfered_env: "interfered R p st p' st' \<Longrightarrow> R st' st'' \<Longrightarrow> interfered R p st p' st''"
| interfered_step: "interfered R p st (Step f) st' \<Longrightarrow> f st' = (st'', p'') \<Longrightarrow> interfered R p st p'' st''"

lemma advance_interfered:
  assumes "advance j (st, ps) (st', ps')" and "i < length ps" and "interfered R p0 st0 (ps ! i) st"
    and "\<forall>k < length ps. k \<noteq> i \<longrightarrow> keeps R (ps ! k)"
  shows "interfered R p0 st0 (ps' ! i) st' \<and> length ps' = length ps \<and> (\<forall>k < length ps'. k \<noteq> i \<longrightarrow> keeps R (ps' ! k))"
proof -
  from assms(1) obtain f p where j: "j < length ps" "ps ! j = Step f" and f: "f st = (st', p)" and ps': "ps' = ps[j := p]"
    by (auto elim: advanceE)
  show ?thesis
  proof (cases "j = i")
    case True
    with assms j f ps' show ?thesis by (auto intro: interfered_step [where f = f])
  next
    case False
    with assms(4) j have "keeps R (Step f)" by metis
    then have "R st (fst (f st))" "keeps R (snd (f st))" by simp_all
    with False assms f j ps' show ?thesis by (auto intro: interfered_env simp: nth_list_update)
  qed
qed

end
