(* ===== verification/Server_Threads.thy ===== *)
theory Server_Threads
  imports Server_Machine Threads
begin

text \<open>
  The handlers and tasks of package server as goroutines. Every listener, the loop over the error
  records and every periodic task runs in a goroutine of its own; they meet in the containers of
  server/var.go, whose methods lock, and in the database. Each call of such a method, each statement
  of the database and each call that moves funds or signs is one atomic step; calls of a node come in
  between and take their time.

  The functions here follow the ones of \<open>Server_Deal\<close> and \<open>Server_Accept\<close> call by call. Run alone
  they are these functions (\<open>alone_prog_of\<close>). The inner loop of \<open>recheckEvmTx\<close> has no bound when
  others push to its queue; \<open>n\<close> is the number of rounds it gets to make, and a goroutine that has
  made them does not move any more, so that every finite execution is one for some \<open>n\<close>.
\<close>

section \<open>Orders\<close>

definition evm_sent_prog :: "server_env \<Rightarrow> evm_token \<Rightarrow> swap_order \<Rightarrow> bytes \<Rightarrow> server prog" where
  "evm_sent_prog E t order h =
     attempt (\<lambda>st. obind (push_sent (queue_key (en_L E) t) (BytesToHash (en_L E) h) t (en_now E) st) (\<lambda>st. Ok (st, ())))
       (\<lambda>_. Step (\<lambda>st.
         (st\<lparr>sv_users := map_Push (FromHex (en_L E) (so_TxID order)) (en_now E) (sv_users st)\<rparr>, Stop)))"

definition wrap_by_key_prog :: "server_env \<Rightarrow> evm_token \<Rightarrow> swap_order \<Rightarrow> server prog" where
  "wrap_by_key_prog E t2 order = ensure (env_key E (Symbol_evm t2)) (\<lambda>key. case key of
      Inl e \<Rightarrow> Stop
    | Inr (_, prv) \<Rightarrow>
        let (res, sent) = SendWrap_evm (en_L E) (en_eth E t2) t2 (so_TxID order) (so_Amount order)
              (so_To order) prv
        in Step (\<lambda>st. (traced (WrapSent (so_TxID order) (so_Amount order) (so_To order)) st,
             case res of Panic p \<Rightarrow> Crash p | Err e \<Rightarrow> Stop
             | Ok h \<Rightarrow> if MultiSignType_evm t2 = EvmMultiSign then evm_sent_prog E t2 order h else Stop)))"

definition dealWrapOrder_prog :: "server_env \<Rightarrow> evm_token option \<Rightarrow> swap_order \<Rightarrow> server prog" where
  "dealWrapOrder_prog E dest order = (case dest of
      None \<Rightarrow> Crash ''nil pointer dereference''
    | Some t2 \<Rightarrow>
      if so_ToToken order \<noteq> Symbol_evm t2 then Stop
      else Step (\<lambda>st. let (dealed, fresh) = Check (so_TxID order) (sv_dealed st) in
        (st\<lparr>sv_dealed := dealed\<rparr>,
         if \<not> fresh then Stop
         else Step (\<lambda>st. let (db, wo, err) = StoreSwapOrder (en_store E) (order_row order 1 (en_now_ms E)) (sv_db st)
           in (st\<lparr>sv_db := db\<rparr>, wrap_by_key_prog E t2 order)))))"

definition unwrap_by_group_prog :: "server_env \<Rightarrow> source_token \<Rightarrow> swap_order \<Rightarrow> db_order \<Rightarrow> server prog" where
  "unwrap_by_group_prog E t1 order wo =
     (let tag = FromHex (en_L E) (wo_TxID wo) in
      case CreateUnWrapTxData_src E t1 (so_To order) (so_Amount order) tag of
        None \<Rightarrow> Hang
      | Some (Panic p) \<Rightarrow> Crash p
      | Some (Err e) \<Rightarrow> Stop
      | Some (Ok (hash, txData)) \<Rightarrow>
          let msContext = en_ctx_Marshal E \<lparr>mc_SrcToken = wo_SrcToken wo, mc_DestToken = wo_DestToken wo,
                mc_Method = UnwrapMethod, mc_TxData = txData, mc_Timestamp = word_of_int (en_now E)\<rparr>
          in ensure (env_key E ''smpc'') (\<lambda>key. case key of
               Inl e \<Rightarrow> Stop
             | Inr (_, prv) \<Rightarrow>
                 let smpc = cf_Smpc (en_conf E);
                     (res, calls) = Sign (en_L E) (en_S E) (en_smpc E) (en_now_ms E)
                       (Bytes2Hex (en_L E) (PublicKey_src t1)) (sc_Gid smpc) msContext
                       (hexutil_Encode (en_L E) hash) (sc_ThresHold smpc) (KeyType_src t1) prv
                 in Step (\<lambda>st. (traced (SignAsked (so_TxID order) calls) st,
                      case res of Panic p \<Rightarrow> Crash p | Err e \<Rightarrow> Stop
                      | Ok keyID \<Rightarrow> ensure (detectSignStatus E keyID txData t1) (\<lambda>txid. case txid of
                          None \<Rightarrow> Stop
                        | Some h \<Rightarrow> Step (\<lambda>st.
                            (st\<lparr>sv_iota := iota_push (wo\<lparr>wo_Hash := hex_encode h\<rparr>) t1 (sv_iota st)\<rparr>, Stop)))))))"

definition unwrap_by_key_prog :: "server_env \<Rightarrow> source_token \<Rightarrow> swap_order \<Rightarrow> server prog" where
  "unwrap_by_key_prog E t1 order = ensure (env_key E (Symbol_src t1)) (\<lambda>key. case key of
      Inl e \<Rightarrow> Stop
    | Inr (_, prv) \<Rightarrow>
        let (res, sent) = SendUnWrap_src E t1 (so_TxID order) (so_Amount order) (so_To order) prv
        in Step (\<lambda>st. (traced (UnWrapSent (so_TxID order) (so_Amount order) (so_To order)) st,
             case res of Panic p \<Rightarrow> Crash p | Err e \<Rightarrow> Stop
             | Ok h \<Rightarrow> if MultiSignType_src t1 = EvmMultiSign
                 then (case t1 of EvmTok t \<Rightarrow> evm_sent_prog E t order h | _ \<Rightarrow> Stop) else Stop)))"

definition dealUnWrapOrder_prog :: "server_env \<Rightarrow> source_token option \<Rightarrow> swap_order \<Rightarrow> server prog" where
  "dealUnWrapOrder_prog E src order = (case src of
      None \<Rightarrow> Crash ''nil pointer dereference''
    | Some t1 \<Rightarrow>
      let deal = Step (\<lambda>st. let (dealed, fresh) = Check (so_TxID order) (sv_dealed st) in
        (st\<lparr>sv_dealed := dealed\<rparr>,
         if \<not> fresh then Stop
         else Step (\<lambda>st.
           let (db, wo, err) = StoreSwapOrder (en_store E) (order_row order (- 1) (en_now_ms E)) (sv_db st)
           in (st\<lparr>sv_db := db\<rparr>,
               if err \<noteq> None \<and> MultiSignType_src t1 \<noteq> EvmMultiSign then Stop
               else if MultiSignType_src t1 \<noteq> SmpcSign then unwrap_by_key_prog E t1 order
               else unwrap_by_group_prog E t1 order wo))))
      in if so_ToToken order \<noteq> Symbol_src t1 then Stop
         else if MultiSignType_src t1 = SmpcSign then Step (\<lambda>st. (st,
           if fst (CheckAccountsState (en_accounts E) (sc_Accounts (cf_Smpc (en_conf E))) (en_now E) (sv_db st))
           then deal else Stop))
         else deal)"

definition dealTxErrorRecord_prog :: "server_env \<Rightarrow> tx_error_record \<Rightarrow> server prog" where
  "dealTxErrorRecord_prog E o1 = Step (\<lambda>st. (st,
     let t1 = (if ter_D o1 = - 1 then map_option EvmTok (sv_dest st (ter_FromCoin o1))
               else if ter_D o1 = 1 then sv_src st (ter_FromCoin o1) else None)
     in case t1 of
        None \<Rightarrow> Stop
      | Some t1 \<Rightarrow> (case CheckUserTx_src E t1 (ter_Txid o1) (ter_ToCoin o1) (ter_D o1) of
          Panic p \<Rightarrow> Crash p
        | Err e \<Rightarrow> Stop
        | Ok (sender, receiver, amount) \<Rightarrow> Step (\<lambda>st. (st,
            if map_Exist (ter_Txid o1) (sv_users st) then Stop
            else let order = \<lparr>so_TxID = hexutil_Encode (en_L E) (ter_Txid o1), so_FromToken = ter_FromCoin o1,
                   so_ToToken = ter_ToCoin o1, so_From = sender, so_To = receiver, so_Amount = amount,
                   so_Org = [], so_Error = None, so_Type = 0\<rparr>
              in Step (\<lambda>st. (st, if ter_D o1 = 1 then dealWrapOrder_prog E (sv_dest st (ter_ToCoin o1)) order
                   else dealUnWrapOrder_prog E (sv_src st (ter_ToCoin o1)) order)))))))"

section \<open>Periodic tasks\<close>

primrec accept_infos_prog :: "server_env \<Rightarrow> sign_info list \<Rightarrow> server prog" where
  "accept_infos_prog E [] = Stop"
| "accept_infos_prog E (d # ds) = Step (\<lambda>st. case accept_checks E d st of
      Panic p \<Rightarrow> (st, Crash p)
    | Err e \<Rightarrow> (st, accept_infos_prog E ds)
    | Ok _ \<Rightarrow>
        let (accepted, fresh) = claim_key (sg_Key d) (sv_accepted st) in
        if \<not> fresh then (st, accept_infos_prog E ds)
        else (st\<lparr>sv_accepted := accepted\<rparr>, ensure (env_key E ''smpc'') (\<lambda>key. case key of
            Inl e \<Rightarrow> Stop
          | Inr (_, prv) \<Rightarrow>
              let (res, calls) = AcceptSign (en_L E) (en_S E) (en_smpc E) (en_now_ms E) d True prv
              in Step (\<lambda>st. (traced (SignAccepted (sg_Key d) calls) st, ensure res (\<lambda>err. accept_infos_prog E ds))))))"

definition accept_prog :: "server_env \<Rightarrow> go_error option \<Rightarrow> server prog" where
  "accept_prog E fault = Step (\<lambda>st.
     let (db, err) = UpdateAccountState fault (sc_Account (cf_Smpc (en_conf E))) (en_now E) (sv_db st)
     in (st\<lparr>sv_db := db\<rparr>, ensure (GetCurNodeSignInfo (en_S E) (en_smpc E)) (\<lambda>r. case r of
          Inl e \<Rightarrow> Stop | Inr infoDatas \<Rightarrow> accept_infos_prog E infoDatas)))"

definition recheck_iota_prog :: "server_env \<Rightarrow> go_error option \<Rightarrow> tx_faults \<Rightarrow> server prog" where
  "recheck_iota_prog E fault f =
     attempt (\<lambda>st. obind (iota_pop (sv_iota st)) (\<lambda>(q, front). Ok (st\<lparr>sv_iota := q\<rparr>, front))) (\<lambda>front. case front of
       None \<Rightarrow> Stop
     | Some (order, t) \<Rightarrow>
         let hash = hex_decoded (wo_Hash order);
             (b, err) = CheckSentTx_src E t hash
         in Step (\<lambda>st. (if b
            then (case err of
                Some e \<Rightarrow> st\<lparr>sv_iota := iota_push order t (sv_iota st)\<rparr>
              | None \<Rightarrow> st\<lparr>sv_db := fst (UpdateChainRecord fault (order\<lparr>wo_State := 1\<rparr>) (sv_db st))\<rparr>)
            else st\<lparr>sv_db := fst (MoveOrderToError f (order\<lparr>wo_State := 2\<rparr>) (sv_db st))\<rparr>, Stop)))"

definition on_queue :: "string \<Rightarrow> (evm_token evm_queue \<Rightarrow> evm_token evm_queue outcome) \<Rightarrow> server prog \<Rightarrow> server prog"
  where
  "on_queue key f k = attempt (\<lambda>st. case sv_evm st key of
      None \<Rightarrow> Ok (st, ())
    | Some q \<Rightarrow> obind (f q) (\<lambda>q. Ok (st\<lparr>sv_evm := (sv_evm st)(key \<mapsto> q)\<rparr>, ()))) (\<lambda>_. k)"

primrec recheck_evm_prog :: "nat \<Rightarrow> server_env \<Rightarrow> string \<Rightarrow> server prog" where
  "recheck_evm_prog 0 E key = Hang"
| "recheck_evm_prog (Suc n) E key = Step (\<lambda>st. (st, case sv_evm st key of
      None \<Rightarrow> Stop
    | Some q \<Rightarrow> ensure (evm_Top q) (\<lambda>(txOldHash, chain, ts). case chain of
        None \<Rightarrow> Stop
      | Some t \<Rightarrow>
          if ts = 0 then Stop
          else ensure (recheck_decide E txOldHash t ts) (\<lambda>choice. case choice of
              Stay \<Rightarrow> Stop
            | DropTx \<Rightarrow> on_queue key evm_Pop (recheck_evm_prog n E key)
            | ReplaceTx txHash \<Rightarrow> on_queue key (evm_UpdateTop txHash t (en_now E)) Stop))))"

section \<open>The goroutine of an event\<close>

definition prog_of :: "nat \<Rightarrow> server_env \<Rightarrow> event \<Rightarrow> server prog" where
  "prog_of n E e = (case e of
      Wrapped t2 order \<Rightarrow> dealWrapOrder_prog E (Some t2) order
    | UnWrapped t1 order \<Rightarrow> dealUnWrapOrder_prog E (Some t1) order
    | ErrorRecord r \<Rightarrow> dealTxErrorRecord_prog E r
    | AcceptTick fault \<Rightarrow> accept_prog E fault
    | RecheckIotaTick fault f \<Rightarrow> recheck_iota_prog E fault f
    | RecheckEvmTick key \<Rightarrow> recheck_evm_prog n E key
    | DailyResetTick \<Rightarrow> Step (\<lambda>st. (st\<lparr>sv_dealed := dealed_expired (sv_dealed st)\<rparr>, Stop))
    | CleanupTick \<Rightarrow> Step (\<lambda>st. (st\<lparr>sv_users := map_expired (en_now E) (sv_users st)\<rparr>, Stop)))"

text \<open>What a whole event does, as in \<open>step\<close>.\<close>

definition handler :: "server_env \<Rightarrow> event \<Rightarrow> server \<Rightarrow> server outcome option" where
  "handler E e st = (case e of
      Wrapped t2 order \<Rightarrow> Some (dealWrapOrder E (Some t2) order st)
    | UnWrapped t1 order \<Rightarrow> dealUnWrapOrder E (Some t1) order st
    | ErrorRecord r \<Rightarrow> dealTxErrorRecord E r st
    | AcceptTick fault \<Rightarrow> Some (obind (accept_turn E fault st) (\<lambda>(st, nxt). Ok st))
    | RecheckIotaTick fault f \<Rightarrow> Some (recheck_iota_turn E fault f st)
    | RecheckEvmTick key \<Rightarrow> Some (recheck_evm_turn E key st)
    | DailyResetTick \<Rightarrow> Some (Ok (st\<lparr>sv_dealed := dealed_expired (sv_dealed st)\<rparr>))
    | CleanupTick \<Rightarrow> Some (Ok (st\<lparr>sv_users := map_expired (en_now E) (sv_users st)\<rparr>)))"

lemma step_handler: "step E e st st' \<longleftrightarrow> handler E e st = Some (Ok st')"
  by (cases e) (auto simp: handler_def obind_Ok_conv intro: step.intros elim: step.cases)


section \<open>Run alone, the program of an event is its handler\<close>

lemma alone_evm_sent: "alone (evm_sent_prog E t order h) st = Some (evm_sent E t order h st)"
  by (cases "push_sent (queue_key (en_L E) t) (BytesToHash (en_L E) h) t (en_now E) st")
    (simp_all add: evm_sent_prog_def evm_sent_def alone_attempt)

lemma alone_wrap_by_key: "alone (wrap_by_key_prog E t2 order) st = Some (wrap_by_key E t2 order st)"
  by (simp add: wrap_by_key_prog_def wrap_by_key_def alone_ensure alone_evm_sent Let_def
      split: outcome.split sum.split prod.split)

lemma alone_dealWrapOrder: "alone (dealWrapOrder_prog E dest order) st = Some (dealWrapOrder E dest order st)"
  by (simp add: dealWrapOrder_prog_def dealWrapOrder_def alone_wrap_by_key Let_def split: option.split prod.split)

lemma alone_unwrap_by_key: "alone (unwrap_by_key_prog E t1 order) st = Some (unwrap_by_key E t1 order st)"
  by (simp add: unwrap_by_key_prog_def unwrap_by_key_def alone_ensure alone_evm_sent Let_def
      split: outcome.split sum.split prod.split source_token.split)

lemma alone_unwrap_by_group:
  "alone (unwrap_by_group_prog E t1 order wo) st = unwrap_by_group E t1 order wo st"
  by (simp add: unwrap_by_group_prog_def unwrap_by_group_def alone_ensure Let_def
      split: option.split outcome.split sum.split prod.split)

lemma alone_dealUnWrapOrder: "alone (dealUnWrapOrder_prog E src order) st = dealUnWrapOrder E src order st"
  by (simp add: dealUnWrapOrder_prog_def dealUnWrapOrder_def alone_unwrap_by_key alone_unwrap_by_group Let_def
      split: option.split prod.split)

lemma alone_dealTxErrorRecord: "alone (dealTxErrorRecord_prog E r) st = dealTxErrorRecord E r st"
  by (simp add: dealTxErrorRecord_prog_def dealTxErrorRecord_def alone_dealWrapOrder alone_dealUnWrapOrder Let_def
      split: option.split outcome.split prod.split)

lemma alone_accept_infos:
  "alone (accept_infos_prog E ds) st = Some (obind (accept_infos E ds st) (\<lambda>(st, nxt). Ok st))"
proof (induction ds arbitrary: st)
  case (Cons d ds)
  then show ?case
    by (simp add: accept_info_def alone_ensure Let_def split: outcome.split sum.split prod.split)
qed simp

lemma alone_accept: "alone (accept_prog E fault) st = Some (obind (accept_turn E fault st) (\<lambda>(st, nxt). Ok st))"
  by (simp add: accept_prog_def accept_turn_def alone_ensure alone_accept_infos Let_def
      split: outcome.split sum.split prod.split)

lemma alone_recheck_iota: "alone (recheck_iota_prog E fault f) st = Some (recheck_iota_turn E fault f st)"
  by (cases "iota_pop (sv_iota st)")
    (auto simp: recheck_iota_prog_def recheck_iota_turn_def alone_attempt Let_def split: option.split prod.split)

lemma alone_on_queue: "sv_evm st key = Some q \<Longrightarrow> alone (on_queue key f k) st =
    (case f q of Ok q' \<Rightarrow> alone k (st\<lparr>sv_evm := (sv_evm st)(key \<mapsto> q')\<rparr>) | Err e \<Rightarrow> Some (Err e) | Panic p \<Rightarrow> Some (Panic p))"
  by (cases "f q") (simp_all add: on_queue_def alone_attempt)

lemma alone_recheck_evm:
  "(case sv_evm st key of None \<Rightarrow> 0 | Some q \<Rightarrow> length (q_txHashs q)) < n \<Longrightarrow>
     alone (recheck_evm_prog n E key) st = Some (recheck_evm_turn E key st)"
proof (induction n arbitrary: st)
  case (Suc n)
  show ?case
  proof (cases "sv_evm st key")
    case (Some q)
    have again: "alone (recheck_evm_prog n E key) (st\<lparr>sv_evm := (sv_evm st)(key \<mapsto> q')\<rparr>) =
        Some (obind (recheck_loop E q') (\<lambda>q. Ok (st\<lparr>sv_evm := (sv_evm st)(key \<mapsto> q)\<rparr>)))"
      if "recheck_round E q = Ok (q', True)" for q'
      using recheck_round_shorter [OF that] Suc Some by (simp add: recheck_evm_turn_def)
    have id: "st\<lparr>sv_evm := (sv_evm st)(key \<mapsto> q)\<rparr> = st" using Some by (simp add: map_upd_triv)
    show ?thesis
      using again
      by (auto simp: Some id recheck_evm_turn_def recheck_loop.simps [of E q] recheck_round_def alone_ensure
          alone_on_queue [OF Some] split: outcome.splits option.split recheck_choice.split prod.split)
  qed (simp add: recheck_evm_turn_def)
qed simp

text \<open>The length of the queue an event works on.\<close>

definition queue_len :: "server \<Rightarrow> event \<Rightarrow> nat" where
  "queue_len st e = (case e of RecheckEvmTick key \<Rightarrow>
      (case sv_evm st key of None \<Rightarrow> 0 | Some q \<Rightarrow> length (q_txHashs q)) | _ \<Rightarrow> 0)"

lemma alone_prog_of: "queue_len st e < n \<Longrightarrow> alone (prog_of n E e) st = handler E e st"
  by (cases e) (simp_all add: prog_of_def handler_def queue_len_def alone_dealWrapOrder alone_dealUnWrapOrder
      alone_dealTxErrorRecord alone_accept alone_recheck_iota alone_recheck_evm)

end
