(* ===== verification/Interleavings.thy ===== *)
theory Interleavings
  imports Server_Threads
begin

text \<open>
  Executions of the server with all its goroutines: events arrive at any time and start a goroutine,
  and the goroutines advance by atomic steps in any order (\<open>exec\<close>). The code runs the orders of one
  listener one after the other, so these are executions here, with others besides. What holds of the
  runs with one handler after the other holds of them too: an order is paid once, a request accepted
  once, the state stays well formed; and every such run is one of these executions.
\<close>

section \<open>What the programs do\<close>

text \<open>A step of an order keeps the acceptances as they are and at most appends to a queue; a step of
  a task keeps the payments, and the queues except for the one it works on.\<close>

definition only_pushes :: "string \<Rightarrow> server \<Rightarrow> server \<Rightarrow> bool" where
  "only_pushes key st st' \<longleftrightarrow> (\<forall>q. sv_evm st key = Some q \<longrightarrow> evm_ok q \<longrightarrow>
     (\<exists>q' xs. sv_evm st' key = Some q' \<and> evm_ok q' \<and> evm_items q' = evm_items q @ xs))"

definition order_step :: "server \<Rightarrow> server \<Rightarrow> bool" where
  "order_step st st' \<longleftrightarrow> good_step st st' \<and> sv_accepted st' = sv_accepted st \<and>
     (\<forall>key. accepted_times key st' = accepted_times key st) \<and> (\<forall>key. only_pushes key st st')"

definition task_step :: "string set \<Rightarrow> server \<Rightarrow> server \<Rightarrow> bool" where
  "task_step K st st' \<longleftrightarrow> good_step st st' \<and> sv_dealed st' = sv_dealed st \<and>
     (\<forall>txid. paid txid st' = paid txid st) \<and> (\<forall>key. key \<notin> K \<longrightarrow> sv_evm st' key = sv_evm st key)"

lemma only_pushes_same: "sv_evm st' key = sv_evm st key \<Longrightarrow> only_pushes key st st'"
  by (auto simp: only_pushes_def)

definition pay_measure :: "string \<Rightarrow> server \<Rightarrow> nat" where
  "pay_measure txid st = paid txid st + (if txid \<in> dom (sv_dealed st) then 0 else 1)"

definition accept_measure :: "string \<Rightarrow> server \<Rightarrow> nat" where
  "accept_measure key st = accepted_times key st + (if sv_accepted st key then 0 else 1)"

lemma order_step_refl [simp]: "order_step st st" "task_step K st st"
  by (simp_all add: order_step_def task_step_def only_pushes_same)

lemma order_traced [simp]: "\<forall>k. \<not> accepts k x \<Longrightarrow> order_step st (traced x st)"
  by (simp add: order_step_def step_defs only_pushes_same)

lemma task_traced [simp]: "\<forall>i. \<not> pays i x \<Longrightarrow> task_step K st (traced x st)"
  by (simp add: task_step_def step_defs)

lemma order_updates [simp]:
  "order_step st (st\<lparr>sv_users := u\<rparr>)" "order_step st (st\<lparr>sv_dealed := d\<rparr>)"
  "order_step st (st\<lparr>sv_iota := iota_push wo t (sv_iota st)\<rparr>)"
  "(db_ok (sv_db st) \<longrightarrow> db_ok db) \<Longrightarrow> order_step st (st\<lparr>sv_db := db\<rparr>)"
  by (auto simp: order_step_def step_defs accepted_times_def iota_ok_def iota_push_def only_pushes_same)

lemma task_updates [simp]:
  "task_step K st (st\<lparr>sv_users := u\<rparr>)" "task_step K st (st\<lparr>sv_accepted := a\<rparr>)"
  "(iota_ok (sv_iota st) \<longrightarrow> iota_ok q) \<Longrightarrow> task_step K st (st\<lparr>sv_iota := q\<rparr>)"
  "(db_ok (sv_db st) \<longrightarrow> db_ok db) \<Longrightarrow> task_step K st (st\<lparr>sv_db := db\<rparr>)"
  by (auto simp: task_step_def step_defs paid_def)

lemma order_push_sent: "push_sent key h t now st = Ok st' \<Longrightarrow> order_step st st'"
  by (auto simp: push_sent_def order_step_def step_defs accepted_times_def only_pushes_def evm_Push_ok
      split: option.splits if_splits)

lemma store_ok: "StoreSwapOrder f wo db = (db', x) \<Longrightarrow> db_ok db \<longrightarrow> db_ok db'"
  using db_ok_Store [of db f wo] by auto

section \<open>Orders\<close>

lemma evm_sent_keeps: "keeps order_step (evm_sent_prog E t order h)"
  unfolding evm_sent_prog_def by (rule keeps_attempt) (auto simp: obind_Ok_conv order_push_sent)

lemma wrap_by_key_keeps: "keeps order_step (wrap_by_key_prog E t2 order)"
  unfolding wrap_by_key_prog_def
  by (auto simp: evm_sent_keeps Let_def intro!: keeps_ensure split: sum.split prod.split outcome.split)

lemma dealWrapOrder_keeps: "keeps order_step (dealWrapOrder_prog E dest order)"
  unfolding dealWrapOrder_prog_def
  by (auto simp: wrap_by_key_keeps Let_def dest: store_ok split: option.split prod.split)

lemma unwrap_by_key_keeps: "keeps order_step (unwrap_by_key_prog E t1 order)"
  unfolding unwrap_by_key_prog_def
  by (auto simp: evm_sent_keeps Let_def intro!: keeps_ensure
      split: sum.split prod.split outcome.split source_token.split)

lemma unwrap_by_group_keeps: "keeps order_step (unwrap_by_group_prog E t1 order wo)"
  unfolding unwrap_by_group_prog_def
  by (auto simp: Let_def intro!: keeps_ensure split: sum.split prod.split outcome.split option.split)

lemma dealUnWrapOrder_keeps: "keeps order_step (dealUnWrapOrder_prog E src order)"
  unfolding dealUnWrapOrder_prog_def
  by (auto simp: unwrap_by_key_keeps unwrap_by_group_keeps Let_def dest: store_ok split: option.split prod.split)

lemma dealTxErrorRecord_keeps: "keeps order_step (dealTxErrorRecord_prog E r)"
  unfolding dealTxErrorRecord_prog_def
  by (auto simp: dealWrapOrder_keeps dealUnWrapOrder_keeps Let_def split: option.split prod.split outcome.split)

text \<open>A payment is made by the program that has put its order into \<open>dealedOrders\<close>.\<close>

lemma pay_measure_updates [simp]:
  "pay_measure i (st\<lparr>sv_users := u\<rparr>) = pay_measure i st" "pay_measure i (st\<lparr>sv_db := db\<rparr>) = pay_measure i st"
  "pay_measure i (st\<lparr>sv_iota := q\<rparr>) = pay_measure i st"
  "pay_measure i (traced x st) = pay_measure i st + (if pays i x then 1 else 0)"
  by (simp_all add: pay_measure_def paid_def traced_def)

lemma pay_push_sent: "push_sent key h t now st = Ok st' \<Longrightarrow> pay_measure i st' = pay_measure i st"
  by (auto simp: push_sent_def pay_measure_def paid_def split: option.splits)

definition claim_of :: "string \<Rightarrow> swap_order \<Rightarrow> nat" where
  "claim_of txid order = (if so_TxID order = txid then 1 else 0)"

lemma pay_Check: "Check (so_TxID order) (sv_dealed st) = (d, True) \<Longrightarrow>
    pay_measure i (st\<lparr>sv_dealed := d\<rparr>) + claim_of i order = pay_measure i st"
  by (auto simp: Check_def pay_measure_def claim_of_def paid_def split: option.splits)

lemma pay_Check_again: "Check i (sv_dealed st) = (d, False) \<Longrightarrow> st\<lparr>sv_dealed := d\<rparr> = st"
  by (auto simp: Check_def split: option.splits)

lemma evm_sent_spends: "spends (pay_measure i) 0 (evm_sent_prog E t order h)"
  unfolding evm_sent_prog_def by (rule spends_attempt) (auto simp: obind_Ok_conv pay_push_sent)

lemma wrap_by_key_spends: "spends (pay_measure i) (claim_of i order) (wrap_by_key_prog E t2 order)"
  unfolding wrap_by_key_prog_def
  by (auto simp: evm_sent_spends Let_def claim_of_def intro!: spends_ensure exI [of _ 0]
      split: sum.split prod.split outcome.split)

lemma spends_Check:
  assumes "spends (pay_measure i) (claim_of i order) k"
  shows "spends (pay_measure i) 0 (Step (\<lambda>st. let (d, fresh) = Check (so_TxID order) (sv_dealed st)
    in (st\<lparr>sv_dealed := d\<rparr>, if \<not> fresh then Stop else k)))"
proof (rule spends_Step)
  fix st :: server
  let ?f = "\<lambda>st :: server. let (d, fresh) = Check (so_TxID order) (sv_dealed st)
    in (st\<lparr>sv_dealed := d\<rparr>, if \<not> fresh then Stop else k)"
  obtain d fresh where c: "Check (so_TxID order) (sv_dealed st) = (d, fresh)" by fastforce
  show "\<exists>c'. spends (pay_measure i) c' (snd (?f st)) \<and> pay_measure i (fst (?f st)) + c' \<le> pay_measure i st + 0"
    using assms pay_Check [of order st d i] pay_Check_again [of "so_TxID order" st d] c
    by (cases fresh) (auto intro: exI [of _ "claim_of i order"] exI [of _ 0])
qed

lemma spends_quiet:
  assumes "\<And>st. m (fst (f st)) = m st" and "\<And>st. spends m c (snd (f st))"
  shows "spends m c (Step f)"
  using assms by (auto intro: exI [of _ c])

lemma dealWrapOrder_spends: "spends (pay_measure i) 0 (dealWrapOrder_prog E dest order)"
proof -
  have "spends (pay_measure i) (claim_of i order) (Step (\<lambda>st.
      let (db, wo, err) = StoreSwapOrder (en_store E) (order_row order 1 (en_now_ms E)) (sv_db st)
      in (st\<lparr>sv_db := db\<rparr>, wrap_by_key_prog E t2 order)))" for t2
    by (rule spends_quiet) (auto simp: wrap_by_key_spends split: prod.split)
  from spends_Check [OF this] show ?thesis
    by (simp add: dealWrapOrder_prog_def del: spends_simps(5) split: option.split)
qed

lemma unwrap_by_key_spends: "spends (pay_measure i) (claim_of i order) (unwrap_by_key_prog E t1 order)"
  unfolding unwrap_by_key_prog_def
  by (auto simp: evm_sent_spends Let_def claim_of_def intro!: spends_ensure exI [of _ 0]
      split: sum.split prod.split outcome.split source_token.split)

lemma unwrap_by_group_spends: "spends (pay_measure i) (claim_of i order) (unwrap_by_group_prog E t1 order wo)"
  unfolding unwrap_by_group_prog_def
  by (auto simp: Let_def claim_of_def intro!: spends_ensure exI [of _ 0]
      split: sum.split prod.split outcome.split option.split)

lemma dealUnWrapOrder_spends: "spends (pay_measure i) 0 (dealUnWrapOrder_prog E src order)"
proof -
  let ?deal = "\<lambda>t1. Step (\<lambda>st. let (dealed, fresh) = Check (so_TxID order) (sv_dealed st) in
        (st\<lparr>sv_dealed := dealed\<rparr>,
         if \<not> fresh then Stop
         else Step (\<lambda>st.
           let (db, wo, err) = StoreSwapOrder (en_store E) (order_row order (- 1) (en_now_ms E)) (sv_db st)
           in (st\<lparr>sv_db := db\<rparr>,
               if err \<noteq> None \<and> MultiSignType_src t1 \<noteq> EvmMultiSign then Stop
               else if MultiSignType_src t1 \<noteq> SmpcSign then unwrap_by_key_prog E t1 order
               else unwrap_by_group_prog E t1 order wo))))"
  have deal: "spends (pay_measure i) 0 (?deal t1)" for t1
    by (intro spends_Check spends_quiet)
      (auto simp: unwrap_by_key_spends unwrap_by_group_spends split: prod.split)
  then have "spends (pay_measure i) 0 (Step (\<lambda>st. (st, if b st then ?deal t1 else Stop)))" for t1 b
    by (intro spends_quiet) (auto simp del: spends_simps(5))
  with deal show ?thesis
    unfolding dealUnWrapOrder_prog_def Let_def [of "?deal t1" for t1]
    by (auto simp del: spends_simps(5) split: option.split)
qed

lemma dealTxErrorRecord_spends: "spends (pay_measure i) 0 (dealTxErrorRecord_prog E r)"
  unfolding dealTxErrorRecord_prog_def
  by (auto intro!: spends_quiet simp: dealWrapOrder_spends dealUnWrapOrder_spends Let_def
      simp del: spends_simps(5) split: option.split prod.split outcome.split)

section \<open>Tasks\<close>

lemma accept_infos_keeps: "keeps (task_step {}) (accept_infos_prog E ds)"
proof (induction ds)
  case (Cons d ds)
  then show ?case
    by (auto simp: Let_def intro!: keeps_ensure split: sum.split prod.split outcome.split)
qed simp

lemma accept_keeps: "keeps (task_step {}) (accept_prog E fault)"
proof -
  have "db_ok db \<longrightarrow> db_ok db'" if "UpdateAccountState fault a now db = (db', err)" for a now db db' err
    using that by (auto simp: UpdateAccountState_def db_ok_def split: option.splits)
  then show ?thesis
    unfolding accept_prog_def
    by (auto simp: Let_def accept_infos_keeps intro!: keeps_ensure split: sum.split prod.split)
qed

lemma recheck_iota_keeps: "keeps (task_step {}) (recheck_iota_prog E fault f)"
proof -
  have "iota_ok q \<longrightarrow> iota_ok q'" if "iota_pop q = Ok (q', x)" for q q' :: "source_token sent_iota" and x
    using that iota_pop_ok [of q] by auto
  moreover have "iota_ok q \<longrightarrow> iota_ok (iota_push wo t q)" for q wo and t :: source_token
    by (simp add: iota_ok_def iota_push_def)
  ultimately show ?thesis
    unfolding recheck_iota_prog_def
    by (auto simp: Let_def obind_Ok_conv db_ok_Update db_ok_Move intro!: keeps_attempt split: option.split prod.split)
qed

lemma on_queue_keeps:
  assumes "\<And>q q'. f q = Ok q' \<Longrightarrow> evm_ok q \<Longrightarrow> evm_ok q'" and "keeps (task_step {key}) k"
  shows "keeps (task_step {key}) (on_queue key f k)"
  unfolding on_queue_def using assms
  by (auto simp: task_step_def step_defs paid_def obind_Ok_conv intro!: keeps_attempt split: option.splits if_splits)

lemma recheck_evm_keeps: "keeps (task_step {key}) (recheck_evm_prog n E key)"
proof (induction n)
  case (Suc n)
  have "keeps (task_step {key}) (on_queue key evm_Pop (recheck_evm_prog n E key))"
    "keeps (task_step {key}) (on_queue key (evm_UpdateTop h t ts) Stop)" for h t ts
    using evm_Pop_ok evm_UpdateTop_ok [of _ h t ts] Suc by (fastforce intro!: on_queue_keeps)+
  then show ?case
    by (auto intro!: keeps_ensure split: option.split recheck_choice.split prod.split)
qed simp

text \<open>A request is accepted by the program that has put its key into \<open>accepted\<close>.\<close>

lemma accept_traced: "accept_measure key (traced x st) = accept_measure key st + (if accepts key x then 1 else 0)"
  by (simp add: accept_measure_def)

lemma accept_infos_spends: "spends (accept_measure key) 0 (accept_infos_prog E ds)"
proof (induction ds)
  case (Cons d ds)
  let ?sign = "ensure (env_key E ''smpc'') (\<lambda>k. case k of Inl e \<Rightarrow> Stop
      | Inr (_, prv) \<Rightarrow> let (res, calls) = AcceptSign (en_L E) (en_S E) (en_smpc E) (en_now_ms E) d True prv
          in Step (\<lambda>st. (traced (SignAccepted (sg_Key d) calls) st, ensure res (\<lambda>err. accept_infos_prog E ds))))"
  have sign: "spends (accept_measure key) (if sg_Key d = key then 1 else 0) ?sign"
    using Cons by (auto simp: Let_def accept_traced intro!: spends_ensure exI [of _ 0] split: sum.split prod.split)
  have claim: "accept_measure key (st\<lparr>sv_accepted := a\<rparr>) + (if sg_Key d = key then 1 else 0) = accept_measure key st"
    if "claim_key (sg_Key d) (sv_accepted st) = (a, True)" for st :: server and a
    using that by (auto simp: accept_measure_def claim_key_def accepted_times_def split: if_splits)
  show ?case
    unfolding accept_infos_prog.simps
  proof (rule spends_Step)
    fix st :: server
    obtain a fresh where c: "claim_key (sg_Key d) (sv_accepted st) = (a, fresh)" by fastforce
    show "\<exists>c'. spends (accept_measure key) c' (snd (case accept_checks E d st of
          Panic p \<Rightarrow> (st, Crash p) | Err e \<Rightarrow> (st, accept_infos_prog E ds)
        | Ok _ \<Rightarrow> let (accepted, fresh) = claim_key (sg_Key d) (sv_accepted st)
            in if \<not> fresh then (st, accept_infos_prog E ds) else (st\<lparr>sv_accepted := accepted\<rparr>, ?sign))) \<and>
      accept_measure key (fst (case accept_checks E d st of
          Panic p \<Rightarrow> (st, Crash p) | Err e \<Rightarrow> (st, accept_infos_prog E ds)
        | Ok _ \<Rightarrow> let (accepted, fresh) = claim_key (sg_Key d) (sv_accepted st)
            in if \<not> fresh then (st, accept_infos_prog E ds) else (st\<lparr>sv_accepted := accepted\<rparr>, ?sign))) + c'
      \<le> accept_measure key st + 0"
      using Cons sign claim [of st a] c
      by (cases "accept_checks E d st"; cases fresh)
        (auto simp: Let_def intro: exI [of _ 0] exI [of _ "if sg_Key d = key then 1 else (0::nat)"])
  qed
qed simp

lemma accept_spends: "spends (accept_measure key) 0 (accept_prog E fault)"
  unfolding accept_prog_def
  by (auto simp: Let_def accept_infos_spends accept_measure_def accepted_times_def
      intro!: spends_quiet spends_ensure split: sum.split prod.split)

section \<open>Executions\<close>

datatype action = Arrive nat server_env event | Advance nat

inductive exec :: "server pool \<Rightarrow> action list \<Rightarrow> server pool \<Rightarrow> bool" for pool where
  exec_start: "exec pool [] pool"
| exec_arrive: "exec pool as (st, ps) \<Longrightarrow> exec pool (as @ [Arrive n E e]) (st, ps @ [prog_of n E e])"
| exec_advance: "exec pool as pool' \<Longrightarrow> advance i pool' pool'' \<Longrightarrow> exec pool (as @ [Advance i]) pool''"

definition arrived :: "action list \<Rightarrow> (server_env \<times> event) list" where
  "arrived as = List.concat (map (\<lambda>a. case a of Arrive n E e \<Rightarrow> [(E, e)] | Advance i \<Rightarrow> []) as)"

lemma arrived_simps [simp]:
  "arrived [] = []" "arrived (as @ bs) = arrived as @ arrived bs" "arrived [Arrive n E e] = [(E, e)]"
  "arrived [Advance i] = []"
  by (simp_all add: arrived_def)

lemma resets_simps [simp]:
  "resets [] = 0" "resets (es @ fs) = resets es + resets fs" "resets [(E, e)] = (if e = DailyResetTick then 1 else 0)"
  by (simp_all add: resets_def)

lemma keeps_mono: "keeps R p \<Longrightarrow> (\<And>st st'. R st st' \<Longrightarrow> Q st st') \<Longrightarrow> keeps Q p"
  by (induction p rule: keeps.induct) auto

lemma keeps_spends: "keeps R p \<Longrightarrow> (\<And>st st'. R st st' \<Longrightarrow> m st' = m st) \<Longrightarrow> spends m 0 p"
  by (induction p rule: keeps.induct) (auto intro!: spends_quiet simp del: spends_simps(5))

lemma order_event_keeps:
  "keeps order_step (prog_of n E (Wrapped t2 order))" "keeps order_step (prog_of n E (UnWrapped t1 order))"
  "keeps order_step (prog_of n E (ErrorRecord r))"
  by (simp_all add: prog_of_def dealWrapOrder_keeps dealUnWrapOrder_keeps dealTxErrorRecord_keeps)

lemma task_event_keeps:
  "keeps (task_step {}) (prog_of n E (AcceptTick fault))" "keeps (task_step {}) (prog_of n E (RecheckIotaTick fault f))"
  "keeps (task_step {key}) (prog_of n E (RecheckEvmTick key))" "keeps (task_step {}) (prog_of n E CleanupTick)"
  by (simp_all add: prog_of_def accept_keeps recheck_iota_keeps recheck_evm_keeps)

lemma prog_good: "keeps good_step (prog_of n E e)"
proof (cases e)
  case DailyResetTick
  then show ?thesis by (simp add: prog_of_def step_defs)
qed (auto intro: keeps_mono [OF order_event_keeps(1)] keeps_mono [OF order_event_keeps(2)]
    keeps_mono [OF order_event_keeps(3)] keeps_mono [OF task_event_keeps(1)] keeps_mono [OF task_event_keeps(2)]
    keeps_mono [OF task_event_keeps(3)] keeps_mono [OF task_event_keeps(4)]
    simp: order_step_def task_step_def)

lemma prog_pays: "spends (pay_measure txid) (if e = DailyResetTick then 1 else 0) (prog_of n E e)"
proof -
  have t: "pay_measure txid st' = pay_measure txid st" if "task_step K st st'" for K st st'
    using that by (simp add: task_step_def pay_measure_def)
  show ?thesis
  proof (cases e)
    case DailyResetTick
    then show ?thesis by (auto simp: prog_of_def pay_measure_def paid_def intro: exI [of _ 0])
  qed (auto simp: prog_of_def dealWrapOrder_spends dealUnWrapOrder_spends dealTxErrorRecord_spends
      simp del: spends_simps(5) intro: keeps_spends [OF accept_keeps t] keeps_spends [OF recheck_iota_keeps t]
      keeps_spends [OF recheck_evm_keeps t] spends_quiet)
qed

lemma prog_accepts: "spends (accept_measure key) 0 (prog_of n E e)"
proof -
  have o: "accept_measure key st' = accept_measure key st" if "order_step st st'" for st st'
    using that by (simp add: order_step_def accept_measure_def)
  have r: "keeps (\<lambda>st st'. sv_accepted st' = sv_accepted st \<and> sv_trace st' = sv_trace st) (recheck_evm_prog n E key')" for key'
    by (induction n) (auto simp: on_queue_def obind_Ok_conv intro!: keeps_ensure keeps_attempt
        split: option.splits recheck_choice.split prod.split)
  have i: "keeps (\<lambda>st st'. sv_accepted st' = sv_accepted st \<and> sv_trace st' = sv_trace st) (recheck_iota_prog E fault f)"
    for fault f
    by (auto simp: recheck_iota_prog_def obind_Ok_conv Let_def intro!: keeps_attempt split: option.split prod.split)
  show ?thesis
    by (cases e) (auto simp: prog_of_def accept_spends accept_measure_def accepted_times_def
        simp del: spends_simps(5) intro: keeps_spends [OF dealWrapOrder_keeps o] keeps_spends [OF dealUnWrapOrder_keeps o]
        keeps_spends [OF dealTxErrorRecord_keeps o] keeps_spends [OF r] keeps_spends [OF i] spends_quiet)
qed

text \<open>The invariants of executions.\<close>

lemma exec_good:
  "exec (st0, []) as (st, ps) \<Longrightarrow> good_step st0 st \<and> list_all (keeps good_step) ps"
proof (induction as "(st, ps)" arbitrary: st ps rule: exec.induct)
  case (exec_arrive as st ps n E e)
  then show ?case by (simp add: prog_good)
next
  case (exec_advance as pool' i st' ps')
  obtain st ps where p: "pool' = (st, ps)" by fastforce
  have "good_step st0 st" "list_all (keeps good_step) ps" using exec_advance.hyps(2) [OF p] by simp_all
  with advance_keeps [of i st ps st' ps' good_step] exec_advance.hyps(3) show ?case
    unfolding p by (blast intro: good_step_trans)
qed simp

lemma exec_paid:
  "exec (st0, []) as (st, ps) \<Longrightarrow>
     \<exists>cs. list_all2 (spends (pay_measure txid)) cs ps \<and>
       pay_measure txid st + sum_list cs \<le> pay_measure txid st0 + resets (arrived as)"
proof (induction as "(st, ps)" arbitrary: st ps rule: exec.induct)
  case (exec_arrive as st ps n E e)
  then obtain cs where "list_all2 (spends (pay_measure txid)) cs ps"
    "pay_measure txid st + sum_list cs \<le> pay_measure txid st0 + resets (arrived as)" by blast
  then show ?case
    using prog_pays [of txid e n E]
    by (intro exI [of _ "cs @ [if e = DailyResetTick then 1 else 0]"]) (auto intro: list_all2_appendI)
next
  case (exec_advance as pool' i st' ps')
  obtain st ps where p: "pool' = (st, ps)" by fastforce
  from exec_advance.hyps(2) [OF p] obtain cs where
    cs: "list_all2 (spends (pay_measure txid)) cs ps"
    and m: "pay_measure txid st + sum_list cs \<le> pay_measure txid st0 + resets (arrived as)" by blast
  from advance_spends [OF exec_advance.hyps(3) [unfolded p] cs] m show ?case
    by (auto intro: le_trans)
qed auto

lemma exec_accepted:
  "exec (st0, []) as (st, ps) \<Longrightarrow>
     (\<exists>cs. list_all2 (spends (accept_measure key)) cs ps \<and> accept_measure key st + sum_list cs \<le> accept_measure key st0)"
proof (induction as "(st, ps)" arbitrary: st ps rule: exec.induct)
  case (exec_arrive as st ps n E e)
  then obtain cs where "list_all2 (spends (accept_measure key)) cs ps"
    "accept_measure key st + sum_list cs \<le> accept_measure key st0" by blast
  then show ?case
    using prog_accepts [of key n E e] by (intro exI [of _ "cs @ [0]"]) (auto intro: list_all2_appendI)
next
  case (exec_advance as pool' i st' ps')
  obtain st ps where p: "pool' = (st, ps)" by fastforce
  from exec_advance.hyps(2) [OF p] obtain cs where
    cs: "list_all2 (spends (accept_measure key)) cs ps"
    and m: "accept_measure key st + sum_list cs \<le> accept_measure key st0" by blast
  from advance_spends [OF exec_advance.hyps(3) [unfolded p] cs] m show ?case by (auto intro: le_trans)
qed auto

lemma exec_trans: "exec pool' bs pool'' \<Longrightarrow> exec pool as pool' \<Longrightarrow> exec pool (as @ bs) pool''"
proof (induction rule: exec.induct)
  case (exec_arrive bs st ps n E e)
  then show ?case using exec.exec_arrive [of pool "as @ bs" st ps n E e] by simp
next
  case (exec_advance bs pool1 i pool2)
  then show ?case using exec.exec_advance [of pool "as @ bs" pool1 i pool2] by simp
qed simp

lemma advances_exec: "advances pool ks pool' \<Longrightarrow> exec pool (map Advance ks) pool'"
  by (induction rule: advances.induct) (auto intro: exec.intros)

section \<open>One handler after the other\<close>

text \<open>A run of handlers is an execution in which every goroutine ends before the next event.\<close>

lemma step_exec:
  assumes "step E e st st'"
  shows "\<exists>as. exec (st, ps) as (st', ps @ [Stop]) \<and> arrived as = [(E, e)]"
proof -
  let ?n = "queue_len st e + 1"
  have "alone (prog_of ?n E e) st = Some (Ok st')"
    using assms by (simp add: step_handler alone_prog_of)
  from alone_advances [OF this, of "length ps" "ps @ [prog_of ?n E e]"] obtain m where
    "advances (st, ps @ [prog_of ?n E e]) (replicate m (length ps)) (st', ps @ [Stop])" by auto
  from exec_trans [OF advances_exec [OF this] exec_arrive [OF exec_start]] have
    "exec (st, ps) ([Arrive ?n E e] @ map Advance (replicate m (length ps))) (st', ps @ [Stop])" by simp
  then show ?thesis
    by (intro exI [of _ "[Arrive ?n E e] @ map Advance (replicate m (length ps))"]) (simp add: arrived_def)
qed

lemma run_exec:
  "run st0 es st \<Longrightarrow> \<exists>as. exec (st0, []) as (st, replicate (length es) Stop) \<and> arrived as = es"
proof (induction rule: run.induct)
  case run_start
  show ?case by (rule exI [of _ "[]"]) (simp add: exec_start)
next
  case (run_step st0 es st E e st')
  then obtain as where as: "exec (st0, []) as (st, replicate (length es) Stop)" "arrived as = es" by blast
  obtain bs where bs: "exec (st, replicate (length es) Stop) bs (st', replicate (length es) Stop @ [Stop])"
    "arrived bs = [(E, e)]" using step_exec [OF run_step(2)] by blast
  have "exec (st0, []) (as @ bs) (st', replicate (length (es @ [(E, e)])) Stop)"
    using exec_trans [OF bs(1) as(1)] by (simp add: replicate_append_same)
  with as bs show ?case by (intro exI [of _ "as @ bs"]) simp
qed

section \<open>Properties of executions\<close>

text \<open>C1: an order is paid at most once a day, however the goroutines interleave. Let the server have
  started, orders, records, ticks and resets have arrived at any time, and their goroutines have advanced by
  atomic steps in any order, some of them not to their end and some into a panic. Then the calls of
  \<open>SendWrap\<close>, \<open>SendUnWrap\<close> and \<open>smpc.Sign\<close> for one transaction id are at most one more than the resets
  of the handled orders that have arrived.\<close>

theorem threads_pay_once:
  assumes "started E dial db st0 ts" and "exec (st0, []) as (st, ps)"
  shows "paid txid st \<le> resets (arrived as) + 1"
  using exec_paid [OF assms(2), of txid] started_ok [OF assms(1)] by (auto simp: pay_measure_def paid_def)

text \<open>C29: a sign request's key is accepted at most once in any such execution, however often the group's node
  lists it and whatever the other goroutines do in the middle of a turn of \<open>Accept\<close>.\<close>

theorem threads_accept_once:
  assumes "started E dial db st0 ts" and "exec (st0, []) as (st, ps)"
  shows "accepted_times key st \<le> 1"
  using exec_accepted [OF assms(2), of key] started_ok [OF assms(1)]
  by (auto simp: accept_measure_def accepted_times_def)

text \<open>C31: the state is well formed between any two atomic steps of any goroutines after the start: the
  parallel slices of the queues have equal lengths, no id is stored twice, and every registered EVM token
  and every listened pair has its queue.\<close>

theorem threads_stay_ok:
  assumes "started E dial db st0 ts" and "exec (st0, []) as (st, ps)"
  shows "server_ok (en_L E) st \<and> list_all (pair_ready (en_L E) st) ts"
proof -
  have g: "good_step st0 st" using exec_good [OF assms(2)] by blast
  have "pair_ready (en_L E) st0 p \<Longrightarrow> pair_ready (en_L E) st p" for p
    using g pair_ready_mono [of "en_L E" st0 p st] unfolding good_step_def same_tokens_def by blast
  with started_ok [OF assms(1)] server_ok_step [OF _ g] show ?thesis by (auto simp: list_all_iff)
qed

text \<open>No run is left out: every run of the process with one handler after the other is one
  of them, with the same events in the same order, in which every goroutine has ended. So what holds of all
  executions holds of all runs.\<close>

theorem run_is_interleaving:
  assumes "run st0 es st"
  shows "\<exists>as. exec (st0, []) as (st, replicate (length es) Stop) \<and> arrived as = es"
  using run_exec [OF assms] .

text \<open>A goroutine that nobody interrupts does what the handler or the turn of the task does: with the
  same state, error or panic in the end, as long as it may make more rounds than the queue it rechecks is long.\<close>

theorem prog_of_is_handler:
  assumes "queue_len st e < n"
  shows "alone (prog_of n E e) st = handler E e st"
  using alone_prog_of [OF assms] .

end
