(* ===== verification/Recheck_Race.thy ===== *)
theory Recheck_Race
  imports Interleavings
begin

text \<open>
  \<open>recheckEvmTx\<close> while other goroutines push to its queue. It reads the front (\<open>Top\<close>), takes its time
  with the nodes, and then removes or replaces the front (\<open>Pop\<close>, \<open>UpdateTop\<close>) without looking again.
  Each queue has one goroutine that rechecks it, and all others only push, so that the front is
  still the entry that was read.
\<close>

section \<open>The others only push\<close>

lemma order_step_pushes: "order_step st st' \<Longrightarrow> only_pushes key st st'"
  by (simp add: order_step_def)

lemma task_step_pushes: "task_step K st st' \<Longrightarrow> key \<notin> K \<Longrightarrow> only_pushes key st st'"
  by (simp add: task_step_def only_pushes_same)

lemma prog_only_pushes:
  assumes "e \<noteq> RecheckEvmTick key"
  shows "keeps (only_pushes key) (prog_of n E e)"
proof (cases e)
  case (RecheckEvmTick key')
  with assms show ?thesis by (auto intro: keeps_mono [OF task_event_keeps(3)] task_step_pushes)
next
  case DailyResetTick
  then show ?thesis by (simp add: prog_of_def only_pushes_same)
qed (auto intro: keeps_mono [OF order_event_keeps(1)] keeps_mono [OF order_event_keeps(2)]
    keeps_mono [OF order_event_keeps(3)] keeps_mono [OF task_event_keeps(1)] keeps_mono [OF task_event_keeps(2)]
    keeps_mono [OF task_event_keeps(4)] order_step_pushes task_step_pushes)

lemma exec_interfered:
  "exec (st, ps) as (st', ps') \<Longrightarrow> i < length ps \<Longrightarrow> \<forall>k < length ps. k \<noteq> i \<longrightarrow> keeps (only_pushes key) (ps ! k) \<Longrightarrow>
     \<forall>(E, e) \<in> set (arrived as). e \<noteq> RecheckEvmTick key \<Longrightarrow>
     interfered (only_pushes key) (ps ! i) st (ps' ! i) st' \<and> i < length ps' \<and>
       (\<forall>k < length ps'. k \<noteq> i \<longrightarrow> keeps (only_pushes key) (ps' ! k))"
proof (induction as "(st', ps')" arbitrary: st' ps' rule: exec.induct)
  case exec_start
  then show ?case by (simp add: interfered_refl)
next
  case (exec_arrive as st1 ps1 n E e)
  then show ?case by (auto simp: nth_append prog_only_pushes less_Suc_eq)
next
  case (exec_advance as pool1 j st2 ps2)
  obtain st1 ps1 where p: "pool1 = (st1, ps1)" by fastforce
  have "interfered (only_pushes key) (ps ! i) st (ps1 ! i) st1" "i < length ps1"
    "\<forall>k < length ps1. k \<noteq> i \<longrightarrow> keeps (only_pushes key) (ps1 ! k)"
    using exec_advance.hyps(2) [OF p] exec_advance.prems by simp_all
  with advance_interfered [OF exec_advance.hyps(3) [unfolded p]] show ?case by metis
qed

section \<open>What a recheck does to the queue\<close>

type_synonym queue_item = "bytes \<times> evm_token \<times> int"

definition drops :: "server_env \<Rightarrow> queue_item \<Rightarrow> bool" where
  "drops E x = (case x of (h, t, ts) \<Rightarrow> ts \<noteq> 0 \<and> recheck_decide E h t ts = Ok DropTx)"

text \<open>\<open>xs\<close> were in the queue or have been pushed to it, and \<open>ys\<close> are there now.\<close>

definition left_by_recheck :: "server_env \<Rightarrow> queue_item list \<Rightarrow> queue_item list \<Rightarrow> bool" where
  "left_by_recheck E xs ys \<longleftrightarrow> (\<exists>ds. list_all (drops E) ds \<and> (xs = ds @ ys \<or>
     (\<exists>h t ts h' rest. xs = ds @ (h, t, ts) # rest \<and> recheck_decide E h t ts = Ok (ReplaceTx h') \<and>
       ys = (h', t, en_now E) # rest)))"

definition undecided :: "server_env \<Rightarrow> queue_item list \<Rightarrow> queue_item list \<Rightarrow> bool" where
  "undecided E xs ys \<longleftrightarrow> (\<exists>ds. list_all (drops E) ds \<and> xs = ds @ ys)"

lemma left_push: "left_by_recheck E xs ys \<Longrightarrow> left_by_recheck E (xs @ zs) (ys @ zs)"
  by (fastforce simp: left_by_recheck_def)

lemma undecided_push: "undecided E xs ys \<Longrightarrow> undecided E (xs @ zs) (ys @ zs)"
  by (auto simp: undecided_def)

lemma undecided_left: "undecided E xs ys \<Longrightarrow> left_by_recheck E xs ys"
  by (auto simp: undecided_def left_by_recheck_def)

lemma undecided_drop: "undecided E xs (x # ys) \<Longrightarrow> drops E x \<Longrightarrow> undecided E xs ys"
  unfolding undecided_def by (elim exE conjE) (rule exI [of _ "ds @ [x]" for ds], simp)

lemma undecided_replace:
  "undecided E xs ((h, t, ts) # ys) \<Longrightarrow> recheck_decide E h t ts = Ok (ReplaceTx h') \<Longrightarrow>
     left_by_recheck E xs ((h', t, en_now E) # ys)"
  by (auto simp: undecided_def left_by_recheck_def)

text \<open>Where the goroutine is, and what it relies on there.\<close>

inductive recheck_at :: "server_env \<Rightarrow> string \<Rightarrow> queue_item list \<Rightarrow> server prog \<Rightarrow> queue_item list \<Rightarrow> bool"
  for E key where
  at_loop: "undecided E xs ys \<Longrightarrow> recheck_at E key xs (recheck_evm_prog n E key) ys"
| at_drop: "undecided E xs (x # ys) \<Longrightarrow> drops E x \<Longrightarrow>
    recheck_at E key xs (on_queue key evm_Pop (recheck_evm_prog n E key)) (x # ys)"
| at_replace: "undecided E xs ((h, t, ts) # ys) \<Longrightarrow> recheck_decide E h t ts = Ok (ReplaceTx h') \<Longrightarrow>
    recheck_at E key xs (on_queue key (evm_UpdateTop h' t (en_now E)) Stop) ((h, t, ts) # ys)"
| at_end: "left_by_recheck E xs ys \<Longrightarrow> p = Stop \<or> (\<exists>s. p = Crash s) \<or> (\<exists>e. p = Fail e) \<Longrightarrow> recheck_at E key xs p ys"

lemma recheck_at_left: "recheck_at E key xs p ys \<Longrightarrow> left_by_recheck E xs ys"
  by (induction rule: recheck_at.induct) (simp_all add: undecided_left)

lemma recheck_at_push: "recheck_at E key xs p ys \<Longrightarrow> recheck_at E key (xs @ zs) p (ys @ zs)"
proof (induction rule: recheck_at.induct)
  case (at_drop xs x ys n)
  from recheck_at.at_drop [OF undecided_push [OF at_drop(1), of zs, simplified] at_drop(2)] show ?case by simp
next
  case (at_replace xs h t ts ys h')
  from recheck_at.at_replace [OF undecided_push [OF at_replace(1), of zs, simplified] at_replace(2)] show ?case by simp
qed (auto intro: recheck_at.intros undecided_push left_push)

lemma on_queue_step:
  assumes "on_queue key f k = Step g" and "g st = (st', p)" and "sv_evm st key = Some q" and "f q = Ok q'"
  shows "sv_evm st' key = Some q' \<and> p = k"
  using assms by (auto simp: on_queue_def attempt_def)

lemma loop_step:
  assumes "recheck_evm_prog n E key = Step f" and "f st = (st', p)" and "sv_evm st key = Some q" and "evm_ok q"
    and "undecided E xs (evm_items q)"
  shows "st' = st \<and> recheck_at E key xs p (evm_items q)"
proof -
  obtain m where n: "n = Suc m" using assms(1) by (cases n) simp_all
  note end_here = at_end [OF undecided_left [OF assms(5)]]
  let ?decided = "\<lambda>t choice. case choice of Stay \<Rightarrow> Stop
    | DropTx \<Rightarrow> on_queue key evm_Pop (recheck_evm_prog m E key)
    | ReplaceTx txHash \<Rightarrow> on_queue key (evm_UpdateTop txHash t (en_now E)) Stop"
  have f: "st' = st" "p = ensure (evm_Top q) (\<lambda>(txOldHash, chain, ts). case chain of None \<Rightarrow> Stop
      | Some t \<Rightarrow> if ts = 0 then Stop else ensure (recheck_decide E txOldHash t ts) (?decided t))"
    using assms(1-3) n by auto
  show ?thesis
  proof (cases "evm_items q")
    case Nil
    then show ?thesis using f evm_Top_ok [OF assms(4)] end_here by simp
  next
    case (Cons x ys)
    obtain h t ts where x: "x = (h, t, ts)" by (cases x)
    have p: "p = (if ts = 0 then Stop else ensure (recheck_decide E h t ts) (?decided t))"
      using f(2) evm_Top_ok [OF assms(4)] Cons x by simp
    show ?thesis
    proof (cases "ts = 0 \<or> (\<nexists>c. recheck_decide E h t ts = Ok c)")
      case True
      then have "p = Stop \<or> (\<exists>s. p = Crash s) \<or> (\<exists>e. p = Fail e)"
        unfolding p by (cases "recheck_decide E h t ts") auto
      then show ?thesis using f(1) end_here by blast
    next
      case False
      then obtain c where c: "ts \<noteq> 0" "recheck_decide E h t ts = Ok c" by blast
      have "recheck_at E key xs (?decided t c) ((h, t, ts) # ys)"
      proof (cases c)
        case DropTx
        then show ?thesis
          using c assms(5) Cons x by (auto intro!: at_drop simp: drops_def)
      qed (use c assms(5) Cons x end_here in \<open>auto intro!: at_replace\<close>)
      then show ?thesis using f(1) p c Cons x by simp
    qed
  qed
qed

lemma recheck_at_step:
  assumes "recheck_at E key xs (Step f) ys" and "f st = (st', p)" and "sv_evm st key = Some q" and "evm_ok q"
    and "ys = evm_items q"
  shows "\<exists>q'. sv_evm st' key = Some q' \<and> evm_ok q' \<and> recheck_at E key xs p (evm_items q')"
  using assms(1)
proof (cases rule: recheck_at.cases)
  case (at_loop n)
  then show ?thesis using loop_step [of n E key f st st' p q xs] assms by auto
next
  case (at_drop x ys' n)
  obtain q' where q': "evm_Pop q = Ok q'" "evm_ok q'" "evm_items q' = ys'"
    using evm_Pop_ok [OF assms(4)] at_drop assms(5) by auto
  from on_queue_step [OF at_drop(1) [symmetric] assms(2,3) q'(1)] q' undecided_drop [OF at_drop(3,4)]
  show ?thesis by (auto intro: recheck_at.at_loop)
next
  case (at_replace h t ts ys' h')
  obtain q' where q': "evm_UpdateTop h' t (en_now E) q = Ok q'" "evm_ok q'" "evm_items q' = (h', t, en_now E) # ys'"
    using evm_UpdateTop_ok [OF assms(4), of h' t "en_now E"] at_replace assms(5) by auto
  from on_queue_step [OF at_replace(1) [symmetric] assms(2,3) q'(1)] q' undecided_replace [OF at_replace(3,4)]
  show ?thesis by (auto intro: recheck_at.at_end)
qed simp

lemma recheck_at_here:
  assumes "recheck_at E key xs p ys"
  shows "recheck_at E key ys p ys"
proof -
  have u: "undecided E zs zs" for zs by (simp add: undecided_def)
  show ?thesis
    using assms by (induction rule: recheck_at.induct) (auto intro: recheck_at.intros u undecided_left [OF u])
qed

lemma interfered_recheck:
  assumes "interfered (only_pushes key) p0 st0 p st" and "recheck_at E key (evm_items q0) p0 (evm_items q0)"
    and "sv_evm st0 key = Some q0" and "evm_ok q0"
  shows "\<exists>q pushed. sv_evm st key = Some q \<and> evm_ok q \<and> recheck_at E key (evm_items q0 @ pushed) p (evm_items q)"
  using assms(1)
proof (induction rule: interfered.induct)
  case interfered_refl
  show ?case using assms by (intro exI [of _ q0] exI [of _ "[]"]) simp
next
  case (interfered_env p st st')
  then obtain q pushed where q: "sv_evm st key = Some q" "evm_ok q"
    "recheck_at E key (evm_items q0 @ pushed) p (evm_items q)" by blast
  with interfered_env(2) obtain q' xs where "sv_evm st' key = Some q'" "evm_ok q'" "evm_items q' = evm_items q @ xs"
    unfolding only_pushes_def by blast
  with recheck_at_push [OF q(3), of xs] show ?case by (intro exI [of _ q'] exI [of _ "pushed @ xs"]) simp
next
  case (interfered_step f st st' p)
  then obtain q pushed where "sv_evm st key = Some q" "evm_ok q"
    "recheck_at E key (evm_items q0 @ pushed) (Step f) (evm_items q)" by blast
  with recheck_at_step interfered_step(2) show ?case by blast
qed

section \<open>Property\<close>

text \<open>C20: \<open>recheckEvmTx\<close> drops what it has looked at. Let the goroutine of one tick run among others
  that only push to its queue, with orders and other ticks arriving in between. From any moment to any later one,
  the queue loses only entries in front that the goroutine had to drop by what the node told it of them, and
  at most the next one is replaced by its speed-up; all others stay, with what was pushed behind them. So a
  push between \<open>Top\<close> and \<open>Pop\<close> or \<open>UpdateTop\<close> does not make it drop another transaction.\<close>

theorem recheck_drops_what_it_read:
  assumes "exec (st, ps @ [prog_of n E (RecheckEvmTick key)]) as1 (st1, ps1)"
    and "exec (st1, ps1) as2 (st2, ps2)"
    and "list_all (keeps (only_pushes key)) ps"
    and "\<forall>(E, e) \<in> set (arrived (as1 @ as2)). e \<noteq> RecheckEvmTick key"
    and "sv_evm st key = Some q" and "evm_ok q"
  shows "\<exists>q1 q2 pushed. sv_evm st1 key = Some q1 \<and> sv_evm st2 key = Some q2 \<and>
    left_by_recheck E (evm_items q1 @ pushed) (evm_items q2)"
proof -
  let ?i = "length ps"
  have i1: "interfered (only_pushes key) (prog_of n E (RecheckEvmTick key)) st (ps1 ! ?i) st1 \<and> ?i < length ps1 \<and>
      (\<forall>k < length ps1. k \<noteq> ?i \<longrightarrow> keeps (only_pushes key) (ps1 ! k))"
    using exec_interfered [OF assms(1), of ?i key] assms(3,4)
    by (auto simp: nth_append list_all_length less_Suc_eq)
  then have i2: "interfered (only_pushes key) (ps1 ! ?i) st1 (ps2 ! ?i) st2"
    using exec_interfered [OF assms(2), of ?i key] assms(4) by auto
  have "recheck_at E key (evm_items q) (prog_of n E (RecheckEvmTick key)) (evm_items q)"
    by (simp add: prog_of_def at_loop undecided_def)
  from interfered_recheck [OF _ this assms(5,6)] i1 obtain q1 xs where
    q1: "sv_evm st1 key = Some q1" "evm_ok q1" "recheck_at E key xs (ps1 ! ?i) (evm_items q1)" by blast
  from interfered_recheck [OF i2 recheck_at_here [OF q1(3)] q1(1,2)] q1(1) show ?thesis
    by (auto dest: recheck_at_left)
qed

end
