(* ===== verification/Start_Race.thy ===== *)
theory Start_Race
  imports Interleavings
begin

text \<open>
  \<open>ListenTokens\<close> as a goroutine. main starts it (\<open>go server.Start()\<close>) and then the loop over the
  records of the error contract, without waiting; the listeners of a pair run while the next pair is
  set up. Each assignment to one of the maps is a step here, and so is the test for a queue with the
  insertion that follows it, which only this goroutine does.
\<close>

definition listen_pair_prog :: "server_env \<Rightarrow> (config_token \<Rightarrow> eth_env) \<Rightarrow> string \<times> string
    \<Rightarrow> server prog \<Rightarrow> server prog" where
  "listen_pair_prog E dial pair k = (case pair of (src, dest) \<Rightarrow>
     (case map_of (cf_Tokens (en_conf E)) src of
        None \<Rightarrow> Crash ''nil pointer dereference''
      | Some c1 \<Rightarrow> ensure (NewSourceChain E (dial c1) c1) (\<lambda>t1.
          Step (\<lambda>st. (st\<lparr>sv_src := (sv_src st)(src \<mapsto> t1)\<rparr>,
            case map_of (cf_Tokens (en_conf E)) dest of
              None \<Rightarrow> Crash ''nil pointer dereference''
            | Some c2 \<Rightarrow> ensure (NewDestinationChain E (dial c2) c2) (\<lambda>t2.
                Step (\<lambda>st. (st\<lparr>sv_dest := (sv_dest st)(dest \<mapsto> t2)\<rparr>,
                Step (\<lambda>st. (if MultiSignType_src t1 = EvmMultiSign
                    then new_queue (Address_src (en_L E) t1 @ ChainID_src t1) st else st,
                Step (\<lambda>st. (if MultiSignType_evm t2 = EvmMultiSign then new_queue (queue_key (en_L E) t2) st else st,
                  k))))))))))))"

definition ListenTokens_prog :: "server_env \<Rightarrow> (config_token \<Rightarrow> eth_env) \<Rightarrow> server prog" where
  "ListenTokens_prog E dial = Step (\<lambda>st. (st\<lparr>sv_evm := Map.empty\<rparr>,
     foldr (listen_pair_prog E dial) (cf_WrapPairs (en_conf E)) Stop))"

lemma alone_listen_pair: "alone (listen_pair_prog E dial p k) st =
    (case listen_pair E dial p st of Ok (st', t1, t2) \<Rightarrow> alone k st' | Err e \<Rightarrow> Some (Err e) | Panic s \<Rightarrow> Some (Panic s))"
proof -
  obtain src dest where p: "p = (src, dest)" by fastforce
  show ?thesis
  proof (cases "map_of (cf_Tokens (en_conf E)) src")
    case (Some c1)
    then show ?thesis
      by (cases "NewSourceChain E (dial c1) c1"; cases "map_of (cf_Tokens (en_conf E)) dest")
        (auto simp: p listen_pair_prog_def listen_pair_def alone_ensure Let_def split: outcome.split)
  qed (simp add: p listen_pair_prog_def listen_pair_def)
qed

lemma alone_listen_pairs: "alone (foldr (listen_pair_prog E dial) ps Stop) st =
    Some (obind (listen_pairs E dial ps st) (\<lambda>(st, ts). Ok st))"
proof (induction ps arbitrary: st)
  case (Cons p ps)
  have drop: "obind (obind r (\<lambda>(st, ts). Ok (st, x # ts))) (\<lambda>(st, ts). Ok st) = obind r (\<lambda>(st, ts). Ok st)"
    for r :: "(server \<times> (source_token \<times> evm_token) list) outcome" and x
    by (cases r) auto
  show ?case using Cons
    by (cases "listen_pair E dial p st") (auto simp: alone_listen_pair drop)
qed simp

lemma alone_ListenTokens: "alone (ListenTokens_prog E dial) st = Some (obind (ListenTokens E dial st) (\<lambda>(st, ts). Ok st))"
  by (simp add: ListenTokens_prog_def ListenTokens_def alone_listen_pairs)

section \<open>A record between two steps\<close>

text \<open>The tokens of a pair are registered before their queue exists.\<close>

lemma registered_first:
  assumes "listen_pair E dial (src, dest) st = Ok (st', t1, t2)"
  shows "\<exists>rest. advances (st, [listen_pair_prog E dial (src, dest) k, p]) [0, 0]
    (st\<lparr>sv_src := (sv_src st)(src \<mapsto> t1), sv_dest := (sv_dest st)(dest \<mapsto> t2)\<rparr>, [rest, p])"
proof -
  from assms obtain c1 c2 where c: "map_of (cf_Tokens (en_conf E)) src = Some c1" "map_of (cf_Tokens (en_conf E)) dest = Some c2"
    "NewSourceChain E (dial c1) c1 = Ok t1" "NewDestinationChain E (dial c2) c2 = Ok t2"
    by (auto simp: listen_pair_def obind_Ok_conv Let_def split: option.splits)
  let ?rest = "Step (\<lambda>st. (if MultiSignType_src t1 = EvmMultiSign
      then new_queue (Address_src (en_L E) t1 @ ChainID_src t1) st else st,
    Step (\<lambda>st. (if MultiSignType_evm t2 = EvmMultiSign then new_queue (queue_key (en_L E) t2) st else st, k))))"
  let ?dest = "Step (\<lambda>st. (st\<lparr>sv_dest := (sv_dest st)(dest \<mapsto> t2)\<rparr>, ?rest))"
  have one: "advance 0 (st, [listen_pair_prog E dial (src, dest) k, p])
      (st\<lparr>sv_src := (sv_src st)(src \<mapsto> t1)\<rparr>, [listen_pair_prog E dial (src, dest) k, p][0 := ?dest])"
    by (rule advance.intros [where f = "\<lambda>st. (st\<lparr>sv_src := (sv_src st)(src \<mapsto> t1)\<rparr>, ?dest)"])
      (simp_all add: listen_pair_prog_def c)
  have two: "advance 0 (st\<lparr>sv_src := (sv_src st)(src \<mapsto> t1)\<rparr>, [?dest, p])
      (st\<lparr>sv_src := (sv_src st)(src \<mapsto> t1), sv_dest := (sv_dest st)(dest \<mapsto> t2)\<rparr>, [?dest, p][0 := ?rest])"
    by (rule advance.intros [where f = "\<lambda>st. (st\<lparr>sv_dest := (sv_dest st)(dest \<mapsto> t2)\<rparr>, ?rest)"]) simp_all
  show ?thesis
    using advances_trans [OF advances_one [OF two] advances_one [OF one [simplified]]]
    by (intro exI [of _ ?rest]) simp
qed

text \<open>A record for a wrap that is paid while the destination has no queue: where its goroutine gets to.\<close>

lemma record_without_queue:
  assumes "sv_src st (ter_FromCoin r) = Some t1" and "sv_dest st (ter_ToCoin r) = Some t2" and "ter_D r = 1"
    and "CheckUserTx_src E t1 (ter_Txid r) (ter_ToCoin r) 1 = Ok (sender, receiver, amount)"
    and "\<not> map_Exist (ter_Txid r) (sv_users st)" and "Symbol_evm t2 = ter_ToCoin r"
    and "hexutil_Encode (en_L E) (ter_Txid r) \<notin> dom (sv_dealed st)" and "env_key E (Symbol_evm t2) = Ok (Inr (a, prv))"
    and "SendWrap_evm (en_L E) (en_eth E t2) t2 (hexutil_Encode (en_L E) (ter_Txid r)) amount receiver prv = (Ok h, sent)"
    and "sv_evm st (queue_key (en_L E) t2) = None"
  shows "\<exists>st'. finish (dealTxErrorRecord_prog E r) st = (st', Crash ''nil pointer dereference'') \<and>
    sv_trace st' = sv_trace st @ [WrapSent (hexutil_Encode (en_L E) (ter_Txid r)) amount receiver] \<and>
    sv_evm st' = sv_evm st \<and> sv_users st' = sv_users st"
proof -
  let ?id = "hexutil_Encode (en_L E) (ter_Txid r)"
  have c: "Check ?id (sv_dealed st) = ((sv_dealed st)(?id \<mapsto> True), True)"
    using assms(7) by (auto simp: Check_def split: option.splits)
  obtain db wo err where s: "StoreSwapOrder (en_store E) (order_row \<lparr>so_TxID = ?id, so_FromToken = ter_FromCoin r,
      so_ToToken = ter_ToCoin r, so_From = sender, so_To = receiver, so_Amount = amount, so_Org = [], so_Error = None,
      so_Type = 0\<rparr> 1 (en_now_ms E)) (sv_db st) = (db, wo, err)" by (metis prod_cases3)
  show ?thesis
    using assms c s
    by (simp add: dealTxErrorRecord_prog_def dealWrapOrder_prog_def wrap_by_key_prog_def evm_sent_prog_def attempt_def
        push_sent_def MultiSignType_evm_def traced_def Let_def)
qed

text \<open>C36: a record that comes while the server starts can end the process. \<open>ListenTokens\<close> registers both
  tokens of a pair before it makes the queue of the destination. Let a record for this pair, which the source
  chain confirms, be handled between these assignments, let the key of the destination's account open, and
  let its node take the transaction. Then its goroutine has called \<open>SendWrap\<close>, which has broadcast the payment, and panics
  at the queue that does not exist yet: no queue has changed, the record is not noted as served, and the panic
  ends the process.\<close>

theorem record_during_start_panics:
  assumes "listen_pair E dial (src, dest) st = Ok (st', t1, t2)" and "sv_evm st (queue_key (en_L E) t2) = None"
    and "ter_FromCoin r = src" and "ter_ToCoin r = dest" and "ter_D r = 1" and "Symbol_evm t2 = dest"
    and "CheckUserTx_src E t1 (ter_Txid r) dest 1 = Ok (sender, receiver, amount)"
    and "\<not> map_Exist (ter_Txid r) (sv_users st)" and "hexutil_Encode (en_L E) (ter_Txid r) \<notin> dom (sv_dealed st)"
    and "env_key E dest = Ok (Inr (a, prv))"
    and "SendWrap_evm (en_L E) (en_eth E t2) t2 (hexutil_Encode (en_L E) (ter_Txid r)) amount receiver prv = (Ok h, sent)"
  shows "\<exists>n st1 rest. advances (st, [listen_pair_prog E dial (src, dest) k, dealTxErrorRecord_prog E r])
      ([0, 0] @ replicate n 1) (st1, [rest, Crash ''nil pointer dereference'']) \<and>
    sv_trace st1 = sv_trace st @ [WrapSent (hexutil_Encode (en_L E) (ter_Txid r)) amount receiver] \<and> sent \<noteq> [] \<and>
    sv_evm st1 = sv_evm st \<and> sv_users st1 = sv_users st"
proof -
  let ?mid = "st\<lparr>sv_src := (sv_src st)(src \<mapsto> t1), sv_dest := (sv_dest st)(dest \<mapsto> t2)\<rparr>"
  obtain rest where first: "advances (st, [listen_pair_prog E dial (src, dest) k, dealTxErrorRecord_prog E r]) [0, 0]
      (?mid, [rest, dealTxErrorRecord_prog E r])"
    using registered_first [OF assms(1)] by blast
  have "\<exists>st1. finish (dealTxErrorRecord_prog E r) ?mid = (st1, Crash ''nil pointer dereference'') \<and>
      sv_trace st1 = sv_trace ?mid @ [WrapSent (hexutil_Encode (en_L E) (ter_Txid r)) amount receiver] \<and>
      sv_evm st1 = sv_evm ?mid \<and> sv_users st1 = sv_users ?mid"
    using assms by (intro record_without_queue [of ?mid r t1 t2 E sender receiver amount a prv h sent]) simp_all
  then obtain st1 where st1: "finish (dealTxErrorRecord_prog E r) ?mid = (st1, Crash ''nil pointer dereference'')"
    "sv_trace st1 = sv_trace st @ [WrapSent (hexutil_Encode (en_L E) (ter_Txid r)) amount receiver]"
    "sv_evm st1 = sv_evm st" "sv_users st1 = sv_users st" by auto
  from finish_advances [OF st1(1), of 1 "[rest, dealTxErrorRecord_prog E r]"] obtain n where
    "advances (?mid, [rest, dealTxErrorRecord_prog E r]) (replicate n 1)
      (st1, [rest, Crash ''nil pointer dereference''])" by auto
  from advances_trans [OF this first]
  have run: "advances (st, [listen_pair_prog E dial (src, dest) k, dealTxErrorRecord_prog E r]) ([0, 0] @ replicate n 1)
      (st1, [rest, Crash ''nil pointer dereference''])" .
  have "sent \<noteq> []"
    using assms(11) by (auto simp: SendWrap_evm_def send_call_def Let_def split: if_splits option.splits sum.splits)
  with run st1(2-4) show ?thesis by blast
qed

end
