(* ===== verification/Threads_Demo.thy ===== *)
theory Threads_Demo
  imports Server_Demo Recheck_Race Start_Race
begin

text \<open>Concrete executions of the goroutines, in the world of \<open>Server_Demo\<close>.\<close>

section \<open>The same order twice\<close>

text \<open>Two goroutines get the same order. The second is the first to reach \<open>dealedOrders\<close>, the first
  finds the order handled and ends, and the second goes on and pays.\<close>

definition demo_twice :: "(server_env \<times> event) list" where
  "demo_twice = [(demo_env, Wrapped demo_sSOON demo_wrap), (demo_env, Wrapped demo_sSOON demo_wrap)]"

lemma demo_check: "Check (so_TxID demo_wrap) Map.empty = ([''0x01'' \<mapsto> True], True)"
  "Check (so_TxID demo_wrap) [''0x01'' \<mapsto> True] = ([''0x01'' \<mapsto> True], False)"
  by (simp_all add: Check_def demo_wrap_def)

lemma demo_interleaved:
  "\<exists>as st. exec (demo_server, []) as (st, [Stop, Stop]) \<and> arrived as = demo_twice \<and> paid ''0x01'' st = 1"
proof -
  let ?P = "dealWrapOrder_prog demo_env (Some demo_sSOON) demo_wrap"
  let ?e = "Wrapped demo_sSOON demo_wrap"
  have sym: "so_ToToken demo_wrap = Symbol_evm demo_sSOON" by (simp add: demo_symbol demo_wrap_def)
  obtain f where P: "?P = Step f" and f: "\<And>st. f st = (let (dealed, fresh) = Check (so_TxID demo_wrap) (sv_dealed st) in
      (st\<lparr>sv_dealed := dealed\<rparr>, if \<not> fresh then Stop else Step (\<lambda>st.
         let (db, wo, err) = StoreSwapOrder (en_store demo_env) (order_row demo_wrap 1 (en_now_ms demo_env)) (sv_db st)
         in (st\<lparr>sv_db := db\<rparr>, wrap_by_key_prog demo_env demo_sSOON demo_wrap))))"
    using sym by (simp add: dealWrapOrder_prog_def)
  obtain st where d: "dealWrapOrder demo_env (Some demo_sSOON) demo_wrap demo_server = Ok st"
    and t: "sv_trace st = [WrapSent ''0x01'' (Some 5) (''0x'' @ hex_encode (replicate 20 2))]"
    using demo_wrapped by blast
  let ?st1 = "demo_server\<lparr>sv_dealed := [''0x01'' \<mapsto> True]\<rparr>"
  obtain Q where Q: "f demo_server = (?st1, Q)" by (simp add: f demo_check)
  have alone: "alone Q ?st1 = Some (Ok st)"
    using alone_dealWrapOrder [of demo_env "Some demo_sSOON" demo_wrap demo_server] P Q d by simp
  have one: "advance 1 (demo_server, [?P, ?P]) (?st1, [?P, Q])"
    using advance.intros [of 1 "[?P, ?P]" f demo_server ?st1 Q] by (simp add: P Q)
  have two: "advance 0 (?st1, [?P, Q]) (?st1, [Stop, Q])"
    using advance.intros [of 0 "[?P, Q]" f ?st1 ?st1 Stop] by (simp add: P f demo_check)
  obtain n where three: "advances (?st1, [Stop, Q]) (replicate n 1) (st, [Stop, Q][1 := Stop])"
    using alone_advances [OF alone, of 1 "[Stop, Q]"] by auto
  have "advances (demo_server, [?P, ?P]) (([1] @ [0]) @ replicate n 1) (st, [Stop, Stop])"
    using advances_trans [OF three advances_trans [OF advances_one [OF two] advances_one [OF one]]]
    by simp
  then have ex: "exec (demo_server, [?P, ?P]) (map Advance (([1] @ [0]) @ replicate n 1)) (st, [Stop, Stop])"
    by (rule advances_exec)
  have "exec (demo_server, []) (([] @ [Arrive 1 demo_env ?e]) @ [Arrive 1 demo_env ?e])
      (demo_server, ([] @ [prog_of 1 demo_env ?e]) @ [prog_of 1 demo_env ?e])"
    by (intro exec_arrive exec_start)
  then have start: "exec (demo_server, []) [Arrive 1 demo_env ?e, Arrive 1 demo_env ?e] (demo_server, [?P, ?P])"
    by (simp add: prog_of_def)
  from exec_trans [OF ex start] t show ?thesis
    by (intro exI conjI) (auto simp: arrived_def demo_twice_def paid_def)
qed

theorem threads_pay_once_witness:
  "\<exists>as st. exec (demo_server, []) as (st, [Stop, Stop]) \<and> paid ''0x01'' st = 1 \<and>
     paid ''0x01'' st \<le> resets (arrived as) + 1 \<and> resets (arrived as) = 0"
proof -
  obtain as st where x: "exec (demo_server, []) as (st, [Stop, Stop])" "arrived as = demo_twice" "paid ''0x01'' st = 1"
    using demo_interleaved by blast
  from threads_pay_once [OF demo_started x(1), of "''0x01''"] x show ?thesis
    by (intro exI [of _ as] exI [of _ st]) (simp add: demo_twice_def resets_def)
qed

theorem threads_accept_once_witness:
  "\<exists>as st. exec (demo_server, []) as (st, [Stop, Stop]) \<and> accepted_times ''key'' st \<le> 1"
  using demo_interleaved threads_accept_once [OF demo_started] by blast

theorem threads_stay_ok_witness:
  "\<exists>as st. exec (demo_server, []) as (st, [Stop, Stop]) \<and> paid ''0x01'' st = 1 \<and> server_ok (en_L demo_env) st"
  using demo_interleaved threads_stay_ok [OF demo_started] by blast

section \<open>A recheck between two steps\<close>

definition demo_key_of_queue :: string where
  "demo_key_of_queue = queue_key eth_demo demo_sSOON"

definition demo_queued :: "evm_token evm_queue \<Rightarrow> server" where
  "demo_queued q = demo_server\<lparr>sv_evm := [demo_key_of_queue \<mapsto> q]\<rparr>"

lemma demo_decide: "recheck_decide demo_env [1] demo_sSOON 50 = Ok DropTx"
  by (simp add: recheck_decide_def demo_config_tokens)

lemma demo_queue_top: "evm_Top demo_queue = Ok ([1], Some demo_sSOON, 50)"
  "\<exists>q. evm_Pop demo_queue = Ok q \<and> evm_items q = [([2], demo_sSOON, 900)]"
  using evm_Top_ok [OF demo_queue_ok(1)] evm_Pop_ok [OF demo_queue_ok(1)] by (auto simp: demo_queue_ok(2))

theorem recheck_drops_what_it_read_witness:
  "\<exists>st q2 pushed. exec (demo_queued demo_queue, [prog_of 1 demo_env (Wrapped demo_sSOON demo_wrap),
       prog_of 2 demo_env (RecheckEvmTick demo_key_of_queue)]) ([Advance 1] @ [Advance 1]) st \<and>
     sv_evm (fst st) demo_key_of_queue = Some q2 \<and> evm_items q2 = [([2], demo_sSOON, 900)] \<and>
     left_by_recheck demo_env (evm_items demo_queue @ pushed) (evm_items q2)"
proof -
  let ?key = demo_key_of_queue
  let ?W = "prog_of 1 demo_env (Wrapped demo_sSOON demo_wrap)"
  let ?R = "recheck_evm_prog 2 demo_env ?key"
  let ?D = "on_queue ?key evm_Pop (recheck_evm_prog 1 demo_env ?key)"
  let ?st = "demo_queued demo_queue"
  obtain q where q: "evm_Pop demo_queue = Ok q" "evm_items q = [([2], demo_sSOON, 900)]" using demo_queue_top(2) by blast
  obtain f where f: "?R = Step f" "f ?st = (?st, ?D)"
    by (simp add: numeral_2_eq_2 demo_queued_def demo_queue_top(1) demo_decide)
  obtain g where g: "?D = Step g" "g ?st = (?st\<lparr>sv_evm := [?key \<mapsto> q]\<rparr>, recheck_evm_prog 1 demo_env ?key)"
    by (simp add: on_queue_def attempt_def demo_queued_def q(1))
  have one: "advance 1 (?st, [?W, ?R]) (?st, [?W, ?D])"
    using advance.intros [of 1 "[?W, ?R]" f ?st ?st ?D] f by simp
  have two: "advance 1 (?st, [?W, ?D]) (?st\<lparr>sv_evm := [?key \<mapsto> q]\<rparr>, [?W, recheck_evm_prog 1 demo_env ?key])"
    using advance.intros [of 1 "[?W, ?D]" g ?st "?st\<lparr>sv_evm := [?key \<mapsto> q]\<rparr>" "recheck_evm_prog 1 demo_env ?key"] g by simp
  have e1: "exec (?st, [?W] @ [prog_of 2 demo_env (RecheckEvmTick ?key)]) [Advance 1] (?st, [?W, ?D])"
    using exec_advance [OF exec_start one] by (simp add: prog_of_def)
  have e2: "exec (?st, [?W, ?D]) [Advance 1] (?st\<lparr>sv_evm := [?key \<mapsto> q]\<rparr>, [?W, recheck_evm_prog 1 demo_env ?key])"
    using exec_advance [OF exec_start two] by simp
  have w: "list_all (keeps (only_pushes ?key)) [?W]" using prog_only_pushes by simp
  have a: "\<forall>(E, e) \<in> set (arrived ([Advance 1] @ [Advance 1])). e \<noteq> RecheckEvmTick ?key"
    by (simp add: arrived_def)
  have s: "sv_evm ?st ?key = Some demo_queue" by (simp add: demo_queued_def)
  from recheck_drops_what_it_read [OF e1 e2 w a s demo_queue_ok(1)] q(2) obtain pushed where
    "left_by_recheck demo_env (evm_items demo_queue @ pushed) [([2], demo_sSOON, 900)]"
    by (auto simp: demo_queued_def)
  with exec_trans [OF e2 e1] q(2) show ?thesis by (intro exI conjI) (assumption | simp)+
qed

section \<open>A record while the server starts\<close>

text \<open>A pair with an EVM chain as its source, and a record of a wrap on that chain.\<close>

definition conf_ETH :: config_token where "conf_ETH = conf_sSOON\<lparr>ct_Symbol := ''ETH''\<rparr>"

definition demo_ETH :: evm_token where "demo_ETH = demo_sSOON\<lparr>ev_symbol := ''ETH''\<rparr>"

definition demo_starting :: server_env where
  "demo_starting = demo_env\<lparr>en_conf := demo_config\<lparr>cf_Tokens := [(''ETH'', conf_ETH\<lparr>ct_Account := replicate 20 8\<rparr>),
     (''sSOON'', conf_sSOON\<lparr>ct_Account := replicate 20 8\<rparr>)]\<rparr>\<rparr>"

definition demo_early :: tx_error_record where
  "demo_early = \<lparr>ter_D = 1, ter_Txid = replicate 32 1, ter_FromCoin = ''ETH'', ter_ToCoin = ''sSOON'',
     ter_Error = None, ter_Type = 0\<rparr>"

lemma demo_starting_simps [simp]: "en_L demo_starting = eth_demo" "en_eth demo_starting t = demo_node (demo_tx []) False"
  "cf_Tokens (en_conf demo_starting) = [(''ETH'', conf_ETH\<lparr>ct_Account := replicate 20 8\<rparr>),
     (''sSOON'', conf_sSOON\<lparr>ct_Account := replicate 20 8\<rparr>)]"
  by (simp_all add: demo_starting_def)

lemma demo_starting_key: "env_key demo_starting ''sSOON'' = Ok (Inr (replicate 20 8, [3]))"
  using demo_key(1) by (simp add: env_key_def GetPrivateKey_def demo_starting_def)

lemma demo_ETH_token: "NewEvmToken eth_demo (demo_node (demo_tx []) False) ''https://json-rpc.evm.shimmer.network''
    ''wss://ws.json-rpc.evm.shimmer.network'' (''0x'' @ hex_encode (replicate 20 9)) ''ETH'' (replicate 20 8) 0 1000 10 = Inr demo_ETH"
  by (simp add: eth_demo_def NewEvmToken_def demo_node_def demo_sSOON_def demo_ETH_def right_bytes_def Let_def)

lemma demo_pair: "\<exists>st. listen_pair demo_starting demo_dial (''ETH'', ''sSOON'') (server_init empty_db) = Ok (st, EvmTok demo_ETH, demo_sSOON)"
  using demo_new_tokens(2) demo_ETH_token
  by (simp add: listen_pair_def conf_ETH_def conf_sSOON_def NewSourceChain_def NewDestinationChain_def demo_dial_def Let_def)

lemma demo_early_checked: "CheckUserTx_src demo_starting (EvmTok demo_ETH) (ter_Txid demo_early) ''sSOON'' 1 =
    Ok (address_Hex eth_demo (BytesToAddress eth_demo (replicate 32 3)), Bytes2Hex eth_demo (replicate 32 4), Some 5)"
  by (simp add: demo_early_def CheckUserTx_evm_def demo_node_def demo_logs_def go_simps big_set_bytes_snoc)

lemma demo_early_sent: "fst (SendWrap_evm eth_demo (demo_node (demo_tx []) False) demo_sSOON
    (hexutil_Encode eth_demo (ter_Txid demo_early)) (Some 5) (Bytes2Hex eth_demo (replicate 32 4)) [3]) = Ok (replicate 32 2)"
  by code_simp

theorem record_during_start_panics_witness:
  "\<exists>n st1 rest. advances (server_init empty_db, [listen_pair_prog demo_starting demo_dial (''ETH'', ''sSOON'') Stop,
       dealTxErrorRecord_prog demo_starting demo_early])
     ([0, 0] @ replicate n 1) (st1, [rest, Crash ''nil pointer dereference'']) \<and>
     sv_trace st1 = [WrapSent (''0x'' @ hex_encode (replicate 32 1)) (Some 5) (Bytes2Hex eth_demo (replicate 32 4))]"
proof -
  obtain st where st: "listen_pair demo_starting demo_dial (''ETH'', ''sSOON'') (server_init empty_db) = Ok (st, EvmTok demo_ETH, demo_sSOON)"
    using demo_pair by blast
  have s: "sv_evm (server_init empty_db) (queue_key (en_L demo_starting) demo_sSOON) = None"
    "\<not> map_Exist (ter_Txid demo_early) (sv_users (server_init empty_db))"
    "hexutil_Encode (en_L demo_starting) (ter_Txid demo_early) \<notin> dom (sv_dealed (server_init empty_db))"
    "sv_trace (server_init empty_db) = []"
    by (simp_all add: server_init_def map_Exist_def NewSentEvmMap_def NewDealedOrdersCheck_def)
  have r: "ter_FromCoin demo_early = ''ETH''" "ter_ToCoin demo_early = ''sSOON''" "ter_D demo_early = 1"
    by (simp_all add: demo_early_def)
  have h: "hexutil_Encode (en_L demo_starting) (ter_Txid demo_early) = ''0x'' @ hex_encode (replicate 32 1)"
    by (simp add: eth_demo_def demo_early_def)
  obtain sent where sent: "SendWrap_evm (en_L demo_starting) (en_eth demo_starting demo_sSOON) demo_sSOON
      (hexutil_Encode (en_L demo_starting) (ter_Txid demo_early)) (Some 5) (Bytes2Hex eth_demo (replicate 32 4)) [3]
      = (Ok (replicate 32 2), sent)"
    using demo_early_sent by (cases "SendWrap_evm eth_demo (demo_node (demo_tx []) False) demo_sSOON
      (hexutil_Encode eth_demo (ter_Txid demo_early)) (Some 5) (Bytes2Hex eth_demo (replicate 32 4)) [3]") auto
  from record_during_start_panics [OF st s(1) r demo_symbol demo_early_checked s(2,3) demo_starting_key sent, of Stop]
  show ?thesis unfolding s(4) h append_Nil by blast
qed

end
