(* ===== verification/Shimmer_Payments.thy ===== *)
theory Shimmer_Payments
  imports Listeners
begin

text \<open>
  Shimmer end to end: what the bridge's address receives is paid on the destination chain
  (\<open>StartWrapListen\<close> of tokens/smr through \<open>listenWrap\<close>), and what that chain has logged as unwraps is
  paid with the server's Shimmer key (\<open>StartUnWrapListen\<close> of tokens/evm through \<open>listenUnWrap\<close>). On the
  way back the order table decides as well: an id that is stored is not paid again.
\<close>

section \<open>Wraps\<close>

text \<open>The order of a message: that of a readable basic output with a positive amount that only the
  bridge's address unlocks. The addresses are those of the metadata or, failing that, of the block's
  tagged data.\<close>

definition shimmer_order :: "eth_lib \<Rightarrow> iota_lib \<Rightarrow> smr_node \<Rightarrow> smr_token \<Rightarrow> output_message \<Rightarrow> swap_order list" where
  "shimmer_order L I N t m = (case m of
      RecOutput (Inr out) blockID index \<Rightarrow>
        if out_basic out \<and> length (out_Conds out) = 1 \<and> conds_address (out_Conds out) = Some (st_address t) \<and>
          0 < smr_amount t out
        then (case wrap_metadata_smr I out of
            Inr w \<Rightarrow> [smr_order t blockID (smr_amount t out) w []]
          | Inl e \<Rightarrow> (case getBlock L I N t blockID of
              Inr (Some w) \<Rightarrow> [smr_order t blockID (smr_amount t out) w (w_Tag w)] | _ \<Rightarrow> []))
        else []
    | _ \<Rightarrow> [])"

interpretation smr_outputs: output_handler "dealNewOutput_smr L I N t" "shimmer_order L I N t"
proof unfold_locales
  fix out blockID index sent err
  assume "dealNewOutput_smr L I N t out blockID index = (sent, err)"
  then show "sent = shimmer_order L I N t (RecOutput (Inr out) blockID index)"
    by (auto simp: dealNewOutput_smr_def shimmer_order_def Let_def split: if_splits sum.splits option.splits)
next
  fix x m
  assume "x \<in> set (shimmer_order L I N t m)"
  then show "so_Error x = None"
    by (auto simp: shimmer_order_def split: output_message.splits if_splits)
      (auto simp: smr_order_def split: sum.splits option.splits)
qed (simp add: shimmer_order_def)

text \<open>C10: what the bridge's Shimmer address has received is paid. On a connection to the node that comes up,
  \<open>listenWrap\<close> pays exactly what the specification says for the wraps among the outputs that the node reports
  until the connection fails, whether an order comes from the metadata or from the block's tagged data.\<close>

theorem received_shimmer_wraps_are_paid:
  assumes connection: "ow_Info N = Inr info" "ow_EventAPI N = Inr ()" "ow_Connect N = None"
      "ow_Subscribe N = Inr ms"
    and server: "\<forall>j. can_pay m (SmrTok t1) t2 st (W j)"
  shows "\<exists>st'. listenWrap W (SmrTok t1) t2 i (StartWrapListen_smr L I node t1 N) st = Ok st' \<and>
    sv_trace st' = sv_trace st @ wrap_payments m (Symbol_evm t2) (dom (sv_dealed st))
      (concat (map (shimmer_order L I node t1) (takeWhile (\<lambda>m. \<not> is_event_error m) ms)))"
proof -
  let ?orders = "StartWrapListen_smr L I node t1 N"
  have orders: "?orders = output_loop (dealNewOutput_smr L I node t1) ms"
    using connection by (simp add: StartWrapListen_smr_def)
  have "list_all goes_on (butlast ?orders)" unfolding orders by (rule smr_outputs.loop_goes_on)
  from payments_valid [OF this] have paid: "wrap_payments m (Symbol_evm t2) (dom (sv_dealed st)) ?orders =
      wrap_payments m (Symbol_evm t2) (dom (sv_dealed st)) (valid_orders ?orders)" .
  have valid: "valid_orders ?orders = concat (map (shimmer_order L I node t1) (takeWhile (\<lambda>m. \<not> is_event_error m) ms))"
    unfolding orders by (rule smr_outputs.loop_orders)
  have "with_amounts ?orders" by (rule orders_with_amounts [OF StartWrapListen_smr_ok])
  from listenWrap_pays [OF server this] show ?thesis unfolding paid valid .
qed

section \<open>The Shimmer key\<close>

text \<open>A page of the indexer has an id for every output.\<close>

definition page_full :: "page \<Rightarrow> bool" where
  "page_full p = (case pg_ids p of Inl e \<Rightarrow> True | Inr ids \<Rightarrow> length (pg_outputs p) \<le> length ids)"

definition pages_full :: "smr_node \<Rightarrow> bool" where
  "pages_full N \<longleftrightarrow> (\<forall>ps. sn_native N = Inr ps \<or> sn_basic N = Inr ps \<longrightarrow> list_all page_full ps)"

lemma select_outputs_safe: "length os \<le> length ids \<Longrightarrow> \<not> is_panic (select_outputs skip stop ids os s)"
proof (induction skip stop ids os s rule: select_outputs.induct)
  case (2 skip stop ids o1 os s)
  then show ?case by (cases ids) (auto simp: go_simps Let_def)
qed simp

lemma select_pages_safe: "list_all page_full ps \<Longrightarrow> \<not> is_panic (select_pages skip stop ps s)"
proof (induction skip stop ps s rule: select_pages.induct)
  case (2 skip stop p ps s)
  show ?case
  proof (cases "pg_ids p")
    case (Inr ids)
    have "\<not> is_panic (select_outputs skip stop ids (pg_outputs p) s)"
      using "2.prems" Inr by (intro select_outputs_safe) (simp add: page_full_def)
    with 2 Inr show ?thesis by (cases "select_outputs skip stop ids (pg_outputs p) s") auto
  qed simp
qed simp

lemma is_panic_obind: "is_panic (obind r f) \<longleftrightarrow> is_panic r \<or> (\<exists>x. r = Ok x \<and> is_panic (f x))"
  by (cases r) auto

lemma native_smr_safe: "pages_full N \<Longrightarrow> \<not> is_panic (getNativeTokenOutputs_smr N t am b)"
  using select_pages_safe
  by (auto simp: getNativeTokenOutputs_smr_def pages_full_def is_panic_obind split: sum.split)

lemma basic_smr_safe: "pages_full N \<Longrightarrow> \<not> is_panic (snd (getBasiceUnSpentOutputs_smr N b))"
proof -
  assume "pages_full N"
  then have "\<not> is_panic (select_pages skip stop ps s)" if "sn_basic N = Inr ps" for skip stop ps s
    using that select_pages_safe by (simp add: pages_full_def)
  then show ?thesis
    by (auto simp: getBasiceUnSpentOutputs_smr_def split: sum.split outcome.split) (metis is_panic.simps(1))
qed

lemma settle_smr_safe:
  assumes "pages_full N"
  shows "\<exists>r. settle_native rent self tid am lt ls (\<lambda>b. Some (getBasiceUnSpentOutputs_smr N b)) b = Some r \<and> \<not> is_panic r"
proof -
  have p: "getBasiceUnSpentOutputs_smr N b \<noteq> (b', Panic p)" for b b' p
    using basic_smr_safe [OF assms, of b] by (cases "getBasiceUnSpentOutputs_smr N b") auto
  show ?thesis by (auto simp: settle_native_def Let_def p split: prod.split outcome.split)
qed

lemma SendUnWrap_smr_safe:
  assumes "pages_full N"
  shows "\<not> is_panic (SendUnWrap_smr I N t txid am to prv)"
proof -
  have send: "\<not> is_panic (case getNativeTokenOutputs_smr N t am b of
        Err e \<Rightarrow> Err (Wrapf ''get native token outputs error. '' e)
      | Panic p \<Rightarrow> Panic p
      | Ok (b, lt, ls) \<Rightarrow> (case settle_native rent self (st_tokenID t) toAm lt ls
            (\<lambda>b. Some (getBasiceUnSpentOutputs_smr N b)) b of
          None \<Rightarrow> Panic ''unreachable''
        | Some r \<Rightarrow> obind r (\<lambda>b. case sn_Build N b ''TpBridge'' signer of
            Inl e \<Rightarrow> Err (Wrapf ''build block error. '' e)
          | Inr block \<Rightarrow> (case sn_Submit N block of
              Inl e \<Rightarrow> Err (Wrapf ''send block to node error. '' e) | Inr bid \<Rightarrow> Ok bid))))"
    for b rent self toAm signer
  proof (cases "getNativeTokenOutputs_smr N t am b")
    case (Ok x)
    obtain b' lt ls where x: "x = (b', lt, ls)" by (cases x)
    obtain r where "settle_native rent self (st_tokenID t) toAm lt ls (\<lambda>b. Some (getBasiceUnSpentOutputs_smr N b)) b' = Some r"
      "\<not> is_panic r" using settle_smr_safe [OF assms] by blast
    with Ok x show ?thesis by (auto simp: is_panic_obind split: sum.splits)
  qed (use native_smr_safe [OF assms, of t am b] in auto)
  show ?thesis
    unfolding SendUnWrap_smr_def Let_def using send by (simp split: sum.split prod.split)
qed

section \<open>Unwraps\<close>

text \<open>What \<open>listenUnWrap\<close> relies on at every order when the token is paid out with the Shimmer key.\<close>

definition can_unwrap_smr :: "int \<Rightarrow> smr_token \<Rightarrow> evm_token \<Rightarrow> server_env \<Rightarrow> bool" where
  "can_unwrap_smr m t1 t2 E \<longleftrightarrow>
     (\<exists>c. map_of (cf_Tokens (en_conf E)) (Symbol_evm t2) = Some c \<and> ct_MinAmount c = Some m) \<and>
     en_store E = None \<and> (\<exists>k. env_key E (Symbol_smr t1) = Ok (Inr k)) \<and> pages_full (en_smr E t1)"

text \<open>The orders that are not paid: handled today, or stored at any time.\<close>

definition known_orders :: "server \<Rightarrow> string set" where
  "known_orders st = dom (sv_dealed st) \<union> stored (sv_db st)"

lemma unwrap_by_key_smr:
  assumes "env_key E (Symbol_smr t) = Ok (Inr k)" and "pages_full (en_smr E t)" and "so_Amount order = Some am"
  shows "unwrap_by_key E (SmrTok t) order st = Ok (traced (UnWrapSent (so_TxID order) (Some am) (so_To order)) st)"
proof -
  obtain addr prv where k: "k = (addr, prv)" by fastforce
  have "\<not> is_panic (SendUnWrap_smr (en_I E) (en_smr E t) t (so_TxID order) am (so_To order) prv)"
    using assms(2) by (rule SendUnWrap_smr_safe)
  then show ?thesis
    using assms k by (auto simp: unwrap_by_key_def Let_def MultiSignType_smr_def CenterSign_def EvmMultiSign_def
        split: outcome.split)
qed

lemma stored_taken:
  assumes "en_store E = None"
  shows "stored (sv_db (taken E order w st)) = insert (so_TxID order) (stored (sv_db st))"
    and "snd (unwrap_row E order st) = None \<longleftrightarrow> so_TxID order \<notin> stored (sv_db st)"
  using assms by (auto simp: StoreSwapOrder_def stored_def order_row_def unwrap_row_def Let_def)

lemma dealUnWrapOrder_smr:
  assumes ready: "can_unwrap_smr m t1 t2 E" and am: "so_Amount order = Some am"
  shows "dealUnWrapOrder E (Some (SmrTok t1)) order st = Some (Ok
     (if so_ToToken order \<noteq> Symbol_smr t1 \<or> so_TxID order \<in> dom (sv_dealed st) then st
      else if so_TxID order \<in> stored (sv_db st) then taken E order (- 1) st
      else traced (UnWrapSent (so_TxID order) (Some am) (so_To order)) (taken E order (- 1) st)))"
proof -
  obtain k where "env_key E (Symbol_smr t1) = Ok (Inr k)" "pages_full (en_smr E t1)" "en_store E = None"
    using ready by (auto simp: can_unwrap_smr_def)
  with am show ?thesis
    using stored_taken(2) [of E order st]
    by (auto simp: dealUnWrapOrder_eq unwrap_allowed_def unwrap_by_key_smr MultiSignType_smr_def CenterSign_def
        EvmMultiSign_def SmpcSign_def)
qed

interpretation shimmer: paying_listener
  "\<lambda>i orders st. Option.bind (listenUnWrap W (SmrTok t1) t2 i orders st) ok_option"
  "\<lambda>i order st. Option.bind (dealUnWrapOrder (W i) (Some (SmrTok t1)) order st) ok_option"
  "\<lambda>st. \<forall>j. can_unwrap_smr m t1 t2 (W j)" known_orders m "Symbol_smr t1" UnWrapSent
proof unfold_locales
  fix i and st :: server and order :: swap_order and orders
  assume ready: "\<forall>j. can_unwrap_smr m t1 t2 (W j)" and am: "so_Error order = None \<longrightarrow> so_Amount order \<noteq> None"
  show "Option.bind (listenUnWrap W (SmrTok t1) t2 i (order # orders) st) ok_option =
      (if so_Error order \<noteq> None then if so_Type order = 0 then Some st
         else Option.bind (listenUnWrap W (SmrTok t1) t2 (i + 1) orders st) ok_option
       else if the (so_Amount order) < m then Option.bind (listenUnWrap W (SmrTok t1) t2 (i + 1) orders st) ok_option
       else Option.bind (Option.bind (dealUnWrapOrder (W i) (Some (SmrTok t1)) order st) ok_option)
         (\<lambda>st. Option.bind (listenUnWrap W (SmrTok t1) t2 (i + 1) orders st) ok_option))"
  proof (cases "so_Error order")
    case None
    with am obtain a where a: "so_Amount order = Some a" by blast
    from ready have "can_unwrap_smr m t1 t2 (W i)" ..
    then have "below_min (en_conf (W i)) (Symbol_evm t2) order = Ok (a < m)"
      using a by (auto simp: can_unwrap_smr_def below_min_ready)
    then show ?thesis using None a
      by (cases "dealUnWrapOrder (W i) (Some (SmrTok t1)) order st"; cases "a < m") (auto split: outcome.split)
  qed simp
next
  fix i and st :: server and order :: swap_order and am
  assume ready: "\<forall>j. can_unwrap_smr m t1 t2 (W j)" and am: "so_Amount order = Some am"
  have store: "en_store (W i) = None" using spec [OF ready, of i] by (simp add: can_unwrap_smr_def)
  note deal = dealUnWrapOrder_smr [OF spec [OF ready, of i] am, of st]
  show "\<exists>st'. Option.bind (dealUnWrapOrder (W i) (Some (SmrTok t1)) order st) ok_option = Some st' \<and>
      (\<forall>j. can_unwrap_smr m t1 t2 (W j)) \<and> known_orders st' = known_orders st \<and> sv_trace st' = sv_trace st"
    if "so_ToToken order \<noteq> Symbol_smr t1 \<or> so_TxID order \<in> known_orders st"
    using that ready deal stored_taken(1) [OF store, of order "- 1" st]
    by (auto simp: known_orders_def simp del: taken_simps(9))
  show "\<exists>st'. Option.bind (dealUnWrapOrder (W i) (Some (SmrTok t1)) order st) ok_option = Some st' \<and>
      (\<forall>j. can_unwrap_smr m t1 t2 (W j)) \<and> known_orders st' = insert (so_TxID order) (known_orders st) \<and>
      sv_trace st' = sv_trace st @ [UnWrapSent (so_TxID order) (Some am) (so_To order)]"
    if "so_ToToken order = Symbol_smr t1" "so_TxID order \<notin> known_orders st"
    using that ready deal stored_taken(1) [OF store, of order "- 1" st]
    by (auto simp: known_orders_def simp del: taken_simps(9))
qed simp

interpretation shimmer: reconnecting_listener
  "\<lambda>i orders st. Option.bind (listenUnWrap W (SmrTok t1) t2 i orders st) ok_option"
  "\<lambda>i order st. Option.bind (dealUnWrapOrder (W i) (Some (SmrTok t1)) order st) ok_option"
  "\<lambda>st. \<forall>j. can_unwrap_smr m t1 t2 (W j)" known_orders m "Symbol_smr t1" UnWrapSent
  "\<lambda>i c st. Option.bind (listenUnWrap_days W (SmrTok t1) t2 i c st) ok_option"
  "\<lambda>i cs st. Option.bind (listenUnWrap_loop W (SmrTok t1) t2 i cs st) ok_option" "\<lambda>st. stored (sv_db st)" True
proof unfold_locales
  fix i and st st' :: server and order :: swap_order and am
  assume ready: "\<forall>j. can_unwrap_smr m t1 t2 (W j)" and am: "so_Amount order = Some am"
    and run: "Option.bind (dealUnWrapOrder (W i) (Some (SmrTok t1)) order st) ok_option = Some st'"
  have store: "en_store (W i) = None" using spec [OF ready, of i] by (simp add: can_unwrap_smr_def)
  note deal = dealUnWrapOrder_smr [OF spec [OF ready, of i] am, of st]
  show "stored (sv_db st') = (if True \<and> so_ToToken order = Symbol_smr t1 \<and> so_TxID order \<notin> known_orders st
      then insert (so_TxID order) (stored (sv_db st)) else stored (sv_db st))"
    using run deal stored_taken(1) [OF store, of order "- 1" st]
    by (auto simp: known_orders_def simp del: taken_simps(9) split: if_splits)
qed (auto simp: known_orders_def split: option.split outcome.split)

lemma listenUnWrap_pays_smr:
  assumes "\<forall>j. can_unwrap_smr m t1 t2 (W j)" and "with_amounts orders"
  shows "\<exists>st'. listenUnWrap W (SmrTok t1) t2 i orders st = Some (Ok st') \<and>
    sv_trace st' = sv_trace st @ unwrap_payments m (Symbol_smr t1) (known_orders st) orders"
  using shimmer.listen_pays [OF assms, where i = i and st = st] by (elim exE conjE) (simp add: bind_eq_Some_conv ok_option_Some)

text \<open>C11: the unwraps that the destination chain has logged are paid in Shimmer. While the scanner of the EVM
  token moves from one height to another against a node that answers from the chain, \<open>listenUnWrap\<close> calls
  \<open>SendUnWrap\<close> of tokens/smr for exactly the orders that the unwrap logs of these blocks decode to, reach the
  minimum, and are neither handled nor stored, once each. This holds while every insert into the order
  table works (an order whose insert fails counts as handled and is not paid), the keystore opens, and the
  pages of Shimmer's indexer hold as many ids as outputs.\<close>

theorem logged_unwraps_are_paid_in_shimmer:
  assumes listener: "ev_ListenType t2 = ScanBlock" "0 < ev_ScanMaxHeight t2" "lw_start lw = Inr h"
      "scan_run (scan_step L t2 (EventUnWrap L)) h (lw_inputs lw) = Ok (orders, h', rs)"
    and node: "list_all height_ok (lw_inputs lw)" "list_all (answers_from blocks t2 (EventUnWrap L)) (lw_inputs lw)"
    and server: "\<forall>j. can_unwrap_smr m t1 t2 (W j)"
  shows "StartUnWrapListen_evm L t2 lw = Ok orders \<and>
    (\<exists>os st'. deal_logs L t2 (chain_logs blocks (unat h) (unat h')) = Ok os \<and>
      listenUnWrap W (SmrTok t1) t2 i orders st = Some (Ok st') \<and>
      sv_trace st' = sv_trace st @ unwrap_payments m (Symbol_smr t1) (known_orders st) os)"
proof -
  obtain os where os: "deal_logs L t2 (chain_logs blocks (unat h) (unat h')) = Ok os" and orders: "with_amounts orders"
      "payments UnWrapSent m (Symbol_smr t1) (known_orders st) orders =
       payments UnWrapSent m (Symbol_smr t1) (known_orders st) os"
    using scanned_payments [OF listener(2,4) node] by metis
  from listenUnWrap_pays_smr [OF server orders(1), of i st]
  have "\<exists>st'. listenUnWrap W (SmrTok t1) t2 i orders st = Some (Ok st') \<and>
      sv_trace st' = sv_trace st @ unwrap_payments m (Symbol_smr t1) (known_orders st) os"
    unfolding orders(2) .
  with os listener(1,3,4) show ?thesis
    by (auto simp: StartUnWrapListen_evm_def start_listen_def scanBlock_def ListenEvent_def ScanBlock_def)
qed

text \<open>C12: on the way back to Shimmer nothing is paid twice at all. Over all connections of \<open>listenUnWrap\<close>, with
  clearings of the handled orders at any points in between, the orders for Shimmer's token that reach the
  minimum are paid in the order of arrival, and none whose id was handled today, was stored before, or has
  been paid since: the rows of the payments outlast every clearing. This holds while the inserts into the
  order table work, the keystore opens, and the pages of the indexer hold an id for every output.\<close>

theorem reconnecting_unwraps_once:
  assumes "\<forall>j. can_unwrap_smr m t1 t2 (W j)"
    and "\<forall>c \<in> set connections. \<forall>order. Delivered order \<in> set c \<longrightarrow> so_Error order = None \<longrightarrow> so_Amount order \<noteq> None"
  shows "\<exists>st'. listenUnWrap_loop W (SmrTok t1) t2 i connections st = Some (Ok st') \<and> sv_trace st' = sv_trace st @
    daily_payments UnWrapSent m (Symbol_smr t1) True (known_orders st) (stored (sv_db st)) (delivered connections)"
proof -
  have "days_amounts connections" using assms(2) by (simp only: days_amounts_def)
  from shimmer.loop_pays [OF assms(1) this, where i = i and st = st] show ?thesis
    by (elim exE conjE) (simp add: bind_eq_Some_conv ok_option_Some)
qed

end
