(* ===== verification/Group_Unwrap.thy ===== *)
theory Group_Unwrap
  imports Server_Tasks
begin

text \<open>
  An unwrap that the signing group pays, from the order to the confirmed row: \<open>dealUnWrapOrder\<close> asks the
  group to sign the transaction it has made, polls until there is a signature, submits the block
  and queues the order; \<open>RecheckIota\<close> finds the block confirmed and writes state and hash.
\<close>

section \<open>Polling\<close>

definition no_signature :: "string list rpc \<Rightarrow> bool" where
  "no_signature r = (case r of Inl e \<Rightarrow> True | Inr rsvs \<Rightarrow> rsvs = [])"

lemma detect_polls_found:
  assumes "\<And>j. j < k \<Longrightarrow> \<exists>r. GetSignStatus (en_S E) (en_polls E (i + j)) keyID = Ok r \<and> no_signature r"
    and "GetSignStatus (en_S E) (en_polls E (i + k)) keyID = Ok (Inr (rsv # rsvs))"
    and "SendSignedTxData_src E t rsv txData = Ok txid"
  shows "k < n \<Longrightarrow> detect_polls E keyID txData t i n = Ok txid"
  using assms
proof (induction k arbitrary: i n)
  case 0
  then show ?case by (cases n) simp_all
next
  case (Suc k)
  then obtain m where n: "n = Suc m" "k < m" by (cases n) auto
  obtain r where r: "GetSignStatus (en_S E) (en_polls E i) keyID = Ok r" "no_signature r"
    using Suc.prems(2) [of 0] by auto
  have "detect_polls E keyID txData t (i + 1) m = Ok txid"
  proof (rule Suc.IH [OF n(2)])
    show "\<exists>r. GetSignStatus (en_S E) (en_polls E (i + 1 + j)) keyID = Ok r \<and> no_signature r" if "j < k" for j
      using Suc.prems(2) [of "Suc j"] that by simp
  qed (use Suc.prems in simp_all)
  then show ?case using n r by (auto simp: no_signature_def split: sum.splits list.splits)
qed

section \<open>The order\<close>

text \<open>The request for the signature of a transaction.\<close>

definition group_request :: "server_env \<Rightarrow> source_token \<Rightarrow> db_order \<Rightarrow> bytes \<Rightarrow> bytes \<Rightarrow> bytes
    \<Rightarrow> string outcome \<times> call_log" where
  "group_request E t1 wo hash txData prv =
     (let smpc = cf_Smpc (en_conf E);
          msContext = en_ctx_Marshal E \<lparr>mc_SrcToken = wo_SrcToken wo, mc_DestToken = wo_DestToken wo,
            mc_Method = UnwrapMethod, mc_TxData = txData, mc_Timestamp = word_of_int (en_now E)\<rparr>
      in Sign (en_L E) (en_S E) (en_smpc E) (en_now_ms E) (Bytes2Hex (en_L E) (PublicKey_src t1)) (sc_Gid smpc)
           msContext (hexutil_Encode (en_L E) hash) (sc_ThresHold smpc) (KeyType_src t1) prv)"

lemma unwrap_by_group_sent:
  assumes "CreateUnWrapTxData_src E t1 (so_To order) (so_Amount order) (FromHex (en_L E) (wo_TxID wo)) =
      Some (Ok (hash, txData))"
    and "env_key E ''smpc'' = Ok (Inr (addr, prv))"
    and "group_request E t1 wo hash txData prv = (Ok keyID, calls)"
    and "detectSignStatus E keyID txData t1 = Ok (Some txid)"
  shows "unwrap_by_group E t1 order wo st = Some (Ok ((traced (SignAsked (so_TxID order) calls) st)
    \<lparr>sv_iota := iota_push (wo\<lparr>wo_Hash := hex_encode txid\<rparr>) t1 (sv_iota st)\<rparr>))"
  using assms by (simp add: unwrap_by_group_def group_request_def Let_def)

lemma stored_row:
  assumes "en_store E = None" and "so_TxID order \<notin> stored (sv_db st)"
  shows "snd (unwrap_row E order st) = None" and "wo_TxID (fst (unwrap_row E order st)) = so_TxID order"
    and "\<exists>r \<in> set (tbl_swap (sv_db (taken E order (- 1) st))). wo_TxID r = so_TxID order"
  using assms by (auto simp: StoreSwapOrder_def stored_def order_row_def unwrap_row_def Let_def)

definition no_faults :: tx_faults where
  "no_faults = \<lparr>f_begin = None, f_delete = None, f_insert = None, f_commit = None\<rparr>"

text \<open>A turn of \<open>RecheckIota\<close> that finds the only queued transaction confirmed.\<close>

lemma recheck_confirms:
  assumes "iota_ok (sv_iota st)" and "iota_items (sv_iota st) = [(wo, t)]" and "wo_Hash wo = hex_encode txid"
    and "CheckSentTx_src E t txid = (True, None)"
    and "\<exists>r \<in> set (tbl_swap (sv_db st)). wo_TxID r = wo_TxID wo"
  shows "\<exists>st'. recheck_iota_turn E None f st = Ok st' \<and> sv_trace st' = sv_trace st \<and>
    (\<exists>r \<in> set (tbl_swap (sv_db st')). wo_TxID r = wo_TxID wo \<and> wo_Hash r = hex_encode txid \<and> wo_State r = 1)"
proof -
  obtain r where r: "r \<in> set (tbl_swap (sv_db st))" "wo_TxID r = wo_TxID wo" using assms(5) by blast
  obtain q where q: "iota_pop (sv_iota st) = Ok (q, Some (wo, t))" "iota_items q = []"
    using iota_pop_ok [OF assms(1)] assms(2) by auto
  then show ?thesis using assms(3,4) r
    by (auto simp: recheck_iota_turn_def Let_def UpdateChainRecord_def
        intro!: bexI [of _ "r\<lparr>wo_Hash := hex_encode txid, wo_State := 1\<rparr>"])
qed

section \<open>Property\<close>

text \<open>C13: an unwrap that the group pays comes to its end. The order is a new one, no account of the group
  is reported overdue, no sent transaction waits for its recheck, no call of the database fails, and the
  order's transaction can be made; the group answers a poll with a signature after fewer than
  \<open>DetectCount\<close> polls without one, and the node takes the block and later reports it confirmed. Then
  \<open>dealUnWrapOrder\<close> asks for exactly one signature, and the next turn of \<open>RecheckIota\<close> writes the block's id
  and the state 1 into the order's row.\<close>

theorem group_unwrap_completes:
  assumes order: "unwrap_allowed E (IotaTok t) order st" "so_TxID order \<notin> stored (sv_db st)" "en_store E = None"
    and queue: "iota_ok (sv_iota st)" "iota_items (sv_iota st) = []"
    and made: "CreateUnWrapTxData_src E (IotaTok t) (so_To order) (so_Amount order) (FromHex (en_L E) (so_TxID order)) =
      Some (Ok (hash, txData))"
    and asked: "env_key E ''smpc'' = Ok (Inr (addr, prv))"
      "group_request E (IotaTok t) (fst (unwrap_row E order st)) hash txData prv = (Ok keyID, calls)"
    and signed: "k < nat (vc_DetectCount (cf_Server (en_conf E)))"
      "\<forall>j < k. \<exists>r. GetSignStatus (en_S E) (en_polls E j) keyID = Ok r \<and> no_signature r"
      "GetSignStatus (en_S E) (en_polls E k) keyID = Ok (Inr (rsv # rsvs))"
      "SendSignedTxData_src E (IotaTok t) rsv txData = Ok (Some txid)"
    and confirmed: "CheckSentTx_iota (en_iota E' t) txid = (True, None)"
  shows "\<exists>st1 st2. dealUnWrapOrder E (Some (IotaTok t)) order st = Some (Ok st1) \<and>
    sv_trace st1 = sv_trace st @ [SignAsked (so_TxID order) calls] \<and>
    recheck_iota_turn E' None no_faults st1 = Ok st2 \<and> sv_trace st2 = sv_trace st1 \<and>
    (\<exists>r \<in> set (tbl_swap (sv_db st2)). wo_TxID r = so_TxID order \<and> wo_Hash r = hex_encode txid \<and> wo_State r = 1)"
proof -
  let ?wo = "fst (unwrap_row E order st)"
  let ?st = "taken E order (- 1) st"
  note row = stored_row [OF order(3,2)]
  have "detectSignStatus E keyID txData (IotaTok t) = Ok (Some txid)"
    unfolding detectSignStatus_def
    using detect_polls_found [of k E 0 keyID rsv rsvs "IotaTok t" txData "Some txid"] signed by simp
  with unwrap_by_group_sent [OF _ asked] made row(2)
  have sent: "unwrap_by_group E (IotaTok t) order ?wo ?st = Some (Ok ((traced (SignAsked (so_TxID order) calls) ?st)
      \<lparr>sv_iota := iota_push (?wo\<lparr>wo_Hash := hex_encode txid\<rparr>) (IotaTok t) (sv_iota st)\<rparr>))" by simp
  let ?st1 = "(traced (SignAsked (so_TxID order) calls) ?st)
      \<lparr>sv_iota := iota_push (?wo\<lparr>wo_Hash := hex_encode txid\<rparr>) (IotaTok t) (sv_iota st)\<rparr>"
  have deal: "dealUnWrapOrder E (Some (IotaTok t)) order st = Some (Ok ?st1)"
    using order(1) row(1) sent by (simp add: dealUnWrapOrder_eq MultiSignType_iota_def)
  have q: "iota_ok (sv_iota ?st1)" "iota_items (sv_iota ?st1) = [(?wo\<lparr>wo_Hash := hex_encode txid\<rparr>, IotaTok t)]"
    using queue by (auto simp: iota_items_def iota_ok_def iota_push_def)
  obtain st2 where turn: "recheck_iota_turn E' None no_faults ?st1 = Ok st2" "sv_trace st2 = sv_trace ?st1"
    "\<exists>r \<in> set (tbl_swap (sv_db st2)). wo_TxID r = so_TxID order \<and> wo_Hash r = hex_encode txid \<and> wo_State r = 1"
    using recheck_confirms [OF q, of txid E' no_faults] confirmed row(2,3) by auto
  with deal show ?thesis by (intro exI [of _ ?st1] exI [of _ st2]) simp
qed

end
