(* ===== verification/Listener_Runs.thy ===== *)
theory Listener_Runs
  imports Server_Props
begin

text \<open>
  The loops of the listeners and the loop over the records of the error contract as parts of the process:
  what they do is a run, so that the properties of runs hold of them. And what the loop over the
  records does with one that cannot be decoded.
\<close>

lemma run_trans: "run st' fs st'' \<Longrightarrow> run st es st' \<Longrightarrow> run st (es @ fs) st''"
proof (induction rule: run.induct)
  case (run_step st' fs st1 E e st2)
  then have "run st ((es @ fs) @ [(E, e)]) st2" by (intro run.run_step) auto
  then show ?case by simp
qed simp

lemma run_one: "step E e st st' \<Longrightarrow> run st [(E, e)] st'"
  using run_step [OF run_start] by fastforce

text \<open>Events that are orders, records or clearings of the handled orders.\<close>

definition only_orders :: "(server_env \<times> event) list \<Rightarrow> bool" where
  "only_orders es \<longleftrightarrow> list_all (\<lambda>(E, e). case e of
     Wrapped t2 order \<Rightarrow> so_Error order = None | UnWrapped t1 order \<Rightarrow> so_Error order = None
   | ErrorRecord r \<Rightarrow> ter_Error r = None | DailyResetTick \<Rightarrow> True | _ \<Rightarrow> False) es"

definition orders_run :: "server \<Rightarrow> server \<Rightarrow> bool" where
  "orders_run st st' \<longleftrightarrow> (\<exists>es. run st es st' \<and> only_orders es)"

lemma orders_run_refl: "orders_run st st"
  unfolding orders_run_def using run_start [of st] by (intro exI [of _ "[]"]) (simp add: only_orders_def)

lemma orders_run_trans: "orders_run a b \<Longrightarrow> orders_run b c \<Longrightarrow> orders_run a c"
  unfolding orders_run_def using run_trans by (elim exE conjE) (rule exI, rule conjI, assumption, simp add: only_orders_def)

lemma orders_run_step: "step E e st st1 \<Longrightarrow> only_orders [(E, e)] \<Longrightarrow> orders_run st1 st' \<Longrightarrow> orders_run st st'"
  using orders_run_trans run_one unfolding orders_run_def by blast

lemma listenWrap_run: "listenWrap W t1 t2 i orders st = Ok st' \<Longrightarrow> orders_run st st'"
proof (induction W t1 t2 i orders st rule: listenWrap.induct)
  case (2 W t1 t2 i order orders st)
  show ?case
  proof (cases "so_Error order")
    case None
    with "2.prems" obtain small where small: "below_min (en_conf (W i)) (Symbol_src t1) order = Ok small"
      by (auto simp: obind_Ok_conv)
    show ?thesis
    proof (cases small)
      case False
      then obtain st1 where one: "dealWrapOrder (W i) (Some t2) order st = Ok st1"
        and rest: "listenWrap W t1 t2 (i + 1) orders st1 = Ok st'"
        using "2.prems" None small by (auto simp: obind_Ok_conv)
      have "orders_run st1 st'" using "2.IH"(3) [of small st1] None small False one rest by simp
      with None show ?thesis by (intro orders_run_step [OF wrapped [OF one]]) (simp_all add: only_orders_def)
    qed (use 2 None small in simp)
  qed (use 2 orders_run_refl in \<open>simp split: if_splits\<close>)
qed (simp add: orders_run_refl)

lemma listenUnWrap_run: "listenUnWrap W t1 t2 i orders st = Some (Ok st') \<Longrightarrow> orders_run st st'"
proof (induction W t1 t2 i orders st rule: listenUnWrap.induct)
  case (2 W t1 t2 i order orders st)
  show ?case
  proof (cases "so_Error order")
    case None
    with "2.prems" obtain small where small: "below_min (en_conf (W i)) (Symbol_evm t2) order = Ok small"
      by (auto split: outcome.splits)
    show ?thesis
    proof (cases small)
      case False
      then obtain st1 where one: "dealUnWrapOrder (W i) (Some t1) order st = Some (Ok st1)"
        and rest: "listenUnWrap W t1 t2 (i + 1) orders st1 = Some (Ok st')"
        using "2.prems" None small by (auto split: option.splits outcome.splits)
      have "orders_run st1 st'" using "2.IH"(3) [of small "Ok st1" st1] None small False one rest by simp
      with None show ?thesis by (intro orders_run_step [OF unwrapped [OF one]]) (simp_all add: only_orders_def)
    qed (use 2 None small in simp)
  qed (use 2 orders_run_refl in \<open>simp split: if_splits\<close>)
qed (simp add: orders_run_refl)

lemma next_day_run: "orders_run (next_day st) st' \<Longrightarrow> orders_run st st'"
  by (rule orders_run_step [OF reset_tick]) (simp_all add: only_orders_def next_day_def)

lemma listenWrap_days_run: "listenWrap_days W t1 t2 i c st = Ok (st', lost) \<Longrightarrow> orders_run st st'"
proof (induction W t1 t2 i c st rule: listenWrap_days.induct)
  case (2 W t1 t2 i as st)
  then show ?case using next_day_run by simp
next
  case (3 W t1 t2 i order as st)
  then obtain st1 where one: "listenWrap W t1 t2 i [order] st = Ok st1"
    and rest: "(if goes_on order then listenWrap_days W t1 t2 (i + 1) as st1 else Ok (st1, True)) = Ok (st', lost)"
    by (auto simp: obind_Ok_conv simp del: listenWrap.simps)
  show ?case using "3.IH" rest orders_run_trans [OF listenWrap_run [OF one]] orders_run_refl
    by (cases "goes_on order") auto
qed (simp add: orders_run_refl)

lemma listenUnWrap_days_run: "listenUnWrap_days W t1 t2 i c st = Some (Ok (st', lost)) \<Longrightarrow> orders_run st st'"
proof (induction W t1 t2 i c st rule: listenUnWrap_days.induct)
  case (2 W t1 t2 i as st)
  then show ?case using next_day_run by simp
next
  case (3 W t1 t2 i order as st)
  then obtain st1 where one: "listenUnWrap W t1 t2 i [order] st = Some (Ok st1)"
    and rest: "(if goes_on order then listenUnWrap_days W t1 t2 (i + 1) as st1 else Some (Ok (st1, True))) = Some (Ok (st', lost))"
    by (auto split: option.splits outcome.splits simp del: listenUnWrap.simps)
  show ?case using "3.IH" one rest orders_run_trans [OF listenUnWrap_run [OF one]] orders_run_refl
    by (cases "goes_on order") auto
qed (simp add: orders_run_refl)

lemma listenWrap_loop_run: "listenWrap_loop W t1 t2 i cs st = Ok st' \<Longrightarrow> orders_run st st'"
proof (induction W t1 t2 i cs st rule: listenWrap_loop.induct)
  case (2 W t1 t2 i c cs st)
  then show ?case
    by (auto simp: obind_Ok_conv split: if_splits intro: listenWrap_days_run orders_run_trans [OF listenWrap_days_run])
qed (simp add: orders_run_refl)

lemma listenUnWrap_loop_run: "listenUnWrap_loop W t1 t2 i cs st = Some (Ok st') \<Longrightarrow> orders_run st st'"
proof (induction W t1 t2 i cs st rule: listenUnWrap_loop.induct)
  case (2 W t1 t2 i c cs st)
  then obtain st1 lost where one: "listenUnWrap_days W t1 t2 i c st = Some (Ok (st1, lost))"
    and rest: "(if lost then listenUnWrap_loop W t1 t2 (i + length c) cs st1 else Some (Ok st1)) = Some (Ok st')"
    by (auto split: option.splits outcome.splits)
  show ?case using "2.IH" one rest listenUnWrap_days_run [OF one] orders_run_trans [OF listenUnWrap_days_run [OF one]]
    by (cases lost) auto
qed (simp add: orders_run_refl)

lemma records_run: "listen_error_records W i records st = Some (Ok st') \<Longrightarrow> orders_run st st'"
proof (induction W i records st rule: listen_error_records.induct)
  case (2 W i r rs st)
  show ?case
  proof (cases "ter_Error r")
    case None
    then obtain st1 where one: "dealTxErrorRecord (W i) r st = Some (Ok st1)"
      and rest: "listen_error_records W (i + 1) rs st1 = Some (Ok st')"
      using "2.prems" by (auto split: option.splits outcome.splits)
    have "orders_run st1 st'" using "2.IH"(2) [of "Ok st1" st1] None one rest by auto
    with None show ?thesis by (intro orders_run_step [OF error_record [OF one]]) (simp_all add: only_orders_def)
  qed (use 2 orders_run_refl in \<open>simp split: if_splits\<close>)
qed (simp add: orders_run_refl)

lemma error_record_loop_run: "error_record_loop W c i ws st = Some (Ok st') \<Longrightarrow> orders_run st st'"
proof (induction W c i ws st rule: error_record_loop.induct)
  case (2 W c i w ws st)
  then show ?case
    by (auto split: if_splits option.splits outcome.splits intro: records_run orders_run_trans [OF records_run])
qed (simp add: orders_run_refl)

text \<open>The loops of the listeners and of the error records are part of the process: whatever connections they
  get, the changes that \<open>listenWrap\<close>, \<open>listenUnWrap\<close> and \<open>ListenTxErrorRecord\<close> make to the state are a run
  of orders and records, so that the invariants of runs hold of them.\<close>

theorem listeners_are_runs:
  assumes "listenWrap_loop W t1 t2 0 connections st = Ok st' \<or>
    listenUnWrap_loop W t1 t2 0 connections st = Some (Ok st') \<or>
    ListenTxErrorRecord W dial networkID ws st = Some (Ok st')"
  shows "\<exists>es. run st es st' \<and> only_orders es"
  using assms listenWrap_loop_run listenUnWrap_loop_run error_record_loop_run
  unfolding orders_run_def ListenTxErrorRecord_def Let_def by (fastforce split: sum.splits)

lemma listen_stops: "listen_error_records W i (error_record 0 e # rs) st = Some (Ok st)"
  by (simp add: error_record_def)

text \<open>C37: a record that cannot be decoded loses the ones after it. When the contract's first log has
  data of another length than 96, the decoder's error has type 0, as a lost connection has. The server
  leaves the connection and handles none of the records that the scanner still has to send.\<close>

theorem malformed_record_drops_rest:
  assumes "te_ListenType c = ScanBlock" and "lw_start w = Inr h" and "lw_inputs w = inp # inps"
    and "scan_run (scan_step_txerr (en_L (W i)) c) h (inp # inps) = Ok (ms, h', rs)"
    and "si_BlockNumber inp = Inr n" and "h \<le> n"
    and "si_FilterLogs inp (txerr_query (en_L (W i)) c (Some h) (Some n)) = Inr (bad # logs)"
    and "\<not> lg_Removed bad" and "lg_Topics bad = EventWrapFailed (en_L (W i)) # topics" and "length (lg_Data bad) \<noteq> 96"
    and "EventWrapFailed (en_L (W i)) \<noteq> EventUnWrapFailed (en_L (W i))"
  shows "error_record_loop W c i [w] st = Some (Ok st)"
proof -
  let ?L = "en_L (W i)"
  obtain ms1 h1 rs1 ms2 rs2 where st: "scan_step_txerr ?L c h inp = Ok (ms1, h1, rs1)" and ms: "ms = ms1 @ ms2"
    using assms(4) by (rule scan_run_Cons)
  from st assms(5-7) obtain recs where recs: "deal_records ?L (bad # logs) = Ok recs" "ms1 = recs"
    by (auto simp: scan_step_txerr_def not_less obind_Ok_conv split: if_splits)
  have "deal_record ?L bad = Ok [error_record 0 (Errorf ''error order record event data is error. '')]"
    using assms(8-11) by (simp add: deal_record_def dealFailedEvent_def go_simps)
  then obtain ms' where "ms = error_record 0 (Errorf ''error order record event data is error. '') # ms'"
    using recs ms by (auto simp: obind_Ok_conv)
  moreover have "StartListen ?L c w = Ok ms"
    using assms(1-4) by (simp add: StartListen_def scanBlock_txerr_def ScanBlock_def ListenEvent_def)
  ultimately show ?thesis by (simp add: listen_stops)
qed

section \<open>The periodic tasks\<close>

lemma accept_ticks_run: "accept_ticks ticks st = Ok st' \<Longrightarrow>
    \<exists>n \<le> length ticks. run st (map (\<lambda>(E, fault). (E, AcceptTick fault)) (take n ticks)) st'"
proof (induction ticks st rule: accept_ticks.induct)
  case (2 E fault ticks st)
  then obtain st1 nxt where one: "accept_turn E fault st = Ok (st1, nxt)"
    and rest: "(case nxt of Quit \<Rightarrow> Ok st1 | GoOn \<Rightarrow> accept_ticks ticks st1) = Ok st'"
    by (auto simp: obind_Ok_conv)
  note r = run_one [OF accept_tick [OF one]]
  show ?case
  proof (cases nxt)
    case GoOn
    with "2.IH" rest obtain n where
      "n \<le> length ticks" "run st1 (map (\<lambda>(E, fault). (E, AcceptTick fault)) (take n ticks)) st'" by auto
    with run_trans [OF this(2) r] show ?thesis by (intro exI [of _ "Suc n"]) simp
  next
    case Quit
    with r rest show ?thesis by (intro exI [of _ 1]) simp
  qed
qed (auto intro: run_start)

lemma RecheckIota_run: "RecheckIota ticks st = Ok st' \<Longrightarrow>
    run st (map (\<lambda>(E, fault, f). (E, RecheckIotaTick fault f)) ticks) st'"
proof (induction ticks st rule: RecheckIota.induct)
  case (2 E fault f ticks st)
  then obtain st1 where one: "recheck_iota_turn E fault f st = Ok st1" and rest: "RecheckIota ticks st1 = Ok st'"
    by (auto simp: obind_Ok_conv)
  from run_trans [OF "2.IH" [OF rest] run_one [OF iota_tick [OF one]]] show ?case by simp
qed (simp add: run_start)

text \<open>A validator without its keystore stops accepting for good.\<close>

theorem accept_stops_for_good:
  assumes "GetCurNodeSignInfo (en_S E) (en_smpc E) = Ok (Inr (d # ds))" and "accept_checks E d st1 = Ok ()"
    and "st1 = st\<lparr>sv_db := fst (UpdateAccountState fault (sc_Account (cf_Smpc (en_conf E))) (en_now E) (sv_db st))\<rparr>"
    and "\<not> sv_accepted st (sg_Key d)" and "env_key E ''smpc'' = Ok (Inl e)"
  shows "accept_ticks ((E, fault) # ticks) st = Ok (st1\<lparr>sv_accepted := (sv_accepted st)(sg_Key d := True)\<rparr>)"
proof -
  have "accept_info E d st1 = Ok (st1\<lparr>sv_accepted := (sv_accepted st)(sg_Key d := True)\<rparr>, Quit)"
    using assms by (simp add: accept_info_def claim_key_def)
  then show ?thesis using assms(1,3) by (auto simp: accept_turn_def split: prod.split)
qed

end
