(* ===== verification/Payments_Demo.thy ===== *)
theory Payments_Demo
  imports Server_Demo Shimmer_Payments Group_Unwrap Listener_Runs
begin

text \<open>Concrete payments in the world of \<open>Server_Demo\<close>: Shimmer both ways, the signing group, and the loops.\<close>

section \<open>Shimmer\<close>

definition demo_shimmer_output :: iota_output where
  "demo_shimmer_output = basic_output 50 [(copy_bytes 38 [4], 60)] (Ed25519Address (replicate 32 5)) (Some [1]) None"

definition demo_received_messages :: "output_message list" where
  "demo_received_messages = [RecOutput (Inr demo_shimmer_output) ''b1'' 0, RecOutput (Inl (Errorf ''bech32'')) ''b2'' 0,
     RecOutput (Inr demo_shimmer_output) ''b1'' 1, EventError (Errorf ''closed'')]"

definition demo_connection :: output_world where
  "demo_connection = \<lparr>ow_Info = Inr \<lparr>pp_NetworkID = 1, pp_VByteCost = 3\<rparr>, ow_EventAPI = Inr (), ow_Connect = None,
     ow_Subscribe = Inr demo_received_messages\<rparr>"

lemma demo_shimmer_order: "shimmer_order eth_demo demo_received demo_soon_node demo_SOON (RecOutput (Inr demo_shimmer_output) ''b1'' n) =
    [\<lparr>so_TxID = ''b1'', so_FromToken = ''SOON'', so_ToToken = ''sSOON'', so_From = ''from'', so_To = ''to'',
      so_Amount = Some 60, so_Org = [], so_Error = None, so_Type = 0\<rparr>]"
  by (simp add: shimmer_order_def demo_shimmer_output_def demo_SOON_def smr_amount_def wrap_metadata_smr_def
      demo_received_def smr_order_def)

theorem received_shimmer_wraps_are_paid_witness:
  "\<exists>st. listenWrap (\<lambda>i. demo_env) (SmrTok demo_SOON) demo_sSOON 0
       (StartWrapListen_smr eth_demo demo_received demo_soon_node demo_SOON demo_connection) demo_server = Ok st \<and>
     sv_trace st = [WrapSent ''b1'' (Some 60) ''to'']"
proof -
  have server: "\<forall>j :: nat. can_pay 1 (SmrTok demo_SOON) demo_sSOON demo_server demo_env"
    by (intro allI demo_can_pay) (simp add: Symbol_smr_def demo_SOON_def)
  have c: "ow_Info demo_connection = Inr \<lparr>pp_NetworkID = 1, pp_VByteCost = 3\<rparr>" "ow_EventAPI demo_connection = Inr ()"
    "ow_Connect demo_connection = None" "ow_Subscribe demo_connection = Inr demo_received_messages"
    by (simp_all add: demo_connection_def)
  have b: "shimmer_order L I N t (RecOutput (Inl e) b n) = []" for L I N t e b n
    by (simp add: shimmer_order_def)
  from received_shimmer_wraps_are_paid [OF c server, of 0 eth_demo demo_received demo_soon_node]
  show ?thesis by (simp add: demo_received_messages_def demo_shimmer_order b is_event_error_def demo_symbol)
qed

lemma demo_can_unwrap_smr: "Symbol_evm t = ''SOON'' \<Longrightarrow> can_unwrap_smr 1 demo_SOON t demo_env"
proof -
  assume t: "Symbol_evm t = ''SOON''"
  have n: "en_smr demo_env t = demo_soon_node" for t by (simp add: demo_env_def)
  have "pages_full demo_soon_node"
    by (auto simp: pages_full_def demo_soon_node_def demo_smr_node_def page_full_def)
  then show ?thesis
    using t n demo_key(3) by (simp add: can_unwrap_smr_def demo_config_tokens conf_SOON_def Symbol_smr_def demo_SOON_def)
qed

theorem logged_unwraps_are_paid_in_shimmer_witness:
  "\<exists>orders st. StartUnWrapListen_evm eth_demo demo_source (demo_scan (EventUnWrap eth_demo)) = Ok orders \<and>
     listenUnWrap (\<lambda>i. demo_env) (SmrTok demo_SOON) demo_source 0 orders demo_server = Some (Ok st)"
proof -
  have server: "\<forall>j :: nat. can_unwrap_smr 1 demo_SOON demo_source demo_env"
    by (intro allI demo_can_unwrap_smr) (simp add: Symbol_evm_def demo_source_def)
  let ?lw = "demo_scan (EventUnWrap eth_demo)"
  have lw: "lw_start ?lw = Inr 15" "scan_run (scan_step eth_demo demo_source (EventUnWrap eth_demo)) 15 (lw_inputs ?lw) =
      Ok ([error_order 1 (Wrapf ''BlockNumber error. '' (Errorf ''eof'')),
        demo_logged (Bytes2Hex eth_demo (replicate 32 4))], 23, [(15, 17), (18, 22)])"
    "list_all height_ok (lw_inputs ?lw)"
    "list_all (answers_from (demo_chain (EventUnWrap eth_demo)) demo_source (EventUnWrap eth_demo)) (lw_inputs ?lw)"
    using demo_watch_run demo_watch_ok by simp_all
  from logged_unwraps_are_paid_in_shimmer [OF demo_source_scans lw server, of 0 demo_server] show ?thesis by blast
qed

section \<open>Connections\<close>

text \<open>The first connection is lost after an order, which the second delivers again with another one, and
  once more on the next day.\<close>

definition demo_connections :: "arrival list list" where
  "demo_connections = [[Delivered demo_wrap, Delivered (error_order 0 (Errorf ''lost'')), Delivered (demo_wrap\<lparr>so_TxID := ''0x04''\<rparr>)],
     [Delivered demo_wrap, Delivered (demo_wrap\<lparr>so_TxID := ''0x03''\<rparr>), NextDay, Delivered demo_wrap]]"

lemma demo_pays: "\<forall>j :: nat. can_pay 1 (SmrTok demo_SOON) demo_sSOON demo_server demo_env"
  by (intro allI demo_can_pay) (simp add: Symbol_smr_def demo_SOON_def)

lemma demo_connections_ok: "\<forall>c \<in> set demo_connections. \<forall>order. Delivered order \<in> set c \<longrightarrow>
    so_Error order = None \<longrightarrow> so_Amount order \<noteq> None"
  by (auto simp: demo_connections_def demo_wrap_def error_order_def)

lemma demo_delivered: "delivered demo_connections = [Delivered demo_wrap, Delivered demo_wrap,
    Delivered (demo_wrap\<lparr>so_TxID := ''0x03''\<rparr>), NextDay, Delivered demo_wrap]"
  by (simp add: demo_connections_def demo_wrap_def error_order_def goes_on_def)

theorem reconnecting_pays_once_witness:
  "\<exists>st. listenWrap_loop (\<lambda>i. demo_env) (SmrTok demo_SOON) demo_sSOON 0 demo_connections demo_server = Ok st \<and>
     sv_trace st = [WrapSent ''0x01'' (Some 5) (''0x'' @ hex_encode (replicate 20 2)),
       WrapSent ''0x03'' (Some 5) (''0x'' @ hex_encode (replicate 20 2)),
       WrapSent ''0x01'' (Some 5) (''0x'' @ hex_encode (replicate 20 2))]"
  using reconnecting_pays_once [OF demo_pays demo_connections_ok, of 0]
  by (simp add: demo_delivered demo_wrap_def demo_symbol)

text \<open>Back to Shimmer, the order that comes again on the next day is in the database.\<close>

definition demo_back :: swap_order where
  "demo_back = demo_wrap\<lparr>so_ToToken := ''SOON''\<rparr>"

lemma demo_pays_back: "\<forall>j :: nat. can_unwrap_smr 1 demo_SOON demo_source demo_env"
  by (intro allI demo_can_unwrap_smr) (simp add: Symbol_evm_def demo_source_def)

lemma demo_paid_back: "sv_trace demo_server @ daily_payments UnWrapSent 1 (Symbol_smr demo_SOON) True (known_orders demo_server)
    (stored (sv_db demo_server)) (delivered [[Delivered demo_back, NextDay, Delivered demo_back]]) =
    [UnWrapSent ''0x01'' (Some 5) (''0x'' @ hex_encode (replicate 20 2))]"
  by (simp add: demo_back_def demo_wrap_def goes_on_def Symbol_smr_def demo_SOON_def known_orders_def stored_def empty_db_def)

theorem reconnecting_unwraps_once_witness:
  "\<exists>st. listenUnWrap_loop (\<lambda>i. demo_env) (SmrTok demo_SOON) demo_source 0 [[Delivered demo_back, NextDay, Delivered demo_back]]
       demo_server = Some (Ok st) \<and>
     sv_trace st = [UnWrapSent ''0x01'' (Some 5) (''0x'' @ hex_encode (replicate 20 2))]"
proof -
  have "\<forall>c \<in> set [[Delivered demo_back, NextDay, Delivered demo_back]]. \<forall>order. Delivered order \<in> set c \<longrightarrow>
      so_Error order = None \<longrightarrow> so_Amount order \<noteq> None"
    by (auto simp: demo_back_def demo_wrap_def)
  from reconnecting_unwraps_once [OF demo_pays_back this, of 0 demo_server] show ?thesis
    unfolding demo_paid_back .
qed

section \<open>A record that cannot be decoded\<close>

definition demo_bad_log :: eth_log where
  "demo_bad_log = (demo_log (EventWrapFailed eth_demo))\<lparr>lg_Data := [1]\<rparr>"

definition demo_records :: listen_world where
  "demo_records = \<lparr>lw_start = Inr 15, lw_inputs = [\<lparr>si_BlockNumber = Inr 20, si_FilterLogs = (\<lambda>q.
      Inr [demo_bad_log, (demo_log (EventWrapFailed eth_demo))\<lparr>lg_Data := replicate 96 0\<rparr>])\<rparr>],
     lw_dial = Inr (), lw_subscribe = (\<lambda>q. Inr [])\<rparr>"

theorem malformed_record_drops_rest_witness:
  "error_record_loop (\<lambda>i. demo_env) (demo_contract\<lparr>te_ListenType := ScanBlock\<rparr>) 0 [demo_records] demo_server =
     Some (Ok demo_server)"
proof -
  let ?c = "demo_contract\<lparr>te_ListenType := ScanBlock\<rparr>"
  let ?inp = "hd (lw_inputs demo_records)"
  have "case scan_run (scan_step_txerr eth_demo ?c) 15 [?inp] of Ok (ms, h, rs) \<Rightarrow> h = 21 \<and> rs = [(15, 20)]
      | Err e \<Rightarrow> False | Panic p \<Rightarrow> False"
    by code_simp
  then obtain ms where r: "scan_run (scan_step_txerr (en_L demo_env) ?c) 15 [?inp] = Ok (ms, 21, [(15, 20)])"
    by (auto split: outcome.splits)
  have e: "EventWrapFailed eth_demo \<noteq> EventUnWrapFailed eth_demo" by code_simp
  show ?thesis
    using malformed_record_drops_rest [of ?c demo_records 15 ?inp "[]" "\<lambda>i. demo_env" 0 ms 21 "[(15, 20)]" 20
        demo_bad_log "[(demo_log (EventWrapFailed eth_demo))\<lparr>lg_Data := replicate 96 0\<rparr>]"] r e
    by (simp add: demo_records_def demo_bad_log_def demo_log_def)
qed

section \<open>The signing group\<close>

definition demo_group_token :: iota_token where
  "demo_group_token = demo_native\<lparr>it_protoParas := Some \<lparr>pp_NetworkID = 1, pp_VByteCost = 3\<rparr>\<rparr>"

definition demo_group_node :: iota_node where
  "demo_group_node = demo_iota_node\<lparr>SubmitBlock := (\<lambda>b. Inr (replicate 32 2)),
     BlockMetadataByBlockID := (\<lambda>b. Inr \<lparr>bm_BlockID = [], bm_Solid = True, bm_ConflictReason = 0\<rparr>)\<rparr>"

definition demo_group_env :: server_env where
  "demo_group_env = demo_validator\<lparr>en_iota := (\<lambda>t. demo_group_node)\<rparr>"

definition demo_group_order :: swap_order where
  "demo_group_order = \<lparr>so_TxID = ''0x09'', so_FromToken = ''sSOON'', so_ToToken = ''IOTA'', so_From = ''0x'',
     so_To = hex_encode demo_target, so_Amount = Some 60, so_Org = [], so_Error = None, so_Type = 0\<rparr>"

definition demo_group_server :: server where "demo_group_server = server_init empty_db"

lemma demo_group_simps [simp]:
  "en_L demo_group_env = eth_demo" "en_I demo_group_env = demo_lib" "en_conf demo_group_env = demo_config"
  "en_S demo_group_env = smpc_demo" "en_smpc demo_group_env = demo_smpc_conn" "en_store demo_group_env = None"
  "en_polls demo_group_env i = demo_smpc_conn" "en_iota demo_group_env t = demo_group_node"
  "en_ctx_Marshal demo_group_env c = ''context''"
  by (simp_all add: demo_group_env_def demo_validator_def demo_env_def)

lemma demo_group_key: "env_key demo_group_env ''smpc'' = Ok (Inr (replicate 20 8, [3]))"
  using demo_validator_key by (simp add: env_key_def demo_group_env_def)

lemma demo_group_made: "CreateUnWrapTxData_iota eth_demo demo_lib demo_group_node demo_group_token (hex_encode demo_target) 60 [9] =
    Some (Ok ([8], [1]))"
proof -
  have "getUnSignedTxDataNativeToken demo_lib demo_group_node demo_group_token (Ed25519Address demo_target) 60 [9] =
      Some (Ok ([8], [1]))" by code_simp
  moreover have "FromHex eth_demo (hex_encode demo_target) = demo_target" "length demo_target = 32"
    by (simp_all add: eth_demo_def demo_target_def)
  moreover have "MaxTagLength demo_lib = 64" "it_tokenID demo_group_token = [4]" "FoundryIDLength demo_lib = 38"
    by (simp_all add: demo_lib_def iota_demo_def demo_group_token_def demo_native_def demo_smr_token_def)
  ultimately show ?thesis by (simp add: CreateUnWrapTxData_iota_def Let_def Cons_replicate_eq)
qed

lemma demo_group_submits:
  "SendSignedTxData_iota eth_demo demo_lib demo_group_node demo_group_token ''abcd'' [1] = Ok (replicate 32 2)"
  by code_simp

lemma demo_group_asked: "\<exists>calls. group_request demo_group_env (IotaTok demo_group_token) wo [8] [1] prv = (Ok ''17'', calls)"
proof -
  have c: "client_Call demo_smpc_conn m a = Ok (Inr (bytes_of_string ''17''))" for m a
    by (simp add: client_Call_def demo_smpc_conn_def InitSmpc_def)
  have r: "getJSONResult smpc_demo (bytes_of_string ''17'') = Inr ''17''" by code_simp
  have s: "signTX L smpc_demo k n p = Inr (Bytes2Hex L (p @ k))" for L k n p
    by (simp add: signTX_def smpc_demo_def NewTransaction_def)
  show ?thesis by (simp add: group_request_def Sign_def c r s Let_def)
qed

lemma demo_group_conf: "vc_DetectCount (cf_Server demo_config) = 60" "sc_Accounts (cf_Smpc demo_config) = []"
  by (simp_all add: demo_config_def Load_def conf_file_def conf_SOON_def conf_sSOON_def demo_keys_def
      checkKeyStore_def demo_decrypt load_pairs_def)

lemma demo_group_allowed: "unwrap_allowed demo_group_env (IotaTok demo_group_token) demo_group_order demo_group_server"
proof -
  have "Symbol_iota demo_group_token = ''IOTA''" by code_simp
  then show ?thesis
    by (simp add: unwrap_allowed_def demo_group_order_def CheckAccountsState_def demo_group_conf demo_group_server_def
        server_init_def NewDealedOrdersCheck_def)
qed

theorem group_unwrap_completes_witness:
  "\<exists>calls st1 st2. dealUnWrapOrder demo_group_env (Some (IotaTok demo_group_token)) demo_group_order demo_group_server =
       Some (Ok st1) \<and> sv_trace st1 = [SignAsked ''0x09'' calls] \<and>
     recheck_iota_turn demo_group_env None no_faults st1 = Ok st2 \<and>
     (\<exists>r \<in> set (tbl_swap (sv_db st2)). wo_TxID r = ''0x09'' \<and> wo_State r = 1)"
proof -
  let ?E = "demo_group_env" and ?t = "demo_group_token" and ?o = demo_group_order and ?st = demo_group_server
  have o: "so_TxID ?o = ''0x09''" "so_To ?o = hex_encode demo_target" "so_Amount ?o = Some 60"
    by (simp_all add: demo_group_order_def)
  have tag: "FromHex eth_demo ''0x09'' = [9]" by code_simp
  have s: "sv_db ?st = empty_db" "iota_ok (sv_iota ?st)" "iota_items (sv_iota ?st) = []" "sv_trace ?st = []"
    by (simp_all add: demo_group_server_def server_init_def empty_sent_iota_def iota_ok_def iota_items_def)
  have new: "so_TxID ?o \<notin> stored (sv_db ?st)" by (simp add: s stored_def empty_db_def)
  have made: "CreateUnWrapTxData_src ?E (IotaTok ?t) (so_To ?o) (so_Amount ?o) (FromHex (en_L ?E) (so_TxID ?o)) =
      Some (Ok ([8], [1]))" by (simp add: o tag demo_group_made)
  obtain calls where asked: "group_request ?E (IotaTok ?t) (fst (unwrap_row ?E ?o ?st)) [8] [1] [3] = (Ok ''17'', calls)"
    using demo_group_asked by blast
  have "GetSignStatus smpc_demo demo_smpc_conn ''17'' = Ok (Inr [''abcd''])" by code_simp
  then have signed: "GetSignStatus (en_S ?E) (en_polls ?E 0) ''17'' = Ok (Inr [''abcd''])" by simp
  have sent: "SendSignedTxData_src ?E (IotaTok ?t) ''abcd'' [1] = Ok (Some (replicate 32 2))"
    using demo_group_submits by simp
  have conf: "CheckSentTx_iota (en_iota ?E ?t) (replicate 32 2) = (True, None)"
    by (simp add: CheckSentTx_iota_def demo_group_node_def)
  have k: "0 < nat (vc_DetectCount (cf_Server (en_conf ?E)))" by (simp add: demo_group_conf)
  have polls: "\<forall>j < 0. \<exists>r. GetSignStatus (en_S ?E) (en_polls ?E j) ''17'' = Ok r \<and> no_signature r" by simp
  have d: "en_store ?E = None" by simp
  from group_unwrap_completes [OF demo_group_allowed new d s(2,3) made demo_group_key asked k polls signed sent conf]
  show ?thesis unfolding o s by simp blast
qed

end
