(* ===== verification/Daemon.thy ===== *)
theory Daemon
  imports Prelude_Go
begin

text \<open>
  Package daemon (daemon/daemon.go): how the process puts itself into the background and how a
  supervisor restarts it.

  A process knows how deep it is from an environment variable, which every start sets to the number
  of the call of \<open>Background\<close> that made it. Of the environment the model has this variable only;
  os/exec keeps the last value of a variable that is given twice. What the operating system answers
  to \<open>startProc\<close> is an argument, and so is the life of a process. The file store is a map from names to
  files and directories; what a process prints into its log file later is left out. \<open>WaitForKill\<close> is in theory
  \<open>Main_Start\<close>, with the files of the process.
\<close>

section \<open>Background\<close>

definition ENV_NAME :: string where "ENV_NAME = ''BK_DAEMON_IDX''"

text \<open>\<open>strconv.Atoi\<close>: an optional sign and decimal digits, in the range of a 64 bit int.\<close>

fun digits_value :: "string \<Rightarrow> nat \<Rightarrow> nat option" where
  "digits_value [] acc = Some acc"
| "digits_value (c # cs) acc =
     (if 48 \<le> (of_char c :: nat) \<and> (of_char c :: nat) \<le> 57
      then digits_value cs (acc * 10 + ((of_char c :: nat) - 48)) else None)"

definition Atoi :: "string \<Rightarrow> int rpc" where
  "Atoi s =
     (let (neg, ds) = (case s of c # cs \<Rightarrow> if c = CHR ''-'' then (True, cs)
                         else if c = CHR ''+'' then (False, cs) else (False, s) | [] \<Rightarrow> (False, []))
      in if ds = [] then Inl (Errorf ''invalid syntax'')
         else (case digits_value ds 0 of
             None \<Rightarrow> Inl (Errorf ''invalid syntax'')
           | Some n \<Rightarrow> let i = (if neg then - int n else int n) in
               if i < - (2 ^ 63) \<or> 2 ^ 63 \<le> i then Inl (Errorf ''value out of range'') else Inr i))"

text \<open>A process: the value of the variable it was started with, and the calls of \<open>Background\<close> so
  far. A call returns at once (\<open>InSub\<close>), fails to start a process, or starts one with the given value
  of the variable; with \<open>isExit\<close> it then ends its own process.\<close>

record process =
  pr_env :: "string option"
  pr_runIdx :: int

datatype file_node = Directory | File string

type_synonym files = "string \<Rightarrow> file_node option"

text \<open>\<open>startProc\<close>: the failures of opening the log file and of the start, if there are any. The log file is
  created, or truncated if it is there; what the process then prints into it is left out.\<close>

type_synonym os_start = "go_error option \<times> go_error option"

definition startProc :: "string \<Rightarrow> os_start \<Rightarrow> files \<Rightarrow> files \<times> go_error option" where
  "startProc logFile os files = (case os of (open_err, start_err) \<Rightarrow>
     if logFile \<noteq> []
     then (case open_err of Some e \<Rightarrow> (files, Some e) | None \<Rightarrow> (files(logFile \<mapsto> File []), start_err))
     else (files, start_err))"

datatype background = InSub | NotStarted go_error | Launched process | LaunchedAndExit process

definition Background :: "string \<Rightarrow> os_start \<Rightarrow> bool \<Rightarrow> process \<Rightarrow> files \<Rightarrow> files \<times> process \<times> background" where
  "Background logFile os isExit p files =
     (let p = p\<lparr>pr_runIdx := pr_runIdx p + 1\<rparr>;
          envIdx = (case Atoi (case pr_env p of None \<Rightarrow> [] | Some s \<Rightarrow> s) of Inl e \<Rightarrow> 0 | Inr i \<Rightarrow> i)
      in if pr_runIdx p \<le> envIdx then (files, p, InSub)
         else (case startProc logFile os files of
             (files, Some e) \<Rightarrow> (files, p, NotStarted e)
           | (files, None) \<Rightarrow>
               let child = \<lparr>pr_env = Some (int_text (pr_runIdx p)), pr_runIdx = 0\<rparr>
               in (files, p, if isExit then LaunchedAndExit child else Launched child)))"

section \<open>Run\<close>

record daemon =
  d_LogFile :: string
  d_MaxCount :: int
  d_MaxError :: int
  d_MinExitTime :: int

definition NewDaemon :: "string \<Rightarrow> daemon" where
  "NewDaemon logFile = \<lparr>d_LogFile = logFile, d_MaxCount = 0, d_MaxError = 3, d_MinExitTime = 10\<rparr>"

text \<open>What the operating system does in a round of the loop: whether the process starts, for how many
  seconds it runs before it ends, and what it does to the files meanwhile. How the loop stands after
  the rounds: the supervisor has exited with a code, the process turned out to be the worker, or it
  waits in its next round.\<close>

type_synonym round = "os_start \<times> int \<times> (files \<Rightarrow> files)"

datatype watch = ExitCode int | Worker process | Watching int int process

fun Run_loop :: "daemon \<Rightarrow> int \<Rightarrow> int \<Rightarrow> round list \<Rightarrow> process \<Rightarrow> files \<Rightarrow> files \<times> watch" where
  "Run_loop d count errNum rounds p files =
     (if errNum > d_MaxError d then (files, ExitCode 1)
      else if d_MaxCount d > 0 \<and> count > d_MaxCount d then (files, ExitCode 0)
      else case rounds of
        [] \<Rightarrow> (files, Watching count errNum p)
      | (os, dat, child_did) # rounds \<Rightarrow>
          (case Background (d_LogFile d) os False p files of
             (files, p, NotStarted e) \<Rightarrow> Run_loop d (count + 1) (errNum + 1) rounds p files
           | (files, p, Launched child) \<Rightarrow>
               Run_loop d (count + 1) (if dat < d_MinExitTime d then errNum + 1 else 0) rounds p (child_did files)
           | (files, p, b) \<Rightarrow> (files, Worker p)))"

declare Run_loop.simps [simp del]

text \<open>\<open>Run\<close> in a process that is not yet in the background ends there, unless the background
  process does not start; then the loop runs in the foreground.\<close>

definition Run :: "daemon \<Rightarrow> os_start \<Rightarrow> round list \<Rightarrow> process \<Rightarrow> files \<Rightarrow> files \<times> watch" where
  "Run d os rounds p files = (case Background (d_LogFile d) os True p files of
      (files, p, LaunchedAndExit child) \<Rightarrow> (files, ExitCode 0)
    | (files, p, b) \<Rightarrow> Run_loop d 1 0 rounds p files)"

section \<open>Numbers as text\<close>

lemma digits_value_append:
  "digits_value (xs @ ys) acc = (case digits_value xs acc of None \<Rightarrow> None | Some n \<Rightarrow> digits_value ys n)"
  by (induction xs arbitrary: acc) auto

lemma digits_value_text: "digits_value (nat_text n) 0 = Some n"
proof (induction n rule: nat_text.induct)
  case (1 n)
  have d: "digits_value [char_of (48 + k)] acc = Some (acc * 10 + k)" if "k < 10" for k acc :: nat
    using that by simp
  show ?case
  proof (cases "n < 10")
    case False
    then have "digits_value (nat_text n) 0 = digits_value [char_of (48 + n mod 10)] (n div 10)"
      using "1.IH" by (simp add: nat_text.simps [of n] digits_value_append)
    then show ?thesis using d [of "n mod 10" "n div 10"] by simp
  qed (simp add: nat_text.simps [of n] d del: digits_value.simps)
qed

lemma nat_text_digit: "\<exists>c cs. nat_text n = c # cs \<and> c \<noteq> CHR ''-'' \<and> c \<noteq> CHR ''+''"
proof (induction n rule: nat_text.induct)
  case (1 n)
  have d: "char_of (48 + k) \<noteq> c" if "(of_char c :: nat) < 48" "k < 10" for k :: nat and c :: char
  proof
    assume "char_of (48 + k) = c"
    then have "(of_char c :: nat) = of_char (char_of (48 + k) :: char)" by simp
    with that show False by simp
  qed
  show ?case
    using "1.IH" d [of "CHR ''-''" n] d [of "CHR ''+''" n] by (cases "n < 10") (auto simp: nat_text.simps [of n])
qed

lemma Atoi_int_text:
  assumes "0 \<le> i" and "i < 2 ^ 63" shows "Atoi (int_text i) = Inr i"
proof -
  obtain c cs where "nat_text (nat i) = c # cs" "c \<noteq> CHR ''-''" "c \<noteq> CHR ''+''"
    using nat_text_digit [of "nat i"] by blast
  with assms digits_value_text [of "nat i"] show ?thesis
    by (simp add: Atoi_def int_text_def Let_def)
qed

section \<open>Properties\<close>

text \<open>A process in the background knows it. When a call of \<open>Background\<close> starts a process, the
  calls of \<open>Background\<close> in that process return at once up to the number of the call that started it,
  and the next one starts a process of its own: neither a worker nor a supervisor forks again
  where its parent did.\<close>

theorem Background_returns_in_child:
  assumes "Background logFile os isExit p files = (files', p', b)" and "b = Launched child \<or> b = LaunchedAndExit child"
    and "0 \<le> pr_runIdx p'" and "pr_runIdx p' < 2 ^ 63"
  shows "snd (snd (Background logFile' os' e (child\<lparr>pr_runIdx := k\<rparr>) files'')) = InSub \<longleftrightarrow> k < pr_runIdx p'"
proof -
  have "pr_env child = Some (int_text (pr_runIdx p'))"
    using assms(1,2) by (auto simp: Background_def Let_def split: if_splits prod.splits option.splits)
  then show ?thesis
    using Atoi_int_text [OF assms(3,4)] by (auto simp: Background_def Let_def split: prod.split option.split)
qed

theorem Background_returns_in_child_witness:
  "\<exists>files p child. Background ''out.log'' (None, None) True \<lparr>pr_env = None, pr_runIdx = 0\<rparr> Map.empty = (files, p, LaunchedAndExit child) \<and>
     snd (snd (Background ''out.log'' (None, None) False (child\<lparr>pr_runIdx := 0\<rparr>) files)) = InSub \<and>
     snd (snd (Background ''out.log'' (None, None) False (child\<lparr>pr_runIdx := 1\<rparr>) files)) \<noteq> InSub"
proof -
  obtain files p child where b: "Background ''out.log'' (None, None) True \<lparr>pr_env = None, pr_runIdx = 0\<rparr> Map.empty =
      (files, p, LaunchedAndExit child)" "pr_runIdx p = 1"
    by (simp add: Background_def startProc_def Let_def Atoi_def)
  from Background_returns_in_child [OF b(1)] b(2) have
    "snd (snd (Background ''out.log'' (None, None) False (child\<lparr>pr_runIdx := k\<rparr>) files)) = InSub \<longleftrightarrow> k < 1" for k by simp
  from this [of 0] this [of 1] b(1) show ?thesis by (intro exI [of _ files] exI [of _ p] exI [of _ child]) simp
qed

text \<open>A supervisor: the environment variable does not reach its calls of \<open>Background\<close> any more.\<close>

definition supervisor :: "process \<Rightarrow> bool" where
  "supervisor p \<longleftrightarrow> (case Atoi (case pr_env p of None \<Rightarrow> [] | Some s \<Rightarrow> s) of
     Inl e \<Rightarrow> 0 \<le> pr_runIdx p | Inr i \<Rightarrow> i \<le> pr_runIdx p)"

text \<open>Whether a process does not start depends on the answers of the operating system only.\<close>

definition start_error :: "string \<Rightarrow> os_start \<Rightarrow> go_error option" where
  "start_error logFile os = (if logFile \<noteq> [] \<and> fst os \<noteq> None then fst os else snd os)"

lemma startProc_error: "snd (startProc logFile os files) = start_error logFile os"
  by (auto simp: startProc_def start_error_def split: prod.split option.split)

lemma supervisor_Background:
  assumes "supervisor p"
  shows "\<exists>files' p'. supervisor p' \<and> (case start_error logFile os of
      Some e \<Rightarrow> Background logFile os isExit p files = (files', p', NotStarted e)
    | None \<Rightarrow> \<exists>child. Background logFile os False p files = (files', p', Launched child))"
proof -
  have "startProc logFile os files = (fst (startProc logFile os files), start_error logFile os)"
    by (simp add: prod_eq_iff startProc_error)
  then obtain files' where s: "startProc logFile os files = (files', start_error logFile os)" ..
  show ?thesis
    using assms
    by (intro exI [of _ files'] exI [of _ "p\<lparr>pr_runIdx := pr_runIdx p + 1\<rparr>"], cases "start_error logFile os")
      (auto simp: supervisor_def Background_def Let_def s split: sum.splits)
qed

text \<open>A round that counts as a failure, and so many of them from the front.\<close>

definition failed_round :: "daemon \<Rightarrow> round \<Rightarrow> bool" where
  "failed_round d r \<longleftrightarrow> start_error (d_LogFile d) (fst r) \<noteq> None \<or> fst (snd r) < d_MinExitTime d"

definition streak :: "daemon \<Rightarrow> nat \<Rightarrow> round list \<Rightarrow> bool" where
  "streak d k rs \<longleftrightarrow> k \<le> length rs \<and> list_all (failed_round d) (take k rs)"

lemma streak_simps [simp]:
  "streak d 0 rs" "\<not> streak d (Suc k) []"
  "streak d (Suc k) (r # rs) \<longleftrightarrow> failed_round d r \<and> streak d k rs"
  by (auto simp: streak_def)

lemma streak_mono: "streak d n rs \<Longrightarrow> k \<le> n \<Longrightarrow> streak d k rs"
  by (auto simp: streak_def list_all_length)

lemma ex_drop_Cons: "(\<exists>i. P (drop i (x # xs))) \<longleftrightarrow> P (x # xs) \<or> (\<exists>i. P (drop i xs))"
proof
  assume "\<exists>i. P (drop i (x # xs))"
  then obtain i where "P (drop i (x # xs))" ..
  then show "P (x # xs) \<or> (\<exists>i. P (drop i xs))" by (cases i) auto
next
  assume "P (x # xs) \<or> (\<exists>i. P (drop i xs))"
  then show "\<exists>i. P (drop i (x # xs))" by (metis drop_0 drop_Suc_Cons)
qed

lemma Run_loop_round:
  assumes "d_MaxCount d = 0" and "d_MaxError d = int m" and "e \<le> m" and "supervisor p"
  shows "\<exists>p' files'. supervisor p' \<and> Run_loop d c (int e) (r # rs) p files =
    Run_loop d (c + 1) (if failed_round d r then int (Suc e) else 0) rs p' files'"
proof -
  obtain os dat did where r: "r = (os, dat, did)" by (metis prod_cases3)
  from supervisor_Background [OF assms(4), where logFile = "d_LogFile d" and os = os and isExit = False and files = files] obtain p' files' where "supervisor p'"
    "case start_error (d_LogFile d) os of Some e \<Rightarrow> Background (d_LogFile d) os False p files = (files', p', NotStarted e)
      | None \<Rightarrow> \<exists>child. Background (d_LogFile d) os False p files = (files', p', Launched child)" by blast
  with assms(1-3) r show ?thesis
    by (intro exI [of _ p'] exI [of _ "if start_error (d_LogFile d) os = None then did files' else files'"])
      (cases "start_error (d_LogFile d) os"; auto simp: Run_loop.simps [of d c "int e"] failed_round_def algebra_simps)
qed

lemma Run_loop_iff:
  assumes "d_MaxCount d = 0" and "d_MaxError d = int m"
  shows "e \<le> m \<Longrightarrow> supervisor p \<Longrightarrow> snd (Run_loop d c (int e) rs p files) = ExitCode code \<longleftrightarrow>
    code = 1 \<and> (streak d (Suc m - e) rs \<or> (\<exists>i. streak d (Suc m) (drop i rs)))"
proof (induction rs arbitrary: c e p files)
  case Nil
  then show ?case using assms by (auto simp: Run_loop.simps [of d c "int e"] Suc_diff_le)
next
  case (Cons r rs)
  obtain p' files' where p': "supervisor p'" "Run_loop d c (int e) (r # rs) p files =
      Run_loop d (c + 1) (if failed_round d r then int (Suc e) else 0) rs p' files'"
    using Run_loop_round [OF assms Cons.prems] by blast
  have later: "(\<exists>i. streak d (Suc m) (drop i (r # rs))) \<longleftrightarrow>
      failed_round d r \<and> streak d m rs \<or> (\<exists>i. streak d (Suc m) (drop i rs))"
    by (subst ex_drop_Cons) simp
  show ?case
  proof (cases "failed_round d r")
    case True
    show ?thesis
    proof (cases "e = m")
      case True
      with p' \<open>failed_round d r\<close> assms(2) show ?thesis
        by (auto simp: Run_loop.simps [of d "c + 1"] Suc_diff_le)
    next
      case False
      with Cons.prems have "Suc e \<le> m" by simp
      from Cons.IH [OF this p'(1), of "c + 1"] p'(2) True Cons.prems(1) later streak_mono [of d m rs "m - e"]
      show ?thesis by (auto simp: Suc_diff_le)
    qed
  next
    case False
    with Cons.IH [OF le0 p'(1), of "c + 1"] p'(2) Cons.prems(1) later show ?thesis
      by (auto simp: Suc_diff_le intro: exI [of _ 0])
  qed
qed

text \<open>C32: when the supervisor gives up. With no limit on the number of starts, \<open>Run\<close> in a background
  process ends exactly when more than \<open>MaxError\<close> rounds in a row have failed, by a process that did
  not start or ran for less than \<open>MinExitTime\<close>, and then with exit code 1; a round that lasted
  clears the count, and any other history leaves it restarting. (The comment on \<open>MinExitTime\<close> in the
  struct says the opposite, that a process running over this time counts as an exception; the code
  counts the short ones, and so does this theorem.)\<close>

theorem Run_loop_gives_up:
  assumes "d_MaxCount d = 0" and "d_MaxError d = int m" and "supervisor p"
  shows "snd (Run_loop d 1 0 rounds p files) = ExitCode code \<longleftrightarrow>
    code = 1 \<and> (\<exists>i. i + Suc m \<le> length rounds \<and> (\<forall>j \<le> m. failed_round d (rounds ! (i + j))))"
proof -
  have "streak d (Suc m) (drop i rounds) \<longleftrightarrow>
      i + Suc m \<le> length rounds \<and> (\<forall>j \<le> m. failed_round d (rounds ! (i + j)))" for i
    by (auto simp: streak_def list_all_length less_Suc_eq_le)
  moreover have "streak d (Suc m - 0) rounds \<or> (\<exists>i. streak d (Suc m) (drop i rounds)) \<longleftrightarrow>
      (\<exists>i. streak d (Suc m) (drop i rounds))" by (metis drop_0 minus_nat.diff_0)
  ultimately show ?thesis
    using Run_loop_iff [OF assms(1,2) le0 assms(3), of 1 rounds files code] by simp
qed

theorem Run_loop_gives_up_witness:
  "snd (Run_loop (NewDaemon ''log'') 1 0 [((None, None), 100, id), ((None, None), 1, id),
       ((Some (Errorf ''open''), None), 100, id), ((None, Some (Errorf ''start'')), 0, id), ((None, None), 2, id)]
     \<lparr>pr_env = Some ''1'', pr_runIdx = 1\<rparr> Map.empty) = ExitCode 1 \<and>
   snd (Run_loop (NewDaemon ''log'') 1 0 [((None, None), 1, id), ((None, None), 1, id), ((None, None), 1, id),
       ((None, None), 10, id), ((None, None), 1, id)]
     \<lparr>pr_env = Some ''1'', pr_runIdx = 1\<rparr> Map.empty) \<noteq> ExitCode 1"
proof -
  have s: "supervisor \<lparr>pr_env = Some ''1'', pr_runIdx = 1\<rparr>" by (simp add: supervisor_def Atoi_def)
  have d: "d_MaxCount (NewDaemon ''log'') = 0" "d_MaxError (NewDaemon ''log'') = int 3" by (simp_all add: NewDaemon_def)
  note iff = Run_loop_gives_up [OF d s]
  have four: "(\<forall>j \<le> 3. Q j) \<longleftrightarrow> Q 0 \<and> Q 1 \<and> Q 2 \<and> Q (3 :: nat)" for Q
    by (auto simp: le_Suc_eq numeral_3_eq_3 numeral_2_eq_2)
  have i: "(\<exists>i \<le> Suc 0. P i) \<longleftrightarrow> P 0 \<or> P (Suc 0)" "(\<forall>i \<le> Suc 0. P i) \<longleftrightarrow> P 0 \<and> P (Suc 0)" for P
    by (auto simp: le_Suc_eq)
  show ?thesis
    unfolding iff four by (simp add: i failed_round_def start_error_def NewDaemon_def)
qed

end
