(* ===== verification/Main_Start.thy ===== *)
theory Main_Start
  imports Daemon Server_State
begin

text \<open>
  How the process starts and stops: main.go, server/server.go, gl/version.go, gl/global.go, the
  connection to the database (model/mysql.go), and \<open>WaitForKill\<close> of daemon/daemon.go.

  The operator's process asks for the password, leaves it in the file rand.data, and starts itself
  again in the background (\<open>Background\<close>); the process in the background reads the file, destroys it,
  keeps the password encrypted, loads the configuration and starts the tasks. The file store that
  the two share is a map from names to contents. What the operating system, the terminal, the
  random source and the database answer is the record \<open>boot_env\<close>. A file that cannot be written is
  left as it was.
\<close>

section \<open>gl/version.go\<close>

definition VersionMeta :: string where "VersionMeta = []"

definition Version :: string where
  "Version = int_text 0 @ ''.'' @ int_text 3 @ ''.'' @ int_text 9"

definition VersionWithMeta :: string where
  "VersionWithMeta = (if VersionMeta \<noteq> [] then Version @ ''-'' @ VersionMeta else Version)"

text \<open>The result is also the new value of the variable \<open>VersionWithMeta\<close>, which nothing reads.\<close>

definition VersionWithCommit :: "string \<Rightarrow> string \<Rightarrow> string" where
  "VersionWithCommit gitCommit gitDate =
     (let vsn = (if VersionMeta \<noteq> [] then Version @ ''-'' @ VersionMeta else Version);
          vsn = (if 8 \<le> length gitCommit then vsn @ ''-'' @ take 8 gitCommit else vsn)
      in if VersionMeta \<noteq> ''stable'' \<and> gitDate \<noteq> [] then vsn @ ''-'' @ gitDate else vsn)"

section \<open>The outside\<close>

record boot_env =
  bo_ReadPassword :: "string rpc"
  bo_now :: string                           \<comment> \<open>the time as text\<close>
  bo_write :: "string \<Rightarrow> go_error option"     \<comment> \<open>the failure to write a file\<close>
  bo_remove :: bool                          \<comment> \<open>whether files can be removed\<close>
  bo_random :: "nat \<Rightarrow> 32 word"
  bo_NewAccount :: "string \<Rightarrow> string rpc"    \<comment> \<open>a new account as JSON, under a password\<close>
  bo_start :: os_start
  bo_toml :: "all_config rpc"
  bo_mkdir :: "go_error option"
  bo_logger :: "string \<Rightarrow> files \<Rightarrow> files \<times> go_error option"   \<comment> \<open>\<open>logger.New\<close>, with what it does to the files\<close>
  bo_Open :: "string \<Rightarrow> go_error option"    \<comment> \<open>for the text of a data source\<close>
  bo_Ping :: "go_error option"
  bo_rpc :: "string \<Rightarrow> rpc_call"           \<comment> \<open>\<open>ethrpc.New\<close>\<close>
  bo_crypto :: crypto_lib
  bo_keys :: key_lib

definition WriteFile :: "boot_env \<Rightarrow> string \<Rightarrow> string \<Rightarrow> files \<Rightarrow> files \<times> go_error option" where
  "WriteFile E name content files = (case bo_write E name of
      Some e \<Rightarrow> (files, Some e) | None \<Rightarrow> (files(name \<mapsto> File content), None))"

section \<open>The password\<close>

definition input :: "boot_env \<Rightarrow> files \<Rightarrow> files \<times> unit outcome" where
  "input E files = (case bo_ReadPassword E of
      Inl e \<Rightarrow> (files, Panic (''read pwd error:'' @ error_text e))
    | Inr pwd \<Rightarrow> (case WriteFile E ''rand.data'' pwd files of
        (files, Some e) \<Rightarrow> (files, Panic ''write rand.data error.'')
      | (files, None) \<Rightarrow> (files, Ok ())))"

definition random_seeds :: "boot_env \<Rightarrow> seeds" where
  "random_seeds E =
     (let seed = (\<lambda>i. GenerateRandomSeed (bo_random E (2 * i)) (bo_random E (2 * i + 1)))
      in (seed 0, seed 1, seed 2, seed 3))"

definition overwritten :: string where
  "overwritten = ''start the process successful! You are very great. Best to every one.''"

definition readRand :: "boot_env \<Rightarrow> files \<Rightarrow> files \<times> (string \<times> seeds) outcome" where
  "readRand E files = (case files ''rand.data'' of
      None \<Rightarrow> (files, Panic ''read rand.data error.'')
    | Some Directory \<Rightarrow> (files, Panic ''read rand.data error.'')
    | Some (File data) \<Rightarrow> (case WriteFile E ''rand.data'' overwritten files of
        (files, Some e) \<Rightarrow> (files, Panic ''write rand.data error.'')
      | (files, None) \<Rightarrow>
          let files = (if bo_remove E then files(''rand.data'' := None) else files);
              seeds = random_seeds E
          in (files, obind (GetEncryptString (bo_crypto E) data seeds) (\<lambda>pwd. Ok (pwd, seeds)))))"

text \<open>\<open>CreateKeyStore\<close> ends the process with an error when one of its steps fails.\<close>

definition CreateKeyStore :: "boot_env \<Rightarrow> string \<Rightarrow> string \<Rightarrow> files \<Rightarrow> files \<times> go_error option" where
  "CreateKeyStore E pwd filename files = (case bo_NewAccount E pwd of
      Inl e \<Rightarrow> (files, Some e)
    | Inr json \<Rightarrow> WriteFile E filename json files)"

section \<open>Tasks\<close>

text \<open>\<open>ConnectToMysql\<close>: opening checks the text of the data source only, the ping connects.\<close>

definition data_source :: "db_config \<Rightarrow> string" where
  "data_source db = dc_Usr db @ '':'' @ dc_Pwd db @ ''@tcp('' @ dc_Host db @ '':'' @ dc_Port db @ '')/'' @ dc_DbName db"

definition ConnectToMysql :: "boot_env \<Rightarrow> config \<Rightarrow> unit outcome" where
  "ConnectToMysql E conf = (case bo_Open E (data_source (cf_Db conf)) of
      Some e \<Rightarrow> Panic (error_text e)
    | None \<Rightarrow> (case bo_Ping E of
        Some e \<Rightarrow> Panic (''Connect to Mysql error : '' @ error_text e)
      | None \<Rightarrow> Ok ()))"

text \<open>\<open>CreateLogFiles\<close>: the directory of the logs, which may be there, then the logger on its file.\<close>

definition CreateLogFiles :: "boot_env \<Rightarrow> files \<Rightarrow> files \<times> unit outcome" where
  "CreateLogFiles E files = (case bo_mkdir E of
      Some e \<Rightarrow> (files, Panic (''Create dir './logs' error. '' @ error_text e))
    | None \<Rightarrow> (case bo_logger E ''logs/out.log'' (files(''./logs'' \<mapsto> Directory)) of
        (files, Some e) \<Rightarrow> (files, Panic (''Create Outlogger file error. '' @ error_text e))
      | (files, None) \<Rightarrow> (files, Ok ())))"

text \<open>\<open>WaitAndCleanup\<close> receives from a channel first; without a message it does not return. No function
  sends to the channel.\<close>

definition WaitAndCleanup :: "bool \<Rightarrow> ('a \<Rightarrow> 'a) \<Rightarrow> 'a \<Rightarrow> 'a option" where
  "WaitAndCleanup received doCleanup x = (if received then Some (doCleanup x) else None)"

text \<open>The functions that run on in the process, in the order they are started.\<close>

datatype task = AcceptTask | ListenTokensTask | RecheckIotaTask | ListenTxErrorRecordTask

definition Start :: "task list" where "Start = [ListenTokensTask, RecheckIotaTask]"

definition start_tasks :: "config \<Rightarrow> task list" where
  "start_tasks conf =
     (if 0 < length (sc_NodeUrl (cf_Smpc conf)) then [AcceptTask] else []) @ Start @
     (if 0 < length (tc_Contract (cf_TxErrorRecord conf)) then [ListenTxErrorRecordTask] else [])"

text \<open>How \<open>main\<close> goes on or ends: it serves, with the connection to the group if there is one; it has
  started the process in the background, with its arguments, and ended; it has written a keystore;
  or it has failed.\<close>

datatype boot =
    Serving config "smpc_conn option" "task list"
  | InBackground process "string list"
  | KeyWritten
  | Failed string

definition serve :: "boot_env \<Rightarrow> files \<Rightarrow> files \<times> boot" where
  "serve E files = (case readRand E files of
      (files, Panic p) \<Rightarrow> (files, Failed p)
    | (files, Err e) \<Rightarrow> (files, Failed (error_text e))
    | (files, Ok (pwd, seeds)) \<Rightarrow> (case Load (bo_crypto E) (bo_keys E) (bo_toml E) pwd seeds of
        Panic p \<Rightarrow> (files, Failed p)
      | Err e \<Rightarrow> (files, Failed (error_text e))
      | Ok conf \<Rightarrow> (case CreateLogFiles E files of
          (files, Panic p) \<Rightarrow> (files, Failed p)
        | (files, Err e) \<Rightarrow> (files, Failed (error_text e))
        | (files, Ok _) \<Rightarrow> (files, case ConnectToMysql E conf of
            Panic p \<Rightarrow> Failed p
          | Err e \<Rightarrow> Failed (error_text e)
          | Ok _ \<Rightarrow>
              let url = sc_NodeUrl (cf_Smpc conf)
              in Serving conf (if 0 < length url
                  then Some (InitSmpc (bo_rpc E) url (sc_Account (cf_Smpc conf))) else None)
                (start_tasks conf)))))"

text \<open>An error of \<open>Background\<close> is ignored: the process goes on in the foreground.\<close>

definition main :: "boot_env \<Rightarrow> string list \<Rightarrow> process \<Rightarrow> files \<Rightarrow> files \<times> boot" where
  "main E args p files =
     (if ''key'' \<in> set args
      then (case bo_ReadPassword E of
          Inl e \<Rightarrow> (files, Failed (''read pwd error:'' @ error_text e))
        | Inr pwd \<Rightarrow> (case CreateKeyStore E pwd (''key_'' @ bo_now E) files of
            (files, Some e) \<Rightarrow> (files, Failed (error_text e))
          | (files, None) \<Rightarrow> (files, KeyWritten)))
      else if args = [] then (files, Failed ''index out of range'')
      else let (files, args, res) =
          (if last args \<noteq> ''daemon''
           then let (files, res) = input E files in (files, args @ [''daemon''], res)
           else (files, args, Ok ()))
        in (case res of
            Panic w \<Rightarrow> (files, Failed w)
          | Err e \<Rightarrow> (files, Failed (error_text e))
          | Ok _ \<Rightarrow> (case Background ''./out.log'' (bo_start E) True p files of
              (files, p, LaunchedAndExit child) \<Rightarrow> (files, InBackground child args)
            | (files, p, b) \<Rightarrow> serve E files)))"

text \<open>\<open>WaitForKill\<close>, with the number of the process: the files while it waits, and after the signal.
  Process 1 keeps no files; failures to write or remove are ignored.\<close>

definition WaitForKill :: "boot_env \<Rightarrow> int \<Rightarrow> files \<Rightarrow> files \<times> files" where
  "WaitForKill E pid files =
     (if pid = 1 then (files, files)
      else let waiting = fst (WriteFile E ''stop.sh'' ''kill `cat process.pid`''
                 (fst (WriteFile E ''process.pid'' (int_text pid) files)))
           in (waiting, if bo_remove E then waiting(''stop.sh'' := None, ''process.pid'' := None) else waiting))"

section \<open>Lemmas\<close>

lemma input_ok:
  assumes "input E files = (files', Ok u)"
  shows "\<exists>pw. bo_ReadPassword E = Inr pw \<and> files' = files(''rand.data'' \<mapsto> File pw)"
  using assms by (auto simp: input_def WriteFile_def split: sum.splits option.splits)

lemma readRand_ok:
  assumes "crypto_lib_ok (bo_crypto E)" and "files ''rand.data'' = Some (File pw)" and "bo_write E ''rand.data'' = None"
  shows "\<exists>enc. readRand E files =
      (files(''rand.data'' := if bo_remove E then None else Some (File overwritten)), Ok (enc, random_seeds E)) \<and>
    GetDecryptString (bo_crypto E) enc (random_seeds E) = Ok (bytes_of_string pw)"
proof -
  obtain enc where e: "GetEncryptString (bo_crypto E) pw (random_seeds E) = Ok enc"
    using GetEncryptString_total [OF assms(1)] by blast
  from decrypt_encrypt [OF assms(1) e] assms(2,3) e show ?thesis
    by (auto simp: readRand_def WriteFile_def Let_def)
qed

text \<open>An environment in which the process comes up: the files and the database work, the logger writes to
  files in its directory only, and the configuration loads for every encrypted form of the password.\<close>

definition in_logs :: "string \<Rightarrow> bool" where
  "in_logs name \<longleftrightarrow> name = ''./logs'' \<or> take 5 name = ''logs/''"

definition comes_up :: "boot_env \<Rightarrow> string \<Rightarrow> bool" where
  "comes_up E pw \<longleftrightarrow> crypto_lib_ok (bo_crypto E) \<and> bo_write E ''rand.data'' = None \<and> bo_mkdir E = None \<and>
     (\<forall>files. snd (bo_logger E ''logs/out.log'' files) = None \<and>
        (\<forall>name. take 5 name \<noteq> ''logs/'' \<longrightarrow> fst (bo_logger E ''logs/out.log'' files) name = files name)) \<and>
     (\<forall>source. bo_Open E source = None) \<and> bo_Ping E = None \<and>
     (\<forall>enc. GetDecryptString (bo_crypto E) enc (random_seeds E) = Ok (bytes_of_string pw) \<longrightarrow>
        is_ok (Load (bo_crypto E) (bo_keys E) (bo_toml E) enc (random_seeds E)))"

lemma CreateLogFiles_ok:
  assumes "comes_up E pw"
  shows "\<exists>files'. CreateLogFiles E files = (files', Ok ()) \<and> files' ''./logs'' = Some Directory \<and>
    (\<forall>name. \<not> in_logs name \<longrightarrow> files' name = files name)"
proof -
  have l: "snd (bo_logger E ''logs/out.log'' fs) = None" "take 5 name \<noteq> ''logs/'' \<Longrightarrow>
      fst (bo_logger E ''logs/out.log'' fs) name = fs name" for fs name
    using assms by (auto simp: comes_up_def)
  obtain files' where r: "bo_logger E ''logs/out.log'' (files(''./logs'' \<mapsto> Directory)) = (files', None)"
    using l(1) by (metis surjective_pairing)
  have "bo_mkdir E = None" using assms by (simp add: comes_up_def)
  then have "CreateLogFiles E files = (files', Ok ())" by (simp add: CreateLogFiles_def r)
  with l(2) [of _ "files(''./logs'' \<mapsto> Directory)"] r show ?thesis by (intro exI [of _ files']) (simp add: in_logs_def)
qed

lemma WaitForKill_removed:
  assumes "bo_remove E" and "pid \<noteq> 1"
  shows "snd (WaitForKill E pid files) = files(''process.pid'' := None, ''stop.sh'' := None)"
  using assms by (auto simp: WaitForKill_def WriteFile_def fun_eq_iff split: option.split)

lemma is_ok_E: "is_ok r \<Longrightarrow> \<exists>x. r = Ok x" by (cases r) auto

lemma Load_seeds: "Load C K file enc sds = Ok conf \<Longrightarrow> cf_password conf = enc \<and> cf_seeds conf = sds"
  by (auto simp: Load_def checkKeyStore_def ok_convs split: sum.splits)

lemma serve_ok:
  assumes "comes_up E pw" and "files ''rand.data'' = Some (File pw)"
  shows "\<exists>conf conn files'. serve E files = (files', Serving conf conn (start_tasks conf)) \<and>
    files' ''rand.data'' = (if bo_remove E then None else Some (File overwritten)) \<and> files' ''./logs'' = Some Directory \<and>
    (\<forall>name. name \<noteq> ''rand.data'' \<and> \<not> in_logs name \<longrightarrow> files' name = files name) \<and>
    GetDecryptString (bo_crypto E) (cf_password conf) (cf_seeds conf) = Ok (bytes_of_string pw)"
proof -
  let ?files = "files(''rand.data'' := if bo_remove E then None else Some (File overwritten))"
  obtain enc where r: "readRand E files = (?files, Ok (enc, random_seeds E))"
    and d: "GetDecryptString (bo_crypto E) enc (random_seeds E) = Ok (bytes_of_string pw)"
    using readRand_ok [of E files pw] assms by (auto simp: comes_up_def)
  obtain conf where l: "Load (bo_crypto E) (bo_keys E) (bo_toml E) enc (random_seeds E) = Ok conf"
    using assms(1) d is_ok_E unfolding comes_up_def by blast
  obtain files' where c: "CreateLogFiles E ?files = (files', Ok ())" "files' ''./logs'' = Some Directory"
    "\<And>name. \<not> in_logs name \<Longrightarrow> files' name = ?files name"
    using CreateLogFiles_ok [OF assms(1), of ?files] by blast
  have "ConnectToMysql E conf = Ok ()" using assms(1) by (simp add: ConnectToMysql_def comes_up_def)
  then have s: "\<exists>conn. serve E files = (files', Serving conf conn (start_tasks conf))"
    using r l c(1) by (simp add: serve_def Let_def)
  have "\<not> in_logs ''rand.data''" by (simp add: in_logs_def)
  with s c(2,3) d Load_seeds [OF l] show ?thesis by auto
qed

lemma serve_stays: "serve E files \<noteq> (files', InBackground child args)"
  by (auto simp: serve_def Let_def split: prod.splits outcome.splits option.splits)

section \<open>Property\<close>

text \<open>C30: the password gets from the operator's terminal to the process in the background. When the
  operator starts the program and it puts a process in the background, that process, in an environment in
  which it comes up, serves with all tasks of its configuration and opens the keystores with the password
  that was typed in. The file that carried the password is then removed or, where files cannot be
  removed, overwritten. The two processes have created or emptied ./out.log, which takes what the second prints, and made the
  directory ./logs with the log in it; these remain, and no other file has changed. When it is stopped, the process removes
  process.pid and stop.sh, if files can be removed.\<close>

theorem start_serves_with_password:
  assumes "main E0 args p files = (files1, InBackground child args')" and "pr_runIdx p = 0"
    and "last args \<noteq> ''daemon''" and "bo_ReadPassword E0 = Inr pw" and "comes_up E pw"
  shows "\<exists>conf conn files2. main E args' child files1 = (files2, Serving conf conn (start_tasks conf)) \<and>
    GetDecryptString (bo_crypto E) (cf_password conf) (cf_seeds conf) = Ok (bytes_of_string pw) \<and>
    files2 ''rand.data'' = (if bo_remove E then None else Some (File overwritten)) \<and>
    files2 ''./out.log'' \<noteq> None \<and> files2 ''./logs'' = Some Directory \<and>
    (\<forall>name. name \<noteq> ''rand.data'' \<and> name \<noteq> ''./out.log'' \<and> \<not> in_logs name \<longrightarrow> files2 name = files name) \<and>
    (bo_remove E \<and> pid \<noteq> 1 \<longrightarrow> snd (WaitForKill E pid files2) = files2(''process.pid'' := None, ''stop.sh'' := None))"
proof -
  from assms(1,3) obtain files0 p' u where i: "input E0 files = (files0, Ok u)"
    and b: "Background ''./out.log'' (bo_start E0) True p files0 = (files1, p', LaunchedAndExit child)"
    and args: "args' = args @ [''daemon'']" "''key'' \<notin> set args"
    by (auto simp: main_def Let_def split: if_splits sum.splits prod.splits option.splits outcome.splits
        background.splits dest: serve_stays [THEN notE])
  have env: "pr_env child = Some (int_text 1)" "pr_runIdx child = 0" and "files1 = files0(''./out.log'' \<mapsto> File [])"
    using b assms(2) by (auto simp: Background_def startProc_def Let_def split: if_splits prod.splits option.splits)
  with input_ok [OF i] assms(4) have f: "files1 = files(''rand.data'' \<mapsto> File pw, ''./out.log'' \<mapsto> File [])" by simp
  have "Atoi (int_text 1) = Inr 1" by (rule Atoi_int_text) simp_all
  with env have stays: "Background ''./out.log'' (bo_start E) True child files1 = (files1, child\<lparr>pr_runIdx := 1\<rparr>, InSub)"
    by (simp add: Background_def)
  have m: "main E args' child files1 = serve E files1"
    using args stays by (simp add: main_def)
  obtain conf conn files2 where s: "serve E files1 = (files2, Serving conf conn (start_tasks conf))"
    "files2 ''rand.data'' = (if bo_remove E then None else Some (File overwritten))" "files2 ''./logs'' = Some Directory"
    "\<And>name. name \<noteq> ''rand.data'' \<Longrightarrow> \<not> in_logs name \<Longrightarrow> files2 name = files1 name"
    "GetDecryptString (bo_crypto E) (cf_password conf) (cf_seeds conf) = Ok (bytes_of_string pw)"
    using serve_ok [OF assms(5), of files1] f by auto
  have "\<not> in_logs ''./out.log''" by (simp add: in_logs_def)
  with s(4) f have "files2 ''./out.log'' \<noteq> None" by simp
  with m s f show ?thesis
    by (intro exI [of _ conf] exI [of _ conn] exI [of _ files2]) (simp add: WaitForKill_removed)
qed

definition demo_boot :: boot_env where
  "demo_boot = \<lparr>bo_ReadPassword = Inr ''pass'', bo_now = ''20230101'', bo_write = (\<lambda>f. None), bo_remove = True,
     bo_random = (\<lambda>i. 60), bo_NewAccount = (\<lambda>p. Inr ''json''), bo_start = (None, None), bo_toml = Inr conf_file,
     bo_mkdir = None, bo_logger = (\<lambda>name files. (files(name \<mapsto> File []), None)), bo_Open = (\<lambda>source. None), bo_Ping = None, bo_rpc = (\<lambda>url method arg. Inr []),
     bo_crypto = demo_crypto, bo_keys = demo_keys\<rparr>"

theorem start_serves_with_password_witness:
  "\<exists>child args files conf conn files2. main demo_boot [''bridge''] \<lparr>pr_env = None, pr_runIdx = 0\<rparr> Map.empty =
       (files, InBackground child args) \<and> files ''rand.data'' = Some (File ''pass'') \<and>
     main demo_boot args child files = (files2, Serving conf conn (start_tasks conf)) \<and>
     files2 ''rand.data'' = None \<and> snd (WaitForKill demo_boot 7 files2) ''stop.sh'' = None"
proof -
  let ?p = "\<lparr>pr_env = None, pr_runIdx = 0\<rparr>"
  obtain child where r: "main demo_boot [''bridge''] ?p Map.empty =
      ([''rand.data'' \<mapsto> File ''pass'', ''./out.log'' \<mapsto> File []], InBackground child [''bridge'', ''daemon''])"
    by (simp add: main_def demo_boot_def input_def WriteFile_def Background_def startProc_def Atoi_def)
  have "is_ok (Load demo_crypto demo_keys (Inr conf_file) enc sds)"
    if "GetDecryptString demo_crypto enc sds = Ok (bytes_of_string ''pass'')" for enc sds
    using that by (simp add: Load_def conf_file_def conf_SOON_def conf_sSOON_def demo_keys_def checkKeyStore_def)
  then have up: "comes_up demo_boot ''pass''"
    by (auto simp: comes_up_def demo_boot_def demo_crypto_ok)
  have "bo_ReadPassword demo_boot = Inr ''pass''" "bo_remove demo_boot" by (simp_all add: demo_boot_def)
  with start_serves_with_password [OF r _ _ _ up, of 7] obtain conf conn files2 where
    "main demo_boot [''bridge'', ''daemon''] child [''rand.data'' \<mapsto> File ''pass'', ''./out.log'' \<mapsto> File []] =
       (files2, Serving conf conn (start_tasks conf))" "files2 ''rand.data'' = None"
    "snd (WaitForKill demo_boot 7 files2) = files2(''process.pid'' := None, ''stop.sh'' := None)"
    by auto
  with r show ?thesis
    by (intro exI [of _ child] exI [of _ "[''bridge'', ''daemon'']"]
        exI [of _ "[''rand.data'' \<mapsto> File ''pass'', ''./out.log'' \<mapsto> File []]"] exI [of _ conf] exI [of _ conn]
        exI [of _ files2]) simp
qed

end
