(* ===== verification/Rpc_Client.thy ===== *)
theory Rpc_Client
  imports Prelude_Go
begin

text \<open>
  Package rpc/client: GET and POST requests and JSON-RPC calls over HTTP (client.go, get.go, post.go).
  No other package of the program imports it.

  net/http and the JSON decoder are the parameter \<open>http_lib\<close>: whether a URL parses, what a request is
  answered, and the JSON forms. A response has a status and a body, of which the bytes arrive before
  an error or the end. The package's variable \<open>httpClient\<close> is the state: absent, or the shared client
  with the timeout it has been given last. A request is sent with the timeout in force. Maps of
  parameters and headers are association lists. Contexts, logging and the closing of bodies are left
  out; the functions with a context are those without.
\<close>

section \<open>Requests and responses\<close>

record http_request =
  hq_method :: string
  hq_url :: string
  hq_params :: "(string \<times> string) list"      \<comment> \<open>the query that is added to the URL's\<close>
  hq_headers :: "(string \<times> string) list"
  hq_body :: "bytes option"

record http_response =
  hr_StatusCode :: nat
  hr_arrived :: bytes
  hr_error :: "go_error option"

text \<open>\<open>RequestBody\<close>; \<open>rb_params\<close> is \<open>None\<close> for null.\<close>

record 'j request_body =
  rb_jsonrpc :: string
  rb_method :: string
  rb_params :: "'j list option"
  rb_id :: int

record json_error =
  je_code :: int
  je_message :: string

definition json_Error :: "json_error \<Rightarrow> go_error" where
  "json_Error e = Errorf (''json-rpc error '' @ int_text (je_code e) @ '', '' @ je_message e)"

record jsonrpc_response =
  jr_error :: "json_error option"
  jr_result :: bytes

record 'j http_lib =
  ht_NewRequest :: "string \<Rightarrow> go_error option"
  ht_Do :: "int \<Rightarrow> http_request \<Rightarrow> http_response rpc"
  ht_Marshal :: "'j \<Rightarrow> bytes rpc"
  ht_MarshalBody :: "'j request_body \<Rightarrow> bytes rpc"
  ht_UnmarshalResponse :: "bytes \<Rightarrow> jsonrpc_response rpc"

section \<open>client.go\<close>

type_synonym http_client = "int option"

definition defaultSlowTimeout :: int where "defaultSlowTimeout = 60"
definition defaultTimeout :: int where "defaultTimeout = 5"
definition defaultRequestID :: int where "defaultRequestID = 1"

definition createHTTPClient :: int where "createHTTPClient = defaultTimeout"

definition InitHTTPClient :: "http_client \<Rightarrow> http_client" where
  "InitHTTPClient c = Some createHTTPClient"

definition addParams :: "(string \<times> string) list \<Rightarrow> http_request \<Rightarrow> http_request" where
  "addParams params req = req\<lparr>hq_params := hq_params req @ params\<rparr>"

definition addHeaders :: "(string \<times> string) list \<Rightarrow> http_request \<Rightarrow> http_request" where
  "addHeaders headers req = req\<lparr>hq_headers := hq_headers req @ headers\<rparr>"

definition set_header :: "string \<Rightarrow> string \<Rightarrow> http_request \<Rightarrow> http_request" where
  "set_header key val req = req\<lparr>hq_headers := filter (\<lambda>(k, v). k \<noteq> key) (hq_headers req) @ [(key, val)]\<rparr>"

text \<open>\<open>Set\<close> puts the name into its canonical form, Content-Type. A nil body is \<open>None\<close>; \<open>marshal\<close> is the
  JSON form of the body.\<close>

definition addPostBody :: "bytes rpc option \<Rightarrow> http_request \<Rightarrow> http_request rpc" where
  "addPostBody marshal req = (case marshal of
      None \<Rightarrow> Inr req
    | Some (Inl e) \<Rightarrow> Inl e
    | Some (Inr jsonData) \<Rightarrow>
        Inr ((set_header ''Content-Type'' ''application/json'' req)\<lparr>hq_body := Some jsonData\<rparr>))"

definition addRawPostBody :: "string \<Rightarrow> http_request \<Rightarrow> http_request" where
  "addRawPostBody body req = (if body = [] then req
     else (set_header ''Content-Type'' ''application/x-www-form-urlencoded'' req)
       \<lparr>hq_body := Some (bytes_of_string body)\<rparr>)"

definition doRequest :: "'j http_lib \<Rightarrow> http_request \<Rightarrow> int \<Rightarrow> http_client \<Rightarrow> http_client \<times> http_response rpc"
  where
  "doRequest H req timeout c = (case c of
      None \<Rightarrow> (None, ht_Do H timeout req)
    | Some _ \<Rightarrow> (Some timeout, ht_Do H timeout req))"

definition new_request :: "string \<Rightarrow> string \<Rightarrow> http_request" where
  "new_request method url =
     \<lparr>hq_method = method, hq_url = url, hq_params = [], hq_headers = [], hq_body = None\<rparr>"

definition HTTPGet :: "'j http_lib \<Rightarrow> string \<Rightarrow> (string \<times> string) list \<Rightarrow> (string \<times> string) list \<Rightarrow> int
    \<Rightarrow> http_client \<Rightarrow> http_client \<times> http_response rpc" where
  "HTTPGet H url params headers timeout c = (case ht_NewRequest H url of
      Some e \<Rightarrow> (c, Inl e)
    | None \<Rightarrow> doRequest H (addHeaders headers (addParams params (new_request ''GET'' url))) timeout c)"

definition HTTPPost :: "'j http_lib \<Rightarrow> string \<Rightarrow> bytes rpc option \<Rightarrow> (string \<times> string) list
    \<Rightarrow> (string \<times> string) list \<Rightarrow> int \<Rightarrow> http_client \<Rightarrow> http_client \<times> http_response rpc" where
  "HTTPPost H url body params headers timeout c = (case ht_NewRequest H url of
      Some e \<Rightarrow> (c, Inl e)
    | None \<Rightarrow> (case addPostBody body (addHeaders headers (addParams params (new_request ''POST'' url))) of
        Inl e \<Rightarrow> (c, Inl e)
      | Inr req \<Rightarrow> doRequest H req timeout c))"

definition HTTPRawPost :: "'j http_lib \<Rightarrow> string \<Rightarrow> string \<Rightarrow> (string \<times> string) list \<Rightarrow> (string \<times> string) list
    \<Rightarrow> int \<Rightarrow> http_client \<Rightarrow> http_client \<times> http_response rpc" where
  "HTTPRawPost H url body params headers timeout c = (case ht_NewRequest H url of
      Some e \<Rightarrow> (c, Inl e)
    | None \<Rightarrow> doRequest H (addRawPostBody body
        (addHeaders headers (addParams params (new_request ''POST'' url)))) timeout c)"

section \<open>Reading a response\<close>

text \<open>\<open>ioutil.ReadAll(io.LimitReader(body, n))\<close>: an error that comes after \<open>n\<close> bytes is not seen.\<close>

definition maxReadContentLength :: nat where "maxReadContentLength = 1024 * 1024 * 10"

definition read_limited :: "nat \<Rightarrow> http_response \<Rightarrow> bytes rpc" where
  "read_limited n resp =
     (if n \<le> length (hr_arrived resp) then Inr (take n (hr_arrived resp))
      else case hr_error resp of None \<Rightarrow> Inr (hr_arrived resp) | Some e \<Rightarrow> Inl e)"

definition read_body :: "http_response \<Rightarrow> bytes rpc" where
  "read_body resp = (case read_limited maxReadContentLength resp of
      Inl e \<Rightarrow> Inl (Wrapf ''read body error: '' e) | Inr body \<Rightarrow> Inr body)"

section \<open>get.go\<close>

text \<open>\<open>decode\<close> is \<open>json.Unmarshal\<close> into the caller's result.\<close>

definition RPCGetRequest :: "'j http_lib \<Rightarrow> (bytes \<Rightarrow> 'r rpc) \<Rightarrow> string \<Rightarrow> (string \<times> string) list
    \<Rightarrow> (string \<times> string) list \<Rightarrow> int \<Rightarrow> http_client \<Rightarrow> http_client \<times> 'r rpc" where
  "RPCGetRequest H decode url params headers timeout c = (case HTTPGet H url params headers timeout c of
      (c, Inl e) \<Rightarrow> (c, Inl (Wrapf ''GET request error: '' e))
    | (c, Inr resp) \<Rightarrow> (c,
        if hr_StatusCode resp \<noteq> 200 then Inl (Errorf ''error response status'')
        else case read_body resp of
          Inl e \<Rightarrow> Inl e
        | Inr body \<Rightarrow> (case decode body of
            Inl e \<Rightarrow> Inl (Wrapf ''unmarshal result error: '' e) | Inr r \<Rightarrow> Inr r)))"

definition RPCGet :: "'j http_lib \<Rightarrow> (bytes \<Rightarrow> 'r rpc) \<Rightarrow> string \<Rightarrow> http_client \<Rightarrow> http_client \<times> 'r rpc" where
  "RPCGet H decode url c = RPCGetRequest H decode url [] [] defaultSlowTimeout c"

definition RPCGetWithTimeout :: "'j http_lib \<Rightarrow> (bytes \<Rightarrow> 'r rpc) \<Rightarrow> string \<Rightarrow> int \<Rightarrow> http_client
    \<Rightarrow> http_client \<times> 'r rpc" where
  "RPCGetWithTimeout H decode url timeout c = RPCGetRequest H decode url [] [] timeout c"

text \<open>The raw forms read the body before they look at the status.\<close>

definition raw_result :: "http_response \<Rightarrow> string rpc" where
  "raw_result resp = (case read_body resp of
      Inl e \<Rightarrow> Inl e
    | Inr body \<Rightarrow> if hr_StatusCode resp \<noteq> 200 then Inl (Errorf ''wrong response status'')
        else Inr (string_of_bytes body))"

definition RPCRawGetRequest :: "'j http_lib \<Rightarrow> string \<Rightarrow> (string \<times> string) list \<Rightarrow> (string \<times> string) list \<Rightarrow> int
    \<Rightarrow> http_client \<Rightarrow> http_client \<times> string rpc" where
  "RPCRawGetRequest H url params headers timeout c = (case HTTPGet H url params headers timeout c of
      (c, Inl e) \<Rightarrow> (c, Inl (Wrapf ''GET request error: '' e))
    | (c, Inr resp) \<Rightarrow> (c, raw_result resp))"

definition RPCRawGet :: "'j http_lib \<Rightarrow> string \<Rightarrow> http_client \<Rightarrow> http_client \<times> string rpc" where
  "RPCRawGet H url c = RPCRawGetRequest H url [] [] defaultSlowTimeout c"

definition RPCRawGetWithTimeout :: "'j http_lib \<Rightarrow> string \<Rightarrow> int \<Rightarrow> http_client \<Rightarrow> http_client \<times> string rpc"
  where
  "RPCRawGetWithTimeout H url timeout c = RPCRawGetRequest H url [] [] timeout c"

section \<open>post.go\<close>

record 'j rpc_request =
  rq_Method :: string
  rq_Params :: "'j list option"
  rq_Timeout :: int
  rq_ID :: int

text \<open>A variadic call without arguments has nil parameters, which become an empty array.\<close>

definition variadic :: "'j list \<Rightarrow> 'j list option" where
  "variadic params = (if params = [] then None else Some params)"

definition NewRequestWithTimeoutAndID :: "int \<Rightarrow> int \<Rightarrow> string \<Rightarrow> 'j list option \<Rightarrow> 'j rpc_request" where
  "NewRequestWithTimeoutAndID timeout i method params =
     (let req = \<lparr>rq_Method = method, rq_Params = params, rq_Timeout = timeout, rq_ID = i\<rparr>
      in if params = None then req\<lparr>rq_Params := Some []\<rparr> else req)"

definition NewRequest :: "string \<Rightarrow> 'j list option \<Rightarrow> 'j rpc_request" where
  "NewRequest method params = NewRequestWithTimeoutAndID defaultTimeout defaultRequestID method params"

definition getResultFromJSONResponse :: "'j http_lib \<Rightarrow> (bytes \<Rightarrow> 'r rpc) \<Rightarrow> http_response \<Rightarrow> 'r rpc" where
  "getResultFromJSONResponse H decode resp = (case read_body resp of
      Inl e \<Rightarrow> Inl e
    | Inr body \<Rightarrow>
        if hr_StatusCode resp \<noteq> 200 then Inl (Errorf ''wrong response status'')
        else if length body = 0 then Inl (Errorf ''empty response body'')
        else (case ht_UnmarshalResponse H body of
            Inl e \<Rightarrow> Inl (Wrapf ''unmarshal body error, body is '' e)
          | Inr jsonResp \<Rightarrow> (case jr_error jsonResp of
              Some e \<Rightarrow> Inl (Wrapf ''return error: '' (json_Error e))
            | None \<Rightarrow> (case decode (jr_result jsonResp) of
                Inl e \<Rightarrow> Inl (Wrapf ''unmarshal result error: '' e)
              | Inr r \<Rightarrow> Inr r))))"

definition RPCPostRequest :: "'j http_lib \<Rightarrow> (bytes \<Rightarrow> 'r rpc) \<Rightarrow> string \<Rightarrow> 'j rpc_request \<Rightarrow> http_client
    \<Rightarrow> http_client \<times> 'r rpc" where
  "RPCPostRequest H decode url req c =
     (let reqBody = \<lparr>rb_jsonrpc = ''2.0'', rb_method = rq_Method req, rb_params = rq_Params req,
            rb_id = rq_ID req\<rparr>
      in case HTTPPost H url (Some (ht_MarshalBody H reqBody)) [] [] (rq_Timeout req) c of
        (c, Inl e) \<Rightarrow> (c, Inl e)
      | (c, Inr resp) \<Rightarrow> (c, getResultFromJSONResponse H decode resp))"

definition RPCPost :: "'j http_lib \<Rightarrow> (bytes \<Rightarrow> 'r rpc) \<Rightarrow> string \<Rightarrow> string \<Rightarrow> 'j list \<Rightarrow> http_client
    \<Rightarrow> http_client \<times> 'r rpc" where
  "RPCPost H decode url method params c = RPCPostRequest H decode url (NewRequest method (variadic params)) c"

definition RPCPostWithTimeout :: "'j http_lib \<Rightarrow> int \<Rightarrow> (bytes \<Rightarrow> 'r rpc) \<Rightarrow> string \<Rightarrow> string \<Rightarrow> 'j list
    \<Rightarrow> http_client \<Rightarrow> http_client \<times> 'r rpc" where
  "RPCPostWithTimeout H timeout decode url method params c = RPCPostRequest H decode url
     (NewRequestWithTimeoutAndID timeout defaultRequestID method (variadic params)) c"

definition RPCPostWithTimeoutAndID :: "'j http_lib \<Rightarrow> (bytes \<Rightarrow> 'r rpc) \<Rightarrow> int \<Rightarrow> int \<Rightarrow> string \<Rightarrow> string
    \<Rightarrow> 'j list \<Rightarrow> http_client \<Rightarrow> http_client \<times> 'r rpc" where
  "RPCPostWithTimeoutAndID H decode timeout i url method params c = RPCPostRequest H decode url
     (NewRequestWithTimeoutAndID timeout i method (variadic params)) c"

definition RPCRawPostWithTimeout :: "'j http_lib \<Rightarrow> string \<Rightarrow> string \<Rightarrow> int \<Rightarrow> http_client
    \<Rightarrow> http_client \<times> string rpc" where
  "RPCRawPostWithTimeout H url reqBody timeout c = (case HTTPRawPost H url reqBody [] [] timeout c of
      (c, Inl e) \<Rightarrow> (c, Inl e)
    | (c, Inr resp) \<Rightarrow> (c, raw_result resp))"

definition RPCRawPost :: "'j http_lib \<Rightarrow> string \<Rightarrow> string \<Rightarrow> http_client \<Rightarrow> http_client \<times> string rpc" where
  "RPCRawPost H url body c = RPCRawPostWithTimeout H url body defaultSlowTimeout c"

section \<open>Property\<close>

text \<open>When a JSON-RPC call has a result. \<open>RPCPost\<close> gives a value exactly when the URL parses, the
  request has a JSON form and was answered, as one POST of that form with version 2.0, id 1 and an
  array of parameters, never null, within five seconds, with status 200 and a body that arrives (or
  fills the limit of 10 MB), is not empty, reads as a JSON-RPC response without an error, and holds
  the value.\<close>

theorem RPCPost_result_iff:
  "snd (RPCPost H decode url method params c) = Inr v \<longleftrightarrow> ht_NewRequest H url = None \<and>
     (\<exists>js resp body answer. ht_MarshalBody H \<lparr>rb_jsonrpc = ''2.0'', rb_method = method, rb_params = Some params,
          rb_id = 1\<rparr> = Inr js \<and>
        ht_Do H 5 \<lparr>hq_method = ''POST'', hq_url = url, hq_params = [],
          hq_headers = [(''Content-Type'', ''application/json'')], hq_body = Some js\<rparr> = Inr resp \<and>
        hr_StatusCode resp = 200 \<and> body \<noteq> [] \<and>
        (if 10485760 \<le> length (hr_arrived resp) then body = take 10485760 (hr_arrived resp)
         else hr_error resp = None \<and> body = hr_arrived resp) \<and>
        ht_UnmarshalResponse H body = Inr answer \<and> jr_error answer = None \<and> decode (jr_result answer) = Inr v)"
proof -
  have req: "NewRequest method (variadic params) =
      \<lparr>rq_Method = method, rq_Params = Some params, rq_Timeout = 5, rq_ID = 1\<rparr>"
    by (simp add: NewRequest_def NewRequestWithTimeoutAndID_def variadic_def defaultTimeout_def defaultRequestID_def)
  have do: "snd (doRequest H r t c) = ht_Do H t r" for r t by (simp add: doRequest_def split: option.split)
  have read: "read_body resp = Inr body \<longleftrightarrow> (if 10485760 \<le> length (hr_arrived resp)
      then body = take 10485760 (hr_arrived resp) else hr_error resp = None \<and> body = hr_arrived resp)" for resp body
    by (auto simp: read_body_def read_limited_def maxReadContentLength_def split: option.split)
  have result: "getResultFromJSONResponse H decode resp = Inr v \<longleftrightarrow> (\<exists>body answer. read_body resp = Inr body \<and>
      hr_StatusCode resp = 200 \<and> body \<noteq> [] \<and> ht_UnmarshalResponse H body = Inr answer \<and> jr_error answer = None \<and>
      decode (jr_result answer) = Inr v)" for resp
    by (auto simp: getResultFromJSONResponse_def split: sum.split option.split)
  have post: "snd (RPCPost H decode url method params c) = Inr v \<longleftrightarrow> ht_NewRequest H url = None \<and>
      (\<exists>js resp. ht_MarshalBody H \<lparr>rb_jsonrpc = ''2.0'', rb_method = method, rb_params = Some params,
          rb_id = 1\<rparr> = Inr js \<and>
        ht_Do H 5 \<lparr>hq_method = ''POST'', hq_url = url, hq_params = [],
          hq_headers = [(''Content-Type'', ''application/json'')], hq_body = Some js\<rparr> = Inr resp \<and>
        getResultFromJSONResponse H decode resp = Inr v)"
    by (auto simp: RPCPost_def RPCPostRequest_def req HTTPPost_def addPostBody_def addParams_def addHeaders_def
        set_header_def new_request_def doRequest_def split: option.split sum.split prod.split)
  show ?thesis unfolding post result read by auto
qed

end
