(* ===== verification/Logger.thy ===== *)
theory Logger
  imports Prelude_Go
begin

text \<open>
  Package log (log/logger.go), a wrapper of logrus: its settings, the fields of an entry, and the
  functions that log. Of logrus the model has the settings it is given and the calls it receives: a
  function that logs is the list of these calls, each with its level and the variant of the method. An
  argument of an entry is a string, an int, or any other value.
\<close>

section \<open>Calls of logrus\<close>

datatype 'v arg = StrArg string | IntArg int | Other 'v

datatype level = TraceLevel | DebugLevel | InfoLevel | PrintLevel | WarnLevel | ErrorLevel | FatalLevel | PanicLevel

text \<open>An entry with its fields and its message, printed or printed as a line; a formatted message;
  or the values of a message.\<close>

datatype 'v log_call =
    Entry level "string \<Rightarrow> 'v arg option" string
  | EntryLn level "string \<Rightarrow> 'v arg option" string
  | Formatted level string "'v arg list"
  | Values level "'v arg list"
  | ValuesLn level "'v arg list"

definition Debugf :: "string \<Rightarrow> 'v arg list \<Rightarrow> 'v log_call list" where
  "Debugf fmt args = [Formatted DebugLevel fmt args]"

section \<open>Fields\<close>

text \<open>The loop of \<open>WithFields\<close> over the keys and values that are left.\<close>

fun with_fields :: "'v arg list \<Rightarrow> (string \<Rightarrow> 'v arg option) \<Rightarrow> 'v log_call list \<times> (string \<Rightarrow> 'v arg option)" where
  "with_fields (key # val # ctx) fields = (case key of
      StrArg k \<Rightarrow> with_fields ctx (fields(k \<mapsto> val))
    | _ \<Rightarrow> (let (calls, fields) = with_fields ctx fields
            in (Debugf ''log field key '%v' is not string'' [key] @ calls, fields)))"
| "with_fields _ fields = ([], fields)"

definition WithFields :: "'v arg list \<Rightarrow> 'v log_call list \<times> (string \<Rightarrow> 'v arg option)" where
  "WithFields ctx =
     (let odd_calls = (if length ctx mod 2 \<noteq> 0
            then Debugf ''log fileds number %v is not even'' [IntArg (int (length ctx))] else []);
          (calls, fields) = with_fields ctx Map.empty
      in (odd_calls @ calls, fields))"

definition entry :: "level \<Rightarrow> string \<Rightarrow> 'v arg list \<Rightarrow> 'v log_call list" where
  "entry lv msg ctx = (case WithFields ctx of (calls, fields) \<Rightarrow> calls @ [Entry lv fields msg])"

definition entry_ln :: "level \<Rightarrow> string \<Rightarrow> 'v arg list \<Rightarrow> 'v log_call list" where
  "entry_ln lv msg ctx = (case WithFields ctx of (calls, fields) \<Rightarrow> calls @ [EntryLn lv fields msg])"

section \<open>The functions that log\<close>

definition log_Trace :: "string \<Rightarrow> 'v arg list \<Rightarrow> 'v log_call list" where "log_Trace msg ctx = entry TraceLevel msg ctx"
definition log_Tracef :: "string \<Rightarrow> 'v arg list \<Rightarrow> 'v log_call list" where "log_Tracef fmt args = [Formatted TraceLevel fmt args]"
definition log_Traceln :: "string \<Rightarrow> 'v arg list \<Rightarrow> 'v log_call list" where "log_Traceln msg ctx = entry_ln TraceLevel msg ctx"

definition log_Debug :: "string \<Rightarrow> 'v arg list \<Rightarrow> 'v log_call list" where "log_Debug msg ctx = entry DebugLevel msg ctx"
definition log_Debugln :: "string \<Rightarrow> 'v arg list \<Rightarrow> 'v log_call list" where "log_Debugln msg ctx = entry_ln DebugLevel msg ctx"

definition log_Info :: "string \<Rightarrow> 'v arg list \<Rightarrow> 'v log_call list" where "log_Info msg ctx = entry InfoLevel msg ctx"
definition log_Infof :: "string \<Rightarrow> 'v arg list \<Rightarrow> 'v log_call list" where "log_Infof fmt args = [Formatted InfoLevel fmt args]"
definition log_Infoln :: "string \<Rightarrow> 'v arg list \<Rightarrow> 'v log_call list" where "log_Infoln msg ctx = entry_ln InfoLevel msg ctx"

definition log_Print :: "'v arg list \<Rightarrow> 'v log_call list" where "log_Print msg = [Values PrintLevel msg]"
definition log_Printf :: "string \<Rightarrow> 'v arg list \<Rightarrow> 'v log_call list" where "log_Printf fmt args = [Formatted PrintLevel fmt args]"
definition log_Println :: "'v arg list \<Rightarrow> 'v log_call list" where "log_Println msg = [ValuesLn PrintLevel msg]"

definition log_Warn :: "string \<Rightarrow> 'v arg list \<Rightarrow> 'v log_call list" where "log_Warn msg ctx = entry WarnLevel msg ctx"
definition log_Warnf :: "string \<Rightarrow> 'v arg list \<Rightarrow> 'v log_call list" where "log_Warnf fmt args = [Formatted WarnLevel fmt args]"
definition log_Warnln :: "string \<Rightarrow> 'v arg list \<Rightarrow> 'v log_call list" where "log_Warnln msg ctx = entry_ln WarnLevel msg ctx"

definition log_Error :: "string \<Rightarrow> 'v arg list \<Rightarrow> 'v log_call list" where "log_Error msg ctx = entry ErrorLevel msg ctx"
definition log_Errorf :: "string \<Rightarrow> 'v arg list \<Rightarrow> 'v log_call list" where "log_Errorf fmt args = [Formatted ErrorLevel fmt args]"
definition log_Errorln :: "string \<Rightarrow> 'v arg list \<Rightarrow> 'v log_call list" where "log_Errorln msg ctx = entry_ln ErrorLevel msg ctx"

definition log_Fatal :: "string \<Rightarrow> 'v arg list \<Rightarrow> 'v log_call list" where "log_Fatal msg ctx = entry FatalLevel msg ctx"
definition log_Fatalf :: "string \<Rightarrow> 'v arg list \<Rightarrow> 'v log_call list" where "log_Fatalf fmt args = [Formatted FatalLevel fmt args]"
definition log_Fatalln :: "string \<Rightarrow> 'v arg list \<Rightarrow> 'v log_call list" where "log_Fatalln msg ctx = entry_ln FatalLevel msg ctx"

definition Crit :: "string \<Rightarrow> 'v arg list \<Rightarrow> 'v log_call list" where "Crit msg ctx = log_Fatal msg ctx"
definition Critf :: "string \<Rightarrow> 'v arg list \<Rightarrow> 'v log_call list" where "Critf fmt args = log_Fatalf fmt args"
definition Critln :: "string \<Rightarrow> 'v arg list \<Rightarrow> 'v log_call list" where "Critln msg ctx = log_Fatalln msg ctx"

definition log_Panic :: "string \<Rightarrow> 'v arg list \<Rightarrow> 'v log_call list" where "log_Panic msg ctx = entry PanicLevel msg ctx"
definition log_Panicf :: "string \<Rightarrow> 'v arg list \<Rightarrow> 'v log_call list" where "log_Panicf fmt args = [Formatted PanicLevel fmt args]"
definition log_Panicln :: "string \<Rightarrow> 'v arg list \<Rightarrow> 'v log_call list" where "log_Panicln msg ctx = entry_ln PanicLevel msg ctx"

definition Null :: "string \<Rightarrow> 'v arg list \<Rightarrow> 'v log_call list" where "Null msg ctx = []"

definition GetPrintFuncOr :: "bool \<Rightarrow> 'f \<Rightarrow> 'f \<Rightarrow> 'f" where
  "GetPrintFuncOr predicate targetFunc otherFunc = (if predicate then targetFunc else otherFunc)"

section \<open>Settings\<close>

datatype formatter = JSONFormatter | TextFormatter bool    \<comment> \<open>whether colours are forced\<close>

text \<open>Where the log goes: the terminal, or a file that is replaced, with its maximal age and the time
  between two files in nanoseconds.\<close>

datatype log_output = Stdout | Rotated string int int

record logger =
  lo_level :: "32 word"
  lo_JSONFormat :: bool
  lo_formatter :: formatter
  lo_output :: log_output

definition SetLogger :: "32 word \<Rightarrow> bool \<Rightarrow> bool \<Rightarrow> logger" where
  "SetLogger logLevel jsonFormat colorFormat =
     \<lparr>lo_level = logLevel, lo_JSONFormat = jsonFormat,
      lo_formatter = (if jsonFormat then JSONFormatter else TextFormatter colorFormat), lo_output = Stdout\<rparr>"

definition log_init :: logger where "log_init = SetLogger 6 False True"

text \<open>\<open>time.Duration(n) * time.Hour\<close>: a 64 bit int with its wrap-around.\<close>

definition duration_hours :: "u64 \<Rightarrow> int" where
  "duration_hours n = sint (n * 3600000000000)"

text \<open>\<open>newLog\<close> is the failure of \<open>newLoglogs.New\<close>, which ends the process; \<open>Abs\<close> makes the path
  absolute.\<close>

definition SetLogFile :: "(string \<Rightarrow> string) \<Rightarrow> (string \<Rightarrow> int \<Rightarrow> int \<Rightarrow> go_error option) \<Rightarrow> string \<Rightarrow> u64 \<Rightarrow> u64
    \<Rightarrow> logger \<Rightarrow> logger outcome" where
  "SetLogFile Abs newLog logFile logRotation logMaxAge st =
     (if logFile = [] then Ok st
      else let st = (if \<not> lo_JSONFormat st then st\<lparr>lo_JSONFormat := True, lo_formatter := JSONFormatter\<rparr> else st);
               logRotationTime = duration_hours logRotation;
               logMaxAgeTime = duration_hours logMaxAge;
               logFile = Abs logFile
        in (case newLog logFile logMaxAgeTime logRotationTime of
              Some e \<Rightarrow> Panic (''Failed to Initialize Log File '' @ error_text e)
            | None \<Rightarrow> Ok (st\<lparr>lo_output := Rotated logFile logMaxAgeTime logRotationTime\<rparr>)))"

section \<open>Lemmas and property\<close>

text \<open>Whatever is set in whatever order, the formatter is the one that \<open>JSONFormat\<close> says.\<close>

definition format_ok :: "logger \<Rightarrow> bool" where
  "format_ok st \<longleftrightarrow> (lo_JSONFormat st \<longleftrightarrow> lo_formatter st = JSONFormatter)"

lemma format_ok_SetLogger: "format_ok (SetLogger logLevel jsonFormat colorFormat)"
  by (simp add: format_ok_def SetLogger_def)

lemma SetLogFile_json:
  assumes "SetLogFile Abs newLog logFile logRotation logMaxAge st = Ok st'" and "format_ok st" and "logFile \<noteq> []"
  shows "format_ok st' \<and> lo_formatter st' = JSONFormatter \<and> lo_output st' \<noteq> Stdout \<and> lo_level st' = lo_level st"
  using assms by (auto simp: SetLogFile_def format_ok_def Let_def split: option.splits if_splits)

text \<open>The arguments of a call: keys with their values, and a value left over.\<close>

definition field_args :: "(string \<times> 'v arg) list \<Rightarrow> 'v arg option \<Rightarrow> 'v arg list" where
  "field_args kvs left = concat (map (\<lambda>(k, v). [StrArg k, v]) kvs) @ (case left of None \<Rightarrow> [] | Some x \<Rightarrow> [x])"

lemma with_fields_args: "with_fields (field_args kvs left) fs = ([], fs ++ map_of (rev kvs))"
proof (induction kvs arbitrary: fs)
  case Nil
  then show ?case by (cases left) (simp_all add: field_args_def)
next
  case (Cons kv kvs)
  then show ?case by (cases kv) (simp add: field_args_def map_add_def fun_eq_iff split: option.split)
qed

lemma length_field_args: "length (field_args kvs left) = 2 * length kvs + (if left = None then 0 else 1)"
  by (induction kvs) (auto simp: field_args_def split: option.split)

text \<open>What is logged is what was passed. Called with string keys and their values, \<open>WithFields\<close> gives
  the map from each key to the last of its values; a value left over is dropped, and then, and only
  then, the call is reported.\<close>

theorem WithFields_fields:
  "WithFields (field_args kvs left) =
     ((case left of None \<Rightarrow> []
       | Some x \<Rightarrow> Debugf ''log fileds number %v is not even'' [IntArg (2 * int (length kvs) + 1)]), map_of (rev kvs))"
  by (auto simp: WithFields_def with_fields_args length_field_args split: option.split)

end
