(* ===== verification/Bridge_Client.thy ===== *)
theory Bridge_Client
  imports Prelude_Go
begin

text \<open>
  cmd/bridge_client/main.go: the menu of the command line client. What \<open>fmt.Scanf\<close> answers to each
  prompt is the input, \<open>None\<close> for a line without a number, which leaves \<open>item\<close> at 0. The calls of the
  items are commented out in the source, so that every item does nothing.
\<close>

definition menu :: "string list" where
  "menu = [''1. Wrap'', ''2. UnWrap'', ''3. Submit Signer Proposal'', ''4. Agree Signer Proposal'',
     ''5. Submit RequireCount Proposal'', ''6. Agree RequireCount Proposal'', ''7. Withdraw Fee'', ''8. UnWrap Fee'']"

definition prompt :: string where
  "prompt = ''Test Bridge, choose an item to run (0 to quit) : ''"

definition run_item :: "int \<Rightarrow> string list" where
  "run_item item = []"

text \<open>What is printed, and whether the client has ended.\<close>

fun choose_items :: "int option list \<Rightarrow> string list \<times> bool" where
  "choose_items [] = ([prompt], False)"
| "choose_items (scanned # inputs) =
     (let item = (case scanned of None \<Rightarrow> 0 | Some n \<Rightarrow> n) in
      if item = 0 then ([prompt], True)
      else let (printed, ended) = choose_items inputs in (prompt # run_item item @ printed, ended))"

definition client_main :: "int option list \<Rightarrow> string list \<times> bool" where
  "client_main inputs = (let (printed, ended) = choose_items inputs in (menu @ printed, ended))"

text \<open>The client ends at the first 0 or unreadable line, and prompts once for every item until then.\<close>

lemma choose_items_ended: "snd (choose_items inputs) \<longleftrightarrow> None \<in> set inputs \<or> Some 0 \<in> set inputs"
  by (induction inputs) (auto simp: Let_def split: prod.split option.split)

theorem client_main_ended: "snd (client_main inputs) \<longleftrightarrow> None \<in> set inputs \<or> Some 0 \<in> set inputs"
  using choose_items_ended by (simp add: client_main_def Let_def split: prod.split) (metis snd_conv)

theorem client_main_prints:
  "fst (client_main inputs) = menu @ replicate (Suc (length (takeWhile (\<lambda>i. i \<noteq> None \<and> i \<noteq> Some 0) inputs))) prompt"
proof -
  have "fst (choose_items inputs) = replicate (Suc (length (takeWhile (\<lambda>i. i \<noteq> None \<and> i \<noteq> Some 0) inputs))) prompt"
    by (induction inputs) (auto simp: Let_def run_item_def split: prod.splits option.splits)
  then show ?thesis by (simp add: client_main_def Let_def split: prod.split) (metis fst_conv)
qed

end
