(* ===== verification/Spec2Isabelle.thy ===== *)
theory Spec2Isabelle
  imports Threads_Demo Payments_Demo Main_Start Rpc_Client Logger Bridge_Client
begin

text \<open>
  The bridge server biota-swap: orders that wrap a token of a source chain (Iota, Shimmer, or an
  EVM chain) into a token of an EVM chain, and unwrap it again. This library models its Go packages
  and proves what makes them correct. Each theory names the files it models; definitions keep the
  names of the functions, with a suffix for the token where several packages define a method
  (\<open>_evm\<close>, \<open>_iota\<close>, \<open>_smr\<close>, and \<open>_src\<close> for a call through the interface).

  How the parts work together. A listener of a token (\<open>StartWrapListen\<close>, \<open>StartUnWrapListen\<close>) turns
  what a chain's node reports into orders on a channel. \<open>listenWrap\<close> and \<open>listenUnWrap\<close> of package
  server pass them to \<open>dealWrapOrder\<close> and \<open>dealUnWrapOrder\<close>, which let each order pass once
  (\<open>DealedOrdersCheck\<close>), store it in the database, and pay: with the key of the token's account, or,
  for tokens of the signing group, with a transaction that \<open>smpc.Sign\<close> asks the group to sign. The
  other members see the request in \<open>Accept\<close>, check that it is a user's unwrap, and agree. Sent
  transactions are rechecked (\<open>RecheckIota\<close>, \<open>recheckEvmTx\<close>). A contract on an EVM chain records
  failed transactions; its records become orders again in \<open>dealTxErrorRecord\<close>.

  Theories and sources.
  \<^item> \<open>Prelude_Go\<close>: Go's errors, panics (\<open>'a outcome\<close>: \<open>Ok\<close>, \<open>Err\<close>, \<open>Panic\<close>), slices, \<open>bytes.Cut\<close>,
    \<open>big.Int\<close> and hexadecimal text, with the lemmas that all theories share. \<open>Contracts\<close>: the
    interfaces as locales, an operation that grants a key at most once (\<open>claim_once\<close>), and grants
    every fresh key (\<open>claim_always\<close>), and a queue (\<open>fifo\<close>); they are interpreted on the order
    table, the handled orders, the accepted keys and both queues. \<open>Threads\<close>: goroutines as trees of
    atomic steps on a shared state, pools of them, and what all their interleavings keep.
  \<^item> \<open>Chain_Types\<close>: tokens/token.go, go-ethereum's functions as the parameter \<open>eth_lib\<close>, and the
    hashes of methods and events. \<open>Evm_Contract\<close>: tokens/evm/contract.go. \<open>Scanner\<close>: the loop that
    both block scanners share, one input of the node per turn, and its contract (\<open>range_scanner\<close>,
    \<open>bounded_scanner\<close>). \<open>Evm_Detect\<close>: tokens/evm/detect.go.
    \<open>Tx_Error\<close>: tokens/txerr.go.
  \<^item> \<open>Iota_Ledger\<close>: outputs, transactions under construction and the selection loops that both Iota
    packages share. \<open>Iota_Smr\<close>: tokens/iotasmr; \<open>Iota_Unwrap\<close> and \<open>Iota_Listen\<close>: its properties. The
    loop over received outputs is the locale \<open>output_handler\<close>, for this package and for tokens/smr.
    \<open>Smr\<close>: tokens/smr.
  \<^item> \<open>Tools_Aes\<close>: tools/aes.go. \<open>Config\<close>: config/config.go. \<open>Smpc\<close>: package smpc. \<open>Store\<close>:
    package model.
  \<^item> \<open>Server_Queues\<close>: the containers of server/var.go. \<open>Server_State\<close>: the variables of package
    server as the record \<open>server\<close>, the outside of a handler as \<open>server_env\<close>, and \<open>ListenTokens\<close>.
    \<open>Server_Deal\<close>: server/detect.go. \<open>Server_Accept\<close>: server/accept.go, recheck.go, txerrdeal.go.
  \<^item> \<open>Server_Run\<close> and \<open>Server_Machine\<close>: the process as the inductive relations \<open>step\<close> and \<open>run\<close> over
    orders, records, ticks and resets in any order, one handler after the other, and the invariants of
    all runs. \<open>Server_Props\<close> and \<open>Server_Tasks\<close>: properties of the handlers and the periodic tasks.
    \<open>Listener_Runs\<close>: the loops of the listeners and the error records as such runs.
  \<^item> \<open>Server_Threads\<close>: the handlers and tasks again as goroutines, equal to the functions when they run
    alone. \<open>Interleavings\<close>: all executions of these goroutines (\<open>exec\<close>) and their invariants, with the runs
    among them. \<open>Recheck_Race\<close>: \<open>recheckEvmTx\<close> while others push. \<open>Start_Race\<close>: \<open>ListenTokens\<close> as a goroutine
    beside the loop over the records.
  \<^item> \<open>Server_Listen\<close>: both listeners of package server, for one connection as the locale
    \<open>paying_listener\<close> and for all of them as \<open>reconnecting_listener\<close>, against a specification of the
    payments. \<open>Listeners\<close> and \<open>Shimmer_Payments\<close>: the listeners of the tokens and those of the server
    together, from a chain's logs and a node's outputs to the payments. \<open>Group_Unwrap\<close>: an unwrap through the
    signing group. \<open>Server_Demo\<close>, \<open>Threads_Demo\<close> and \<open>Payments_Demo\<close>: a concrete world in which the
    hypotheses of these properties hold.
  \<^item> \<open>Daemon\<close>: daemon/daemon.go, processes as values and the life of a process as an argument.
    \<open>Main_Start\<close>: main.go, server/server.go, model/mysql.go and package gl, the start of the process
    with the file that carries the password. \<open>Rpc_Client\<close>: rpc/client, over the parameter \<open>http_lib\<close>.
    \<open>Logger\<close>: package log, as the calls of logrus it makes. \<open>Bridge_Client\<close>: cmd/bridge_client.
  \<^item> This theory: properties that span several members of the bridge.

  State and effects. A function that changes state takes the state and returns it; calls of a node
  are functions in the environment, so that each handler sees an arbitrary but fixed outside, and
  every handler of a run its own. What a function sends to a chain is returned as a list of
  transactions; the calls of package server that move funds or sign are recorded in the ghost
  field \<open>sv_trace\<close>. Byte strings are lists of 8 bit words, heights, deposits, nonces and the times of
  sign requests and of the error contract 64 bit words with their wrap-around (a request's age is a
  difference of such times, \<open>request_age\<close>), \<open>big.Int\<close> and the clock's own times integers. The files of a
  process are a store from names to nodes (\<open>files\<close>), which \<open>startProc\<close>, \<open>CreateLogFiles\<close>, \<open>readRand\<close> and the
  rest of \<open>main\<close> change; what is printed into the logs is left out. An index out of range, a nil dereference
  and a call of panic or log.Panicf are the outcome \<open>Panic\<close>; a panic of a handler ends the process,
  so it is no step of \<open>run\<close>. In an execution the goroutine stays in \<open>Crash\<close> and the others may go on, so that
  what holds of all executions holds up to any panic.

  Goroutines. The containers of server/var.go lock in every method, and each statement goes to the database
  on its own; so an atomic step of a goroutine is one such method or statement, or one call that moves funds
  or signs. What a node answers, and the time, are those of the event, and take any time to come. The code
  runs the orders of one listener one after the other; executions let them overlap, too. The test and
  the entry of \<open>acceptedTxes\<close> are one step, since only the goroutine of \<open>Accept\<close> uses it.

  Days. The handled orders (\<open>DealedOrdersCheck\<close>) are cleared every 24 hours whatever the
  listeners do, so the loops of the listeners over their connections (\<open>listenWrap_loop\<close>,
  \<open>listenUnWrap_loop\<close>) take a list of arrivals, which are orders or clearings
  (\<open>next_day\<close>), and the executions have a reset as an event. Theorems on one connection
  (\<open>listenWrap\<close>, \<open>listenUnWrap\<close> on a list of orders) are about the time between
  two clearings.

  Loops. The block scanners and the listeners run for ever; they are functions of the list of answers
  they get, so each statement on them holds for every finite part of their life. The selection of
  inputs in tokens/iotasmr may start over for ever: the node's answers to its passes are a list, and
  a list that is too short gives \<open>None\<close>, as for a pass that has not come to an end. The inner
  loop of \<open>recheckEvmTx\<close> terminates because every round that goes on shortens the queue; among goroutines
  that push it need not, and its program gets a number of rounds, any number being allowed in
  an execution. One more than the queue is long is enough for a goroutine that is not interrupted
  (\<open>prog_of_is_handler\<close>). No fuel is used elsewhere.

  What the properties show. Payments: at most one for an order between daily resets in every execution
  (\<open>threads_pay_once\<close>), the right ones for all connections and days of a listener, and on the
  way to Shimmer none twice on whatever days (\<open>reconnecting_pays_once\<close>,
  \<open>reconnecting_unwraps_once\<close>), and so for what a chain has logged or a node has received
  (\<open>logged_wraps_are_paid\<close>, \<open>logged_unwraps_are_paid\<close>,
  \<open>logged_unwraps_are_paid_in_shimmer\<close>, \<open>received_wraps_are_paid\<close>,
  \<open>received_shimmer_wraps_are_paid\<close>), one per stored row
  (\<open>dealUnWrapOrder_once_per_row\<close>), and to the confirmed row when the group signs
  (\<open>group_unwrap_completes\<close>); no sent unwrap is forgotten
  (\<open>recheck_iota_turn_cases\<close>). Signing: a validator agrees only to transactions that users
  asked for (\<open>accept_only_user_unwraps\<close>), to each request once
  (\<open>threads_accept_once\<close>), and an honest request is agreed to
  (\<open>honest_request_accepted\<close>). Transactions: they conserve deposits and tokens, pay the target
  and read back as they were built; call data and events decode to what was encoded. Listeners: their orders
  are well formed, no block is skipped or scanned twice, scanning and subscribing agree, no output is lost.
  Goroutines: containers, queues and tables keep their invariants (\<open>threads_stay_ok\<close>), a
  recheck drops what it has looked at (\<open>recheck_drops_what_it_read\<close>), every run is an execution
  and every loop a run. The process: the password reaches the process in the background, its file is removed
  or overwritten, and only the logs remain (\<open>start_serves_with_password\<close>), and the supervisor
  gives up exactly after a row of failures (\<open>Run_loop_gives_up\<close>). Some theorems state where the
  code does not do what it means to.

  Not modelled: sleeping, the calls that log, and unused constants and types. A chain's node, iota.go,
  go-ethereum, net/http, logrus, the JSON and TOML decoders, the keystore, the terminal, the random source and
  the operating system are parameters. The maps \<open>srcTokens\<close>, \<open>destTokens\<close> and \<open>sentEvmTxes\<close> are plain Go maps
  that \<open>ListenTokens\<close> writes while others may read them; an access is one step here, and what Go does on a
  concurrent access to a map is left out. A goroutine of a listener that has been left and blocks for ever
  on its channel has no effect on the state and is left out.
\<close>

section \<open>Two members of the bridge\<close>

lemma validate_same_token:
  "it_tokenID t' = it_tokenID t \<Longrightarrow> ValiditeUnWrapTxData_iota I t' hash js = ValiditeUnWrapTxData_iota I t hash js"
proof -
  assume "it_tokenID t' = it_tokenID t"
  then have eq: "getAmountFromOutput t' = getAmountFromOutput t" 
    by (intro ext) (auto simp: getAmountFromOutput_def split: list.split)
  show ?thesis unfolding ValiditeUnWrapTxData_iota_def eq ..
qed

text \<open>C3: an honest request is accepted. Let a validator's \<open>CreateUnWrapTxData\<close> make the transaction that
  pays a user's unwrap, and ask the group to sign its hash. Another validator with the same bridge
  tokens agrees to the request, as long as it gets it in time and has not seen its key, its keystore opens,
  it is connected to the group, and its node reports the user's call of unwrap as mined, with the
  target, the symbol and an amount that is not smaller.\<close>

theorem honest_request_accepted:
  assumes libs: "iota_lib_ok (en_I E)" "eth_lib_ok (en_L E)"
    and address: "FromHex (en_L E) (address_String (en_I E) (Ed25519Address target)) = target"
    and made: "CreateUnWrapTxData_iota (en_L E) (en_I E) N t to amount tag = Some (Ok (hash, txData))"
      "target = FromHex (en_L E) to" "0 \<le> amount" "amount < 2 ^ 64"
    and request: "sg_MsgContext d = [ctx]" "sg_MsgHash d = [hexutil_Encode (en_L E) hash]"
      "en_ctx_Unmarshal E ctx = Inr \<lparr>mc_SrcToken = src, mc_DestToken = dest, mc_Method = UnwrapMethod,
         mc_TxData = txData, mc_Timestamp = ts\<rparr>"
    and validator: "sv_src st src = Some (IotaTok t')" "sv_dest st dest = Some t2" "it_tokenID t' = it_tokenID t"
      "sint (word_of_int (en_now E) - ts) \<le> vc_AcceptOverTime (cf_Server (en_conf E))" "\<not> sv_accepted st (sg_Key d)"
      "env_key E ''smpc'' = Ok (Inr k)" "sm_client (en_smpc E) = Some call"
    and mined: "TransactionByHash (en_eth E t2) (BytesToHash (en_L E) tag) = Inr (tx, False)"
      "tx_Data tx = take 4 (MethodUnWrap (en_L E)) @ target @ symbol @ value" "length symbol = 32"
      "string_of_bytes (fst (cut_zero symbol)) = Symbol_iota t'" "amount \<le> big_set_bytes value"
  shows "\<exists>calls. accept_info E d st = Ok (traced (SignAccepted (sg_Key d) calls)
    (st\<lparr>sv_accepted := (sv_accepted st)(sg_Key d := True)\<rparr>), GoOn)"
proof -
  have "length target = 32"
    using made(1,2) by (auto simp: CreateUnWrapTxData_iota_def Let_def split: if_splits)
  moreover have "length (take 4 (MethodUnWrap (en_L E))) = 4"
    using libs(2) by (simp add: eth_lib_ok_def MethodUnWrap_def topic_def)
  ultimately have "unwrap_call (en_L E) (tx_Data tx)
      (address_String (en_I E) (Ed25519Address target)) (Symbol_iota t') amount"
    using mined(2-5) address by (simp add: unwrap_call_def)
  then have "CheckUnWrapTx_evm (en_L E) (en_eth E t2) tag (address_String (en_I E) (Ed25519Address target))
      (Symbol_iota t') amount = Ok ()"
    using mined(1) by (simp add: CheckUnWrapTx_evm_def check_unwrap_data_iff)
  moreover have "ValiditeUnWrapTxData_iota (en_I E) t' hash txData = Ok \<lparr>bt_Txid = tag,
      bt_To = address_String (en_I E) (Ed25519Address target), bt_Amount = Some amount\<rparr>"
    using unwrap_data_reads_back [OF libs(1) made(1,3,4)] validate_same_token [OF validator(3)] made(2) by simp
  moreover have "FromHex (en_L E) (hexutil_Encode (en_L E) hash) = hash" using libs(2) by (simp add: eth_lib_ok_def)
  ultimately have "accept_checks E d st = Ok ()"
    using request validator(1,2,4) by (simp add: accept_checks_def request_age_def)
  from accept_info_accepts [OF this validator(5-7)] show ?thesis .
qed


section \<open>Witness\<close>

lemma demo_made: "CreateUnWrapTxData_iota eth_demo demo_lib demo_iota_node demo_native (hex_encode demo_target) 60 [9] =
    Some (Ok ([8], [1]))"
proof -
  have "getUnSignedTxDataNativeToken demo_lib demo_iota_node demo_native (Ed25519Address demo_target) 60 [9] =
      Some (Ok ([8], [1]))" by code_simp
  moreover have "FromHex eth_demo (hex_encode demo_target) = demo_target" "length demo_target = 32"
    by (simp_all add: eth_demo_def demo_target_def)
  moreover have "MaxTagLength demo_lib = 64" "it_tokenID demo_native = [4]" "FoundryIDLength demo_lib = 38"
    by (simp_all add: demo_lib_def iota_demo_def demo_native_def demo_smr_token_def)
  ultimately show ?thesis by (simp add: CreateUnWrapTxData_iota_def Let_def Cons_replicate_eq)
qed

theorem honest_request_accepted_witness:
  "\<exists>calls. accept_info demo_validator (demo_request\<lparr>sg_MsgHash := [hexutil_Encode eth_demo [8]]\<rparr>) demo_accepting =
     Ok (traced (SignAccepted ''key1'' calls)
       (demo_accepting\<lparr>sv_accepted := (sv_accepted demo_accepting)(''key1'' := True)\<rparr>), GoOn)"
proof -
  let ?d = "demo_request\<lparr>sg_MsgHash := [hexutil_Encode eth_demo [8]]\<rparr>"
  have lib: "iota_lib_ok demo_lib"
    using iota_demo_ok [of demo_essence] by (simp add: iota_lib_ok_def demo_lib_def)
  have address: "FromHex eth_demo (address_String demo_lib (Ed25519Address demo_target)) = demo_target"
    "FromHex eth_demo (hex_encode demo_target) = demo_target"
    by (simp_all add: eth_demo_def demo_lib_def)
  obtain call where c: "sm_client (en_smpc demo_validator) = Some call"
    by (simp add: demo_smpc_conn_def InitSmpc_def)
  have o: "vc_AcceptOverTime (cf_Server demo_config) = 7200"
    by (simp add: demo_config_def Load_def conf_file_def conf_SOON_def conf_sSOON_def demo_keys_def
      checkKeyStore_def demo_decrypt load_pairs_def)
  have tx: "TransactionByHash (demo_node (demo_tx demo_call) False) (BytesToHash eth_demo [9]) =
      Inr (demo_tx demo_call, False)" "tx_Data (demo_tx demo_call) = demo_call"
    by (simp_all add: demo_node_def demo_tx_def NewTransaction_def)
  have call: "demo_call = take 4 (MethodUnWrap eth_demo) @ demo_target @ (bytes_of_string ''IOTA'' @ replicate 28 0) @
      (replicate 31 0 @ [60])" by (simp add: demo_call_def)
  have parts: "length (bytes_of_string ''IOTA'' @ replicate 28 0) = 32"
    "string_of_bytes (fst (cut_zero (bytes_of_string ''IOTA'' @ replicate 28 0))) = ''IOTA''"
    "(60 :: int) \<le> big_set_bytes (replicate 31 0 @ [60])" by code_simp+
  have ctx: "demo_ctx = \<lparr>mc_SrcToken = ''IOTA'', mc_DestToken = ''sSOON'', mc_Method = UnwrapMethod, mc_TxData = [1],
     mc_Timestamp = 900\<rparr>" by (simp add: demo_ctx_def UnwrapMethod_def)
  show ?thesis
    using honest_request_accepted [of demo_validator demo_target demo_iota_node demo_native "hex_encode demo_target" 60
        "[9]" "[8]" "[1]" ?d "''context''" "''IOTA''" "''sSOON''" 900 demo_accepting demo_native demo_sSOON _ call
        "demo_tx demo_call" "bytes_of_string ''IOTA'' @ replicate 28 0" "replicate 31 0 @ [60]"]
      lib eth_demo_ok address demo_made c o tx call parts ctx demo_validator_key
    by simp
qed

end
